theory Spec2Isabelle
  imports Complex_Main "HOL-Library.AList"
begin

section \<open>Python values\<close>

text \<open>
  The application keeps its configuration and its ticket ledger in JSON files and its
  monthly records in spreadsheet files.  A decoded JSON document is a value of type
  \<open>json\<close>.  A dictionary is an association list in insertion order, as Python
  dictionaries are; \<open>AList.update\<close> is the assignment \<open>d[k] = v\<close>: it replaces the
  value of a key that is present, in place, and appends a new key at the end.  Floats are
  the finite ones.  Characters are code points below 256.
\<close>

datatype json =
    JNull
  | JBool bool
  | JInt int
  | JFloat real
  | JStr string
  | JList "json list"
  | JDict "(string \<times> json) list"

datatype error = AttributeError | TypeError | KeyError | FileNotFoundError | ParseError

text \<open>Truth value of an object, as \<open>not x\<close>, \<open>x or y\<close> and \<open>if x\<close> test it.\<close>

fun truthy :: "json \<Rightarrow> bool" where
  "truthy JNull = False"
| "truthy (JBool b) = b"
| "truthy (JInt i) = (i \<noteq> 0)"
| "truthy (JFloat r) = (r \<noteq> 0)"
| "truthy (JStr s) = (s \<noteq> [])"
| "truthy (JList xs) = (xs \<noteq> [])"
| "truthy (JDict d) = (d \<noteq> [])"

definition or_else :: "json \<Rightarrow> json \<Rightarrow> json" where
  "or_else a b = (if truthy a then a else b)"

text \<open>Equality \<open>==\<close>: numbers and booleans compare by value, lists element by element,
  dictionaries key by key whatever the order of their items.\<close>

fun num_of :: "json \<Rightarrow> real option" where
  "num_of (JBool b) = Some (if b then 1 else 0)"
| "num_of (JInt i) = Some (of_int i)"
| "num_of (JFloat r) = Some r"
| "num_of _ = None"

function py_eq :: "json \<Rightarrow> json \<Rightarrow> bool" where
  "py_eq (JList xs) y = (case y of JList ys \<Rightarrow> list_all2 py_eq xs ys | _ \<Rightarrow> False)"
| "py_eq (JDict d) y = (case y of
       JDict e \<Rightarrow> length d = length e \<and>
         list_all (\<lambda>(k, v). case map_of e k of None \<Rightarrow> False | Some w \<Rightarrow> py_eq v w) d
     | _ \<Rightarrow> False)"
| "py_eq JNull y = (y = JNull)"
| "py_eq (JStr s) y = (y = JStr s)"
| "py_eq (JBool b) y = (num_of y = Some (if b then 1 else 0))"
| "py_eq (JInt i) y = (num_of y = Some (of_int i))"
| "py_eq (JFloat r) y = (num_of y = Some r)"
  by pat_completeness auto
termination
proof (relation "measure (\<lambda>(a, b). size a)", goal_cases)
  case 1
  show ?case by simp
next
  case (2 xs y ys z w)
  then show ?case
    using size_list_estimation'[of z xs "size z" size] by simp
next
  case (3 d y e kv k v w)
  then have "size v \<le> size_prod (\<lambda>x. 0) size kv" by auto
  with 3 show ?case
    using size_list_estimation'[of kv d "size v" "size_prod (\<lambda>x. 0) size"] by simp
qed

subsection \<open>Dictionaries\<close>

definition has_key :: "(string \<times> json) list \<Rightarrow> string \<Rightarrow> bool" where
  "has_key d k = (k \<in> fst ` set d)"

text \<open>\<open>d.get(k)\<close>: \<open>None\<close> for a missing key.\<close>

definition dict_get :: "(string \<times> json) list \<Rightarrow> string \<Rightarrow> json" where
  "dict_get d k = (case map_of d k of None \<Rightarrow> JNull | Some v \<Rightarrow> v)"

text \<open>\<open>d.setdefault(k, v)\<close>, for the dictionary it leaves behind.\<close>

definition setdefault :: "(string \<times> json) list \<Rightarrow> string \<Rightarrow> json \<Rightarrow> (string \<times> json) list" where
  "setdefault d k v = (if has_key d k then d else d @ [(k, v)])"

text \<open>\<open>{**a, **b}\<close>: the items of \<open>b\<close> assigned into a copy of \<open>a\<close>, one after the other.\<close>

definition dict_merge :: "(string \<times> json) list \<Rightarrow> (string \<times> json) list \<Rightarrow> (string \<times> json) list" where
  "dict_merge a b = fold (\<lambda>(k, v). AList.update k v) b a"

fun is_dict :: "json \<Rightarrow> bool" where
  "is_dict (JDict d) = True"
| "is_dict _ = False"

fun is_list :: "json \<Rightarrow> bool" where
  "is_list (JList xs) = True"
| "is_list _ = False"

subsection \<open>Strings\<close>

text \<open>The characters \<open>str.strip()\<close> removes: those for which \<open>str.isspace()\<close> holds.\<close>

definition is_space :: "char \<Rightarrow> bool" where
  "is_space c = (of_char c \<in> {9, 10, 11, 12, 13, 28, 29, 30, 31, 32, 133, 160 :: nat})"

definition lstrip :: "string \<Rightarrow> string" where
  "lstrip s = dropWhile is_space s"

definition rstrip :: "string \<Rightarrow> string" where
  "rstrip s = rev (dropWhile is_space (rev s))"

definition strip :: "string \<Rightarrow> string" where
  "strip s = rstrip (lstrip s)"

text \<open>\<open>s.split(",")\<close>: the pieces between the commas, empty pieces included.\<close>

fun split_comma :: "string \<Rightarrow> string list" where
  "split_comma [] = [[]]"
| "split_comma (c # cs) =
     (if c = CHR '','' then [] # split_comma cs
      else (case split_comma cs of [] \<Rightarrow> [[c]] | w # ws \<Rightarrow> (c # w) # ws))"

text \<open>\<open>x.strip()\<close> on an arbitrary value: only a string has the method.\<close>

fun strip_method :: "json \<Rightarrow> error + string" where
  "strip_method (JStr s) = Inr (strip s)"
| "strip_method _ = Inl AttributeError"

section \<open>JSON store normalizers (ui\_master\_data.py)\<close>

text \<open>
  \<open>_normalize_tool_store\<close>: a dictionary with a dictionary under \<open>"tools"\<close> is returned
  as it is, any other dictionary is wrapped, anything else gives \<open>{"tools": {}}\<close>.
\<close>

definition normalize_tool_store :: "json \<Rightarrow> json" where
  "normalize_tool_store store =
     (case store of
        JDict d \<Rightarrow>
          (if has_key d ''tools'' \<and> is_dict (dict_get d ''tools'') then store
           else JDict [(''tools'', store)])
      | _ \<Rightarrow> JDict [(''tools'', JDict [])])"

text \<open>\<open>_normalize_cost_store\<close>.\<close>

definition normalize_cost_store :: "json \<Rightarrow> json" where
  "normalize_cost_store store =
     (let d0 = (case store of JDict d \<Rightarrow> d | _ \<Rightarrow> []);
          d1 = setdefault d0 ''scrap_cost_by_part'' (JDict []);
          d2 = (if \<not> is_dict (dict_get d1 ''scrap_cost_by_part'')
                then AList.update ''scrap_cost_by_part'' (JDict []) d1 else d1);
          d3 = setdefault d2 ''scrap_cost_default'' (JFloat 0)
      in JDict d3)"

text \<open>
  \<open>_normalize_parts_store\<close>, the second definition of that name in the module (it
  replaces the first when the module is loaded).  \<open>part_lines\<close> is the treatment of the
  \<open>"lines"\<close> field, \<open>clean_part\<close> one turn of the loop: \<open>None\<close> for an item that is
  ignored, an error where \<open>.strip()\<close> is called on a value that is not a string.
\<close>

definition part_lines :: "json \<Rightarrow> json" where
  "part_lines x =
     (let ln = or_else x (JList []);
          ln = (case ln of
                  JStr s \<Rightarrow> JList (map JStr (filter (\<lambda>p. p \<noteq> []) (map strip (split_comma s))))
                | _ \<Rightarrow> ln)
      in if is_list ln then ln else JList [])"

definition clean_part :: "json \<Rightarrow> error + json option" where
  "clean_part item =
     (case item of
        JStr s \<Rightarrow> Inr (Some (JDict [(''part_number'', JStr (strip s)), (''name'', JStr ''''),
                                    (''lines'', JList [])]))
      | JDict d \<Rightarrow>
          (case strip_method (or_else (dict_get d ''part_number'')
                               (or_else (dict_get d ''pn'')
                                 (or_else (dict_get d ''part'') (JStr '''')))) of
             Inl e \<Rightarrow> Inl e
           | Inr pn \<Rightarrow>
               (case strip_method (or_else (dict_get d ''name'') (JStr '''')) of
                  Inl e \<Rightarrow> Inl e
                | Inr nm \<Rightarrow> Inr (Some (JDict [(''part_number'', JStr pn), (''name'', JStr nm),
                                             (''lines'', part_lines (dict_get d ''lines''))]))))
      | _ \<Rightarrow> Inr None)"

fun clean_parts :: "json list \<Rightarrow> error + json list" where
  "clean_parts [] = Inr []"
| "clean_parts (item # items) =
     (case clean_part item of
        Inl e \<Rightarrow> Inl e
      | Inr r \<Rightarrow>
          (case clean_parts items of
             Inl e \<Rightarrow> Inl e
           | Inr cleaned \<Rightarrow> Inr ((case r of None \<Rightarrow> [] | Some p \<Rightarrow> [p]) @ cleaned)))"

fun has_part_number :: "json \<Rightarrow> bool" where
  "has_part_number (JDict d) = truthy (dict_get d ''part_number'')"
| "has_part_number _ = False"

definition normalize_parts_store :: "json \<Rightarrow> error + json" where
  "normalize_parts_store store0 =
     (let store = (case store0 of JList xs \<Rightarrow> JDict [(''parts'', store0)] | _ \<Rightarrow> store0)
      in case store of
           JDict d0 \<Rightarrow>
             (let d = (if \<not> has_key d0 ''parts'' \<and> is_list (dict_get d0 ''data'')
                       then [(''parts'', dict_get d0 ''data'')] else d0);
                  parts = (case dict_get d ''parts'' of JList xs \<Rightarrow> xs | _ \<Rightarrow> [])
              in case clean_parts parts of
                   Inl e \<Rightarrow> Inl e
                 | Inr cleaned \<Rightarrow> Inr (JDict [(''parts'', JList (filter has_part_number cleaned))]))
         | _ \<Rightarrow> Inr (JDict [(''parts'', JList [])]))"

text \<open>
  The user map has no function of its own: wherever it is loaded (\<open>get_users_map\<close> in
  action\_store.py, \<open>refresh_users\<close> and \<open>create_user\<close> in ui\_admin.py) the decoded value
  goes through \<open>load_json(USERS_FILE, {}) or {}\<close>.
\<close>

definition normalize_users :: "json \<Rightarrow> json" where
  "normalize_users store = or_else store (JDict [])"

section \<open>Clock and timestamps\<close>

text \<open>
  A reading of \<open>datetime.now()\<close>, and the \<open>strftime\<close> formats the application uses.
  Every field is printed in a fixed number of decimal digits, zero-padded.
\<close>

record datetime =
  year :: nat
  month :: nat
  day :: nat
  hour :: nat
  minute :: nat
  second :: nat

definition digit_char :: "nat \<Rightarrow> char" where
  "digit_char d = char_of (48 + d)"

definition two_digits :: "nat \<Rightarrow> string" where
  "two_digits n = [digit_char (n div 10 mod 10), digit_char (n mod 10)]"

definition four_digits :: "nat \<Rightarrow> string" where
  "four_digits n = [digit_char (n div 1000 mod 10), digit_char (n div 100 mod 10),
                    digit_char (n div 10 mod 10), digit_char (n mod 10)]"

text \<open>\<open>"%Y-%m-%d"\<close>, \<open>"%H:%M:%S"\<close>, \<open>"%Y-%m-%d %H:%M:%S"\<close>, \<open>"%Y%m%d-%H%M%S"\<close> and
  \<open>"%Y%m%d_%H%M%S"\<close>.\<close>

definition strftime_date :: "datetime \<Rightarrow> string" where
  "strftime_date t = four_digits (year t) @ ''-'' @ two_digits (month t) @ ''-'' @ two_digits (day t)"

definition strftime_time :: "datetime \<Rightarrow> string" where
  "strftime_time t = two_digits (hour t) @ '':'' @ two_digits (minute t) @ '':'' @ two_digits (second t)"

definition strftime_iso :: "datetime \<Rightarrow> string" where
  "strftime_iso t = strftime_date t @ '' '' @ strftime_time t"

definition strftime_id :: "datetime \<Rightarrow> string" where
  "strftime_id t = four_digits (year t) @ two_digits (month t) @ two_digits (day t) @ ''-''
                   @ two_digits (hour t) @ two_digits (minute t) @ two_digits (second t)"

definition strftime_rescue :: "datetime \<Rightarrow> string" where
  "strftime_rescue t = four_digits (year t) @ two_digits (month t) @ two_digits (day t) @ ''_''
                       @ two_digits (hour t) @ two_digits (minute t) @ two_digits (second t)"

section \<open>The world outside the process\<close>

text \<open>
  A cell of a table is a string, an integer, a float or the missing value NaN.  A table
  has its column labels in order and its rows in order, each row giving a cell for its
  columns.  A file of the data directory either holds a table or bytes that do not parse
  as a workbook; a file that holds a table holds the one \<open>to_excel\<close> was given.  The three
  JSON files are \<open>None\<close> while they are missing or do not decode.  The constants of
  config.py, which is not among the sources, the clock and the printing of a float are
  parameters.  So are two facts of the pandas that runs the program: \<open>excel_column\<close>, the
  cells \<open>pd.read_excel\<close> gives back for the cells that were written in one column (a blank
  comes back as NaN, numeric-looking text as numbers), and \<open>strict_setitem\<close>, whether an
  assignment of text into a column of numeric dtype raises (pandas 3) or widens the column
  (pandas 2).
\<close>

datatype cell = CStr string | CInt int | CFloat real | CNaN

record dataframe =
  columns :: "string list"
  rows :: "(string \<rightharpoonup> cell) list"

datatype disk_file = Workbook dataframe | Unreadable string

record world =
  clock_reads :: nat
  workbooks :: "string \<rightharpoonup> disk_file"
  actions_file :: "json option"
  ncrs_file :: "json option"
  tool_config_file :: "json option"

record env =
  clock :: "nat \<Rightarrow> datetime"
  DATA_DIR :: string
  month_excel_path :: "datetime \<Rightarrow> string"
  float_str :: "real \<Rightarrow> string"
  float_of_str :: "string \<Rightarrow> real option"
  excel_column :: "cell list \<Rightarrow> cell list"
  strict_setitem :: bool

text \<open>\<open>datetime.now()\<close>: the next reading of the clock.\<close>

definition now :: "env \<Rightarrow> world \<Rightarrow> datetime \<times> world" where
  "now E w = (clock E (clock_reads w), w\<lparr>clock_reads := Suc (clock_reads w)\<rparr>)"

text \<open>\<open>load_json\<close> (storage.py) never raises: whatever goes wrong gives the default.\<close>

definition load_json :: "json option \<Rightarrow> json \<Rightarrow> json" where
  "load_json f dflt = (case f of None \<Rightarrow> dflt | Some j \<Rightarrow> j)"

section \<open>Action and NCR ledger (action\_store.py)\<close>

definition now_iso :: "datetime \<Rightarrow> string" where
  "now_iso t = strftime_iso t"

definition new_id :: "string \<Rightarrow> datetime \<Rightarrow> string" where
  "new_id prefix t = prefix @ ''-'' @ strftime_id t"

fun list_items :: "json \<Rightarrow> json list" where
  "list_items (JList xs) = xs"
| "list_items _ = []"

fun dict_items :: "json \<Rightarrow> (string \<times> json) list" where
  "dict_items (JDict d) = d"
| "dict_items _ = []"

definition ensure_actions_shape :: "json \<Rightarrow> (string \<times> json) list" where
  "ensure_actions_shape store =
     (let d0 = (case store of JDict d \<Rightarrow> d | _ \<Rightarrow> []);
          d1 = setdefault d0 ''version'' (JInt 1);
          d2 = setdefault d1 ''actions'' (JList [])
      in if \<not> is_list (dict_get d2 ''actions'') then AList.update ''actions'' (JList []) d2 else d2)"

definition ensure_ncrs_shape :: "json \<Rightarrow> (string \<times> json) list" where
  "ensure_ncrs_shape store =
     (let d0 = (case store of JDict d \<Rightarrow> d | _ \<Rightarrow> []);
          d1 = setdefault d0 ''version'' (JInt 1);
          d2 = setdefault d1 ''ncrs'' (JList [])
      in if \<not> is_list (dict_get d2 ''ncrs'') then AList.update ''ncrs'' (JList []) d2 else d2)"

definition load_actions_store :: "world \<Rightarrow> (string \<times> json) list" where
  "load_actions_store w =
     ensure_actions_shape (load_json (actions_file w) (JDict [(''version'', JInt 1), (''actions'', JList [])]))"

definition save_actions_store :: "(string \<times> json) list \<Rightarrow> world \<Rightarrow> world" where
  "save_actions_store store w = w\<lparr>actions_file := Some (JDict (ensure_actions_shape (JDict store)))\<rparr>"

definition load_ncrs_store :: "world \<Rightarrow> (string \<times> json) list" where
  "load_ncrs_store w =
     ensure_ncrs_shape (load_json (ncrs_file w) (JDict [(''version'', JInt 1), (''ncrs'', JList [])]))"

definition save_ncrs_store :: "(string \<times> json) list \<Rightarrow> world \<Rightarrow> world" where
  "save_ncrs_store store w = w\<lparr>ncrs_file := Some (JDict (ensure_ncrs_shape (JDict store)))\<rparr>"

text \<open>
  The search loop of \<open>upsert_action\<close> and \<open>upsert_ncr\<close>: the first stored entry whose
  identifier equals the record's is replaced by \<open>{**a, **record, "updated_at": stamp}\<close>
  and the loop stops.  \<open>Some\<close> list is the list after a replacement, \<open>None\<close> says that
  nothing matched; an entry that is not a dictionary has no \<open>.get\<close>.
\<close>

fun upsert_scan :: "string \<Rightarrow> (string \<times> json) list \<Rightarrow> json \<Rightarrow> json list \<Rightarrow> error + json list option" where
  "upsert_scan key new stamp [] = Inr None"
| "upsert_scan key new stamp (a # rest) =
     (case a of
        JDict d \<Rightarrow>
          (if py_eq (dict_get d key) (dict_get new key)
           then Inr (Some (JDict (AList.update ''updated_at'' stamp (dict_merge d new)) # rest))
           else (case upsert_scan key new stamp rest of
                   Inl e \<Rightarrow> Inl e
                 | Inr None \<Rightarrow> Inr None
                 | Inr (Some rest') \<Rightarrow> Inr (Some (a # rest'))))
      | _ \<Rightarrow> Inl AttributeError)"

text \<open>The first lines of \<open>upsert_action\<close>: an identifier when there is none, then the
  defaults.  \<open>now_iso()\<close> is evaluated whether or not \<open>created_at\<close> is already there.\<close>

definition action_defaults :: "env \<Rightarrow> (string \<times> json) list \<Rightarrow> world \<Rightarrow> (string \<times> json) list \<times> world" where
  "action_defaults E action w0 =
     (let (a1, w1) = (if \<not> truthy (dict_get action ''action_id'')
                      then (let (t, w) = now E w0
                            in (AList.update ''action_id'' (JStr (new_id ''A'' t)) action, w))
                      else (action, w0));
          a2 = setdefault a1 ''type'' (JStr ''Action'');
          a3 = setdefault a2 ''severity'' (JStr ''Medium'');
          a4 = setdefault a3 ''status'' (JStr ''Open'');
          (t, w2) = now E w1;
          a5 = setdefault a4 ''created_at'' (JStr (now_iso t));
          a6 = setdefault a5 ''notes'' (JStr [])
      in (setdefault a6 ''related'' (JDict []), w2))"

definition upsert_action :: "env \<Rightarrow> (string \<times> json) list \<Rightarrow> world \<Rightarrow> (error + (string \<times> json) list) \<times> world" where
  "upsert_action E action0 w0 =
     (let store = load_actions_store w0;
          actions = list_items (dict_get store ''actions'');
          (action, w1) = action_defaults E action0 w0;
          (t, w2) = now E w1;
          stamp = JStr (now_iso t)
      in case upsert_scan ''action_id'' action stamp actions of
           Inl e \<Rightarrow> (Inl e, w1)
         | Inr (Some actions') \<Rightarrow>
             (Inr action, save_actions_store (AList.update ''actions'' (JList actions') store) w2)
         | Inr None \<Rightarrow>
             (let action' = AList.update ''updated_at'' stamp action
              in (Inr action',
                  save_actions_store (AList.update ''actions'' (JList (actions @ [JDict action'])) store) w2)))"

definition ncr_defaults :: "env \<Rightarrow> (string \<times> json) list \<Rightarrow> world \<Rightarrow> (string \<times> json) list \<times> world" where
  "ncr_defaults E ncr w0 =
     (let (n1, w1) = (if \<not> truthy (dict_get ncr ''ncr_id'')
                      then (let (t, w) = now E w0
                            in (AList.update ''ncr_id'' (JStr (new_id ''NCR'' t)) ncr, w))
                      else (ncr, w0));
          n2 = setdefault n1 ''status'' (JStr ''Open'');
          (t, w2) = now E w1
      in (setdefault n2 ''created_at'' (JStr (now_iso t)), w2))"

definition upsert_ncr :: "env \<Rightarrow> (string \<times> json) list \<Rightarrow> world \<Rightarrow> (error + (string \<times> json) list) \<times> world" where
  "upsert_ncr E ncr0 w0 =
     (let store = load_ncrs_store w0;
          ncrs = list_items (dict_get store ''ncrs'');
          (ncr, w1) = ncr_defaults E ncr0 w0;
          (t, w2) = now E w1;
          stamp = JStr (now_iso t)
      in case upsert_scan ''ncr_id'' ncr stamp ncrs of
           Inl e \<Rightarrow> (Inl e, w1)
         | Inr (Some ncrs') \<Rightarrow>
             (Inr ncr, save_ncrs_store (AList.update ''ncrs'' (JList ncrs') store) w2)
         | Inr None \<Rightarrow>
             (let ncr' = AList.update ''updated_at'' stamp ncr
              in (Inr ncr',
                  save_ncrs_store (AList.update ''ncrs'' (JList (ncrs @ [JDict ncr'])) store) w2)))"

text \<open>
  \<open>create_ncr_and_action\<close>.  Its arguments are keyword-only strings; \<open>title\<close>,
  \<open>description\<close>, \<open>severity\<close>, \<open>owner\<close> and \<open>created_by\<close> are required, the others
  default to the empty string.  The result \<open>{"ncr": ncr, "action": action}\<close> is the pair.
  The identifier printed into a missing title is the string \<open>upsert_ncr\<close> has just
  generated.
\<close>

record ticket_request =
  title :: string
  description :: string
  severity :: string
  owner :: string
  created_by :: string
  line :: string
  part_number :: string
  due_date :: string
  related_entry_id :: string

fun str_of :: "json \<Rightarrow> string" where
  "str_of (JStr s) = s"
| "str_of _ = []"

definition create_ncr_and_action ::
    "env \<Rightarrow> ticket_request \<Rightarrow> world \<Rightarrow> (error + (string \<times> json) list \<times> (string \<times> json) list) \<times> world" where
  "create_ncr_and_action E q w0 =
     (case upsert_ncr E
             [(''status'', JStr ''Open''), (''part_number'', JStr (part_number q)),
              (''line'', JStr (line q)), (''owner'', JStr (owner q)),
              (''description'', JStr (description q)), (''created_by'', JStr (created_by q)),
              (''related_entry_id'', JStr (related_entry_id q))] w0 of
        (Inl e, w1) \<Rightarrow> (Inl e, w1)
      | (Inr ncr, w1) \<Rightarrow>
          (case upsert_action E
                  [(''type'', JStr ''NCR''),
                   (''title'', or_else (JStr (title q)) (JStr (''NCR '' @ str_of (dict_get ncr ''ncr_id'')))),
                   (''severity'', JStr (severity q)), (''status'', JStr ''Open''),
                   (''owner'', JStr (owner q)), (''created_by'', JStr (created_by q)),
                   (''due_date'', JStr (due_date q)), (''line'', JStr (line q)),
                   (''part_number'', JStr (part_number q)),
                   (''related'', JDict [(''ncr_id'', dict_get ncr ''ncr_id''),
                                       (''entry_id'', JStr (related_entry_id q))]),
                   (''notes'', JStr (description q))] w1 of
             (Inl e, w2) \<Rightarrow> (Inl e, w2)
           | (Inr action, w2) \<Rightarrow>
               (case upsert_ncr E (AList.update ''action_id'' (dict_get action ''action_id'') ncr) w2 of
                  (Inl e, w3) \<Rightarrow> (Inl e, w3)
                | (Inr ncr', w3) \<Rightarrow> (Inr (ncr', action), w3))))"

section \<open>Monthly record tables (storage.py)\<close>

text \<open>
  Modelled from the spec: \<open>COLUMNS\<close> is defined in config.py, which is not among the
  sources.  The spec fixes the canonical order (identity, date and time, shift, line,
  machine, part number, tool number, reason, downtime, cost, submitting user, defect
  fields, quality sub-record, leader sub-record, serials); the names are those of the row
  that \<open>ToolChangerUI.submit\<close> builds, which lists them in that order.
\<close>

definition COLUMNS :: "string list" where
  "COLUMNS = [''ID'', ''Date'', ''Time'', ''Shift'', ''Line'', ''Machine'', ''Part_Number'',
     ''Tool_Num'', ''Reason'', ''Downtime_Mins'', ''Cost'', ''Tool_Changer'',
     ''Defects_Present'', ''Defect_Qty'', ''Sort_Done'', ''Defect_Reason'',
     ''Quality_Verified'', ''Quality_User'', ''Quality_Time'',
     ''Leader_Sign'', ''Leader_User'', ''Leader_Time'', ''Serial_Numbers'']"

subsection \<open>Tables\<close>

text \<open>
  \<open>pd.DataFrame(columns=cols)\<close>; \<open>df[col] = v\<close> for a column that is not there yet;
  \<open>df[cols]\<close>, where every label asked for is present whenever \<open>ensure_df_schema\<close> asks.
\<close>

definition empty_frame :: "string list \<Rightarrow> dataframe" where
  "empty_frame cols = \<lparr>columns = cols, rows = []\<rparr>"

definition add_column :: "string \<Rightarrow> cell \<Rightarrow> dataframe \<Rightarrow> dataframe" where
  "add_column col v df = \<lparr>columns = columns df @ [col], rows = map (\<lambda>r. r(col \<mapsto> v)) (rows df)\<rparr>"

definition select_columns :: "string list \<Rightarrow> dataframe \<Rightarrow> dataframe" where
  "select_columns cols df = \<lparr>columns = cols, rows = map (\<lambda>r. r |` set cols) (rows df)\<rparr>"

definition ensure_df_schema :: "dataframe \<Rightarrow> dataframe" where
  "ensure_df_schema df0 =
     (let df = fold (\<lambda>col d. if col \<notin> set (columns d) then add_column col (CStr []) d else d)
                 COLUMNS df0;
          extras = filter (\<lambda>c. c \<notin> set COLUMNS) (columns df)
      in select_columns (COLUMNS @ extras) df)"

text \<open>The cell of a row under a label; a hole reads as NaN.\<close>

definition cell_at :: "(string \<rightharpoonup> cell) \<Rightarrow> string \<Rightarrow> cell" where
  "cell_at r c = (case r c of None \<Rightarrow> CNaN | Some v \<Rightarrow> v)"

text \<open>
  \<open>pd.concat([df, pd.DataFrame([new_row])], ignore_index=True)\<close>: the labels of \<open>df\<close>, then
  the new ones; every row gets NaN where it has no value.
\<close>

definition reindex :: "string list \<Rightarrow> (string \<rightharpoonup> cell) \<Rightarrow> (string \<rightharpoonup> cell)" where
  "reindex cols r = (\<lambda>c. if c \<in> set cols then Some (cell_at r c) else None)"

definition concat_row :: "dataframe \<Rightarrow> (string \<times> cell) list \<Rightarrow> dataframe" where
  "concat_row df new_row =
     (let cols = columns df @ filter (\<lambda>c. c \<notin> set (columns df)) (map fst new_row)
      in \<lparr>columns = cols, rows = map (reindex cols) (rows df @ [map_of new_row])\<rparr>)"

text \<open>
  \<open>df.loc[idx, col] = v\<close> for a label that is present: the rows at the positions \<open>idx\<close>
  get the value.  A column with no text in it has a numeric dtype (a column of blanks
  read back from a workbook is all NaN, float64); where the assignment is strict, a text
  assigned into such a column raises \<open>TypeError\<close>.
\<close>

fun is_text :: "cell \<Rightarrow> bool" where
  "is_text (CStr s) = True"
| "is_text _ = False"

definition numeric_column :: "dataframe \<Rightarrow> string \<Rightarrow> bool" where
  "numeric_column df col = list_all (\<lambda>r. \<not> is_text (cell_at r col)) (rows df)"

definition loc_assign :: "env \<Rightarrow> nat list \<Rightarrow> string \<Rightarrow> cell \<Rightarrow> dataframe \<Rightarrow> error + dataframe" where
  "loc_assign E idx col v df =
     (if strict_setitem E \<and> idx \<noteq> [] \<and> is_text v \<and> numeric_column df col then Inl TypeError
      else Inr (df\<lparr>rows := map (\<lambda>i. if i \<in> set idx then (rows df ! i)(col \<mapsto> v) else rows df ! i)
                              [0..<length (rows df)]\<rparr>))"

subsection \<open>Printing and reading numbers\<close>

function str_nat :: "nat \<Rightarrow> string" where
  "str_nat n = (if n < 10 then [digit_char n] else str_nat (n div 10) @ [digit_char (n mod 10)])"
  by pat_completeness auto
termination
  by (relation "measure id") auto

definition str_int :: "int \<Rightarrow> string" where
  "str_int i = (if i < 0 then CHR ''-'' # str_nat (nat (- i)) else str_nat (nat i))"

text \<open>\<open>str(x)\<close> of a cell, which is also what \<open>astype(str)\<close> gives.\<close>

definition cell_str :: "env \<Rightarrow> cell \<Rightarrow> string" where
  "cell_str E c = (case c of CStr s \<Rightarrow> s | CInt i \<Rightarrow> str_int i | CFloat r \<Rightarrow> float_str E r
                   | CNaN \<Rightarrow> ''nan'')"

fun cell_truthy :: "cell \<Rightarrow> bool" where
  "cell_truthy (CStr s) = (s \<noteq> [])"
| "cell_truthy (CInt i) = (i \<noteq> 0)"
| "cell_truthy (CFloat r) = (r \<noteq> 0)"
| "cell_truthy CNaN = True"

text \<open>
  \<open>safe_float\<close> and \<open>safe_int\<close>: the default for \<open>None\<close>, for a blank text and wherever
  \<open>float(s)\<close> raises, which it does on the text of a boolean, a list or a dictionary.
  \<open>int(x)\<close> truncates towards zero.
\<close>

fun number_text :: "env \<Rightarrow> json \<Rightarrow> string option" where
  "number_text E (JStr s) = Some s"
| "number_text E (JInt i) = Some (str_int i)"
| "number_text E (JFloat r) = Some (float_str E r)"
| "number_text E _ = None"

definition safe_float :: "env \<Rightarrow> json \<Rightarrow> real \<Rightarrow> real" where
  "safe_float E val dflt =
     (case number_text E val of
        None \<Rightarrow> dflt
      | Some s \<Rightarrow> if strip s = [] then dflt
                  else (case float_of_str E (strip s) of None \<Rightarrow> dflt | Some r \<Rightarrow> r))"

definition safe_int :: "env \<Rightarrow> json \<Rightarrow> int \<Rightarrow> int" where
  "safe_int E val dflt =
     (case number_text E val of
        None \<Rightarrow> dflt
      | Some s \<Rightarrow> if strip s = [] then dflt
                  else (case float_of_str E (strip s) of
                          None \<Rightarrow> dflt
                        | Some r \<Rightarrow> if 0 \<le> r then \<lfloor>r\<rfloor> else \<lceil>r\<rceil>))"

subsection \<open>Paths\<close>

text \<open>\<open>os.path.join\<close>, \<open>os.path.basename\<close> and \<open>os.path.splitext\<close>, with \<open>/\<close> as the
  separator.\<close>

definition path_join :: "string \<Rightarrow> string \<Rightarrow> string" where
  "path_join a b =
     (if b \<noteq> [] \<and> hd b = CHR ''/'' then b
      else if a = [] \<or> last a = CHR ''/'' then a @ b
      else a @ ''/'' @ b)"

definition basename :: "string \<Rightarrow> string" where
  "basename p = rev (takeWhile (\<lambda>c. c \<noteq> CHR ''/'') (rev p))"

definition splitext :: "string \<Rightarrow> string \<times> string" where
  "splitext p =
     (let name = basename p;
          after = takeWhile (\<lambda>c. c \<noteq> CHR ''.'') (rev name);
          before = drop (Suc (length after)) (rev name)
      in if length after < length name \<and> list_ex (\<lambda>c. c \<noteq> CHR ''.'') before
         then (take (length p - Suc (length after)) p, drop (length p - Suc (length after)) p)
         else (p, []))"

subsection \<open>Files\<close>

text \<open>
  \<open>pd.read_excel\<close>: the table read back from a workbook has the labels and the number of
  rows that were written, and each column as \<open>excel_column\<close> reads it.
\<close>

definition column_cells :: "string \<Rightarrow> dataframe \<Rightarrow> cell list" where
  "column_cells c df = map (\<lambda>r. cell_at r c) (rows df)"

definition excel_read :: "env \<Rightarrow> dataframe \<Rightarrow> dataframe" where
  "excel_read E df =
     \<lparr>columns = columns df,
      rows = map (\<lambda>i c. if c \<in> set (columns df)
                         then (let ys = excel_column E (column_cells c df)
                               in Some (if i < length ys then ys ! i else CNaN))
                         else None)
                 [0..<length (rows df)]\<rparr>"

definition read_excel :: "env \<Rightarrow> string \<Rightarrow> world \<Rightarrow> error + dataframe" where
  "read_excel E path w =
     (case workbooks w path of
        None \<Rightarrow> Inl FileNotFoundError
      | Some (Unreadable bytes) \<Rightarrow> Inl ParseError
      | Some (Workbook df) \<Rightarrow> Inr (excel_read E df))"

definition to_excel :: "string \<Rightarrow> dataframe \<Rightarrow> world \<Rightarrow> world" where
  "to_excel path df w = w\<lparr>workbooks := (workbooks w)(path \<mapsto> Workbook df)\<rparr>"

text \<open>\<open>ensure_excel_file\<close>: a missing file is created empty; a file that reads is rewritten
  with the schema; for any other file a rescue file is written beside it.\<close>

definition ensure_excel_file :: "env \<Rightarrow> string \<Rightarrow> world \<Rightarrow> world" where
  "ensure_excel_file E path w =
     (if workbooks w path = None then to_excel path (empty_frame COLUMNS) w
      else (case read_excel E path w of
              Inr df \<Rightarrow> to_excel path (ensure_df_schema df) w
            | Inl e \<Rightarrow>
                (let (base, ext) = splitext path;
                     (t, w1) = now E w;
                     rescue = base @ ''_RESCUE_'' @ strftime_rescue t @ ext
                 in to_excel rescue (empty_frame COLUMNS) w1)))"

definition resolve_month_path :: "env \<Rightarrow> string option \<Rightarrow> world \<Rightarrow> string \<times> world" where
  "resolve_month_path E filename w =
     (case filename of
        Some f \<Rightarrow> if f \<noteq> [] then (path_join (DATA_DIR E) f, w)
                  else (let (t, w1) = now E w in (month_excel_path E t, w1))
      | None \<Rightarrow> (let (t, w1) = now E w in (month_excel_path E t, w1)))"

definition get_df :: "env \<Rightarrow> string option \<Rightarrow> world \<Rightarrow> (error + dataframe \<times> string) \<times> world" where
  "get_df E filename w =
     (let (path, w1) = resolve_month_path E filename w;
          w2 = ensure_excel_file E path w1
      in case read_excel E path w2 of
           Inl e \<Rightarrow> (Inl e, w2)
         | Inr df \<Rightarrow> (Inr (ensure_df_schema df, basename path), w2))"

definition save_df :: "env \<Rightarrow> dataframe \<Rightarrow> string \<Rightarrow> world \<Rightarrow> world" where
  "save_df E df filename w =
     (let (path, w1) = resolve_month_path E (Some filename) w
      in to_excel path (ensure_df_schema df) w1)"

definition next_id :: "datetime \<Rightarrow> dataframe \<Rightarrow> string" where
  "next_id t df = strftime_id t @ ''-'' @ four_digits (length (rows df) mod 10000)"

section \<open>Workflows on the monthly table\<close>

text \<open>
  What a handler of the user interface ends with: a warning and nothing done, the
  operator's "no" to a question, "not found", an exception that leaves the handler, or
  completion.  The widgets themselves are not modelled, only what the handlers read from
  them and what they do to the files.
\<close>

datatype outcome = Warned | Declined | NotFound | Raised error | Completed

subsection \<open>Entry (ui\_toolchanger.py)\<close>

text \<open>The fields of the entry form, named after the widgets that \<open>submit\<close> reads.\<close>

record entry_form =
  mach_cb :: string
  tool_cb :: string
  reason_cb :: string
  down_entry :: string
  shift_cb :: string
  line_cb :: string
  part_cb :: string
  defect_var :: bool
  qty_entry :: string
  sort_var :: bool
  defect_reason :: string

fun is_substring :: "string \<Rightarrow> string \<Rightarrow> bool" where
  "is_substring p [] = (p = [])"
| "is_substring p (c # cs) = (take (length p) (c # cs) = p \<or> is_substring p cs)"

text \<open>
  The stock bookkeeping of \<open>submit\<close>.  \<open>tool_key in cfg\<close> is a key test on a dictionary,
  a membership test on a list, a substring test on a string and a \<open>TypeError\<close> on
  anything else; \<open>cfg[tool_key]\<close> needs a dictionary, and \<open>.get\<close> a dictionary entry.
  The result is the cost and the configuration file after the step, or how the handler
  ends instead.  \<open>ask\<close> is the operator's answer to "Submit anyway?".
\<close>

definition take_from_stock :: "env \<Rightarrow> string \<Rightarrow> bool \<Rightarrow> world \<Rightarrow> outcome + real \<times> world" where
  "take_from_stock E tool_key ask w =
     (case load_json (tool_config_file w) (JDict []) of
        JDict cfg \<Rightarrow>
          (if has_key cfg tool_key then
             (case dict_get cfg tool_key of
                JDict entry \<Rightarrow>
                  (let cost = safe_float E (if has_key entry ''cost'' then dict_get entry ''cost'' else JInt 0) 0;
                       stock = safe_int E (if has_key entry ''stock'' then dict_get entry ''stock'' else JInt 0) 0
                   in if stock \<le> 0 then (if \<not> ask then Inl Declined else Inr (cost, w))
                      else Inr (cost, w\<lparr>tool_config_file := Some (JDict (AList.update tool_key
                             (JDict (AList.update ''stock'' (JInt (stock - 1)) entry)) cfg))\<rparr>))
              | _ \<Rightarrow> Inl (Raised AttributeError))
           else Inr (0, w))
      | JList xs \<Rightarrow> if list_ex (\<lambda>x. py_eq x (JStr tool_key)) xs then Inl (Raised TypeError) else Inr (0, w)
      | JStr s \<Rightarrow> if is_substring tool_key s then Inl (Raised TypeError) else Inr (0, w)
      | _ \<Rightarrow> Inl (Raised TypeError))"

text \<open>The row \<open>submit\<close> builds; \<open>now\<close> is read first, then \<open>next_id\<close> reads the clock
  again.\<close>

definition new_row :: "env \<Rightarrow> string \<Rightarrow> entry_form \<Rightarrow> real \<Rightarrow> datetime \<Rightarrow> datetime \<Rightarrow> dataframe
    \<Rightarrow> (string \<times> cell) list" where
  "new_row E user f cost t t_id df =
     [(''ID'', CStr (next_id t_id df)),
      (''Date'', CStr (strftime_date t)),
      (''Time'', CStr (strftime_time t)),
      (''Shift'', CStr (shift_cb f)),
      (''Line'', CStr (line_cb f)),
      (''Machine'', CStr (mach_cb f)),
      (''Part_Number'', CStr (part_cb f)),
      (''Tool_Num'', CStr (tool_cb f)),
      (''Reason'', CStr (reason_cb f)),
      (''Downtime_Mins'', CInt (safe_int E (JStr (down_entry f)) 0)),
      (''Cost'', CFloat cost),
      (''Tool_Changer'', CStr user),
      (''Defects_Present'', CStr (if defect_var f then ''Yes'' else ''No'')),
      (''Defect_Qty'', CInt (safe_int E (JStr (qty_entry f)) 0)),
      (''Sort_Done'', CStr (if sort_var f then ''Yes'' else ''No'')),
      (''Defect_Reason'', CStr (if defect_var f then strip (defect_reason f) else [])),
      (''Quality_Verified'', CStr ''Pending''),
      (''Quality_User'', CStr []),
      (''Quality_Time'', CStr []),
      (''Leader_Sign'', CStr ''Pending''),
      (''Leader_User'', CStr []),
      (''Leader_Time'', CStr []),
      (''Serial_Numbers'', CStr [])]"

definition submit :: "env \<Rightarrow> string \<Rightarrow> entry_form \<Rightarrow> bool \<Rightarrow> world \<Rightarrow> outcome \<times> world" where
  "submit E user f ask w =
     (if mach_cb f = [] \<or> tool_cb f = [] \<or> reason_cb f = [] then (Warned, w)
      else case take_from_stock E (''Tool '' @ tool_cb f) ask w of
             Inl out \<Rightarrow> (out, w)
           | Inr (cost, w1) \<Rightarrow>
               (case get_df E None w1 of
                  (Inl e, w2) \<Rightarrow> (Raised e, w2)
                | (Inr (df, filename), w2) \<Rightarrow>
                    (let (t, w3) = now E w2;
                         (t_id, w4) = now E w3;
                         df' = concat_row df (new_row E user f cost t t_id df)
                     in (Completed, save_df E df' filename w4))))"

subsection \<open>Quality verification and leader sign-off (ui\_quality.py, ui\_leader.py)\<close>

text \<open>
  \<open>df.index[df["ID"].astype(str) == str(sel_id)]\<close>: the positions of the rows whose
  identifier prints like the selected one.  The selection is \<open>None\<close> or a value of the
  table widget.
\<close>

definition matching_rows :: "env \<Rightarrow> dataframe \<Rightarrow> cell \<Rightarrow> nat list" where
  "matching_rows E df sel =
     filter (\<lambda>i. cell_str E (cell_at (rows df ! i) ''ID'') = cell_str E sel) [0..<length (rows df)]"

text \<open>\<open>load_pending\<close>, for what it does to the files: it loads the table again.\<close>

definition load_pending :: "env \<Rightarrow> string option \<Rightarrow> world \<Rightarrow> outcome \<times> world" where
  "load_pending E filename w =
     (case get_df E filename w of
        (Inl e, w1) \<Rightarrow> (Raised e, w1)
      | (Inr r, w1) \<Rightarrow> (Completed, w1))"

text \<open>The common shape of \<open>verify_selected\<close> and \<open>sign_selected\<close>, for the three columns
  of one approval sub-record.  Neither handler looks at \<open>controller.user\<close> before it is
  written, and neither catches what an assignment raises.\<close>

definition stamp_selected ::
    "string \<Rightarrow> string \<Rightarrow> string \<Rightarrow> env \<Rightarrow> string \<Rightarrow> cell option \<Rightarrow> string option \<Rightarrow> world
      \<Rightarrow> outcome \<times> world" where
  "stamp_selected flag_col user_col time_col E user sel_id filename0 w =
     (case sel_id of
        None \<Rightarrow> (Warned, w)
      | Some sel \<Rightarrow>
          if \<not> cell_truthy sel then (Warned, w)
          else (case get_df E filename0 w of
                  (Inl e, w1) \<Rightarrow> (Raised e, w1)
                | (Inr (df, filename), w1) \<Rightarrow>
                    (let idx = matching_rows E df sel
                     in if idx = [] then (NotFound, w1)
                        else (let (t, w2) = now E w1
                              in case loc_assign E idx flag_col (CStr ''Yes'') df of
                                   Inl e \<Rightarrow> (Raised e, w2)
                                 | Inr df1 \<Rightarrow>
                              (case loc_assign E idx user_col (CStr user) df1 of
                                   Inl e \<Rightarrow> (Raised e, w2)
                                 | Inr df2 \<Rightarrow>
                              (case loc_assign E idx time_col (CStr (strftime_iso t)) df2 of
                                   Inl e \<Rightarrow> (Raised e, w2)
                                 | Inr df3 \<Rightarrow>
                                     load_pending E (Some filename)
                                       (save_df E df3 filename w2)))))))"

definition verify_selected :: "env \<Rightarrow> string \<Rightarrow> cell option \<Rightarrow> string option \<Rightarrow> world \<Rightarrow> outcome \<times> world" where
  "verify_selected = stamp_selected ''Quality_Verified'' ''Quality_User'' ''Quality_Time''"

definition sign_selected :: "env \<Rightarrow> string \<Rightarrow> cell option \<Rightarrow> string option \<Rightarrow> world \<Rightarrow> outcome \<times> world" where
  "sign_selected = stamp_selected ''Leader_Sign'' ''Leader_User'' ''Leader_Time''"

text \<open>Auxiliary notions for the statements below.\<close>

definition canon_part :: "json \<Rightarrow> bool" where
  "canon_part p = (\<exists>pn nm lns. p = JDict [(''part_number'', JStr pn), (''name'', JStr nm),
     (''lines'', JList lns)] \<and> strip pn = pn \<and> strip nm = nm)"

fun is_number :: "json \<Rightarrow> bool" where
  "is_number (JInt i) = True"
| "is_number (JFloat r) = True"
| "is_number _ = False"

definition stored_actions :: "world \<Rightarrow> json list" where
  "stored_actions w = list_items (dict_get (load_actions_store w) ''actions'')"

definition stored_ncrs :: "world \<Rightarrow> json list" where
  "stored_ncrs w = list_items (dict_get (load_ncrs_store w) ''ncrs'')"

definition default_keys :: "string set" where
  "default_keys = {''type'', ''severity'', ''status'', ''created_at'', ''notes'', ''related''}"

definition action_id_of :: "json \<Rightarrow> json" where
  "action_id_of x = dict_get (dict_items x) ''action_id''"

definition ex_env :: env where
  "ex_env = \<lparr>clock = (\<lambda>n. \<lparr>year = 2026, month = 1, day = 15, hour = 8, minute = 30, second = n\<rparr>),
         DATA_DIR = ''data'', month_excel_path = (\<lambda>t. ''data/tool_life_data_2026_01.xlsx''),
         float_str = (\<lambda>r. ''0.0''), float_of_str = (\<lambda>s. None),
         excel_column = map (\<lambda>c. if c = CStr [] then CNaN else c), strict_setitem = True\<rparr>"

definition ex_ledger :: "json list \<Rightarrow> world" where
  "ex_ledger xs = \<lparr>clock_reads = 0, workbooks = Map.empty,
         actions_file = Some (JDict [(''version'', JInt 1), (''actions'', JList xs)]),
         ncrs_file = None, tool_config_file = None\<rparr>"

definition ex_request :: "string \<Rightarrow> ticket_request" where
  "ex_request sev = \<lparr>title = ''Bad weld'', description = ''porosity'', severity = sev,
      owner = ''kim'', created_by = ''lee'', line = ''U725'', part_number = ''PN1'',
      due_date = [], related_entry_id = []\<rparr>"

definition add_missing :: "string list \<Rightarrow> dataframe \<Rightarrow> dataframe" where
  "add_missing cs df = fold (\<lambda>col d. if col \<notin> set (columns d) then add_column col (CStr []) d else d) cs df"

definition canonical_frame :: "dataframe \<Rightarrow> bool" where
  "canonical_frame df =
     (set COLUMNS \<subseteq> set (columns df)
      \<and> columns df = COLUMNS @ filter (\<lambda>c. c \<notin> set COLUMNS) (columns df)
      \<and> list_all (\<lambda>r. dom r \<subseteq> set (columns df)) (rows df))"

definition table_on_disk :: "env \<Rightarrow> world \<Rightarrow> string \<Rightarrow> dataframe" where
  "table_on_disk E w path =
     (case workbooks w path of Some (Workbook d) \<Rightarrow> excel_read E d | _ \<Rightarrow> empty_frame [])"

definition reader_ok :: "env \<Rightarrow> bool" where
  "reader_ok E =
     ((\<forall>xs. length (excel_column E xs) = length xs)
      \<and> (\<forall>xs. excel_column E (excel_column E xs) = excel_column E xs)
      \<and> (\<forall>n. excel_column E (replicate n (CStr [])) = replicate n CNaN))"

definition accepts_text :: "env \<Rightarrow> dataframe \<Rightarrow> string \<Rightarrow> bool" where
  "accepts_text E df col = (\<not> (strict_setitem E \<and> numeric_column df col))"

definition set_cells :: "nat list \<Rightarrow> string \<Rightarrow> cell \<Rightarrow> dataframe \<Rightarrow> dataframe" where
  "set_cells idx col v df =
     df\<lparr>rows := map (\<lambda>i. if i \<in> set idx then (rows df ! i)(col \<mapsto> v) else rows df ! i)
                    [0..<length (rows df)]\<rparr>"

definition ex_disk :: "(string \<times> disk_file) list \<Rightarrow> world" where
  "ex_disk fs = \<lparr>clock_reads = 0, workbooks = map_of fs, actions_file = None, ncrs_file = None,
      tool_config_file = None\<rparr>"

definition ex_legacy :: dataframe where
  "ex_legacy = \<lparr>columns = [''Note'', ''ID''],
                 rows = [[''Note'' \<mapsto> CStr ''first'', ''ID'' \<mapsto> CStr ''20260115-083000-0000'']]\<rparr>"

definition is_leap :: "nat \<Rightarrow> bool" where
  "is_leap y = (y mod 4 = 0 \<and> (y mod 100 \<noteq> 0 \<or> y mod 400 = 0))"

definition days_in_month :: "nat \<Rightarrow> nat \<Rightarrow> nat" where
  "days_in_month y m =
     (if m = 2 then (if is_leap y then 29 else 28)
      else if m = 4 \<or> m = 6 \<or> m = 9 \<or> m = 11 then 30 else 31)"

definition valid_datetime :: "datetime \<Rightarrow> bool" where
  "valid_datetime t =
     (1 \<le> year t \<and> year t \<le> 9999 \<and> 1 \<le> month t \<and> month t \<le> 12
      \<and> 1 \<le> day t \<and> day t \<le> days_in_month (year t) (month t)
      \<and> hour t < 24 \<and> minute t < 60 \<and> second t < 60)"

definition digit_value :: "char \<Rightarrow> nat option" where
  "digit_value c = (let n = of_char c :: nat in if 48 \<le> n \<and> n \<le> 57 then Some (n - 48) else None)"

fun parse_digits :: "nat \<Rightarrow> string \<Rightarrow> nat option" where
  "parse_digits acc [] = Some acc"
| "parse_digits acc (c # cs) =
     (case digit_value c of None \<Rightarrow> None | Some d \<Rightarrow> parse_digits (10 * acc + d) cs)"

definition parse_timestamp :: "string \<Rightarrow> datetime option" where
  "parse_timestamp s =
     (if length s = 19 \<and> s ! 4 = CHR ''-'' \<and> s ! 7 = CHR ''-'' \<and> s ! 10 = CHR '' ''
         \<and> s ! 13 = CHR '':'' \<and> s ! 16 = CHR '':''
      then (case (parse_digits 0 (take 4 s), parse_digits 0 (take 2 (drop 5 s)),
                  parse_digits 0 (take 2 (drop 8 s)), parse_digits 0 (take 2 (drop 11 s)),
                  parse_digits 0 (take 2 (drop 14 s)), parse_digits 0 (take 2 (drop 17 s))) of
              (Some y, Some mo, Some d, Some h, Some mi, Some se) \<Rightarrow>
                (let t = \<lparr>year = y, month = mo, day = d, hour = h, minute = mi, second = se\<rparr>
                 in if valid_datetime t then Some t else None)
            | _ \<Rightarrow> None)
      else None)"

definition ex_pending :: dataframe where
  "ex_pending = \<lparr>columns = [''ID'', ''Quality_Verified'', ''Quality_User'', ''Quality_Time'',
                             ''Leader_Sign'', ''Leader_User'', ''Leader_Time''],
      rows = [[''ID'' \<mapsto> CStr ''20260115-083000-0000'', ''Quality_Verified'' \<mapsto> CStr ''Pending'',
               ''Quality_User'' \<mapsto> CStr [], ''Quality_Time'' \<mapsto> CStr [],
               ''Leader_Sign'' \<mapsto> CStr ''Pending'', ''Leader_User'' \<mapsto> CStr [],
               ''Leader_Time'' \<mapsto> CStr []],
              [''ID'' \<mapsto> CStr ''20260115-083000-0000'', ''Quality_Verified'' \<mapsto> CStr ''Pending'',
               ''Quality_User'' \<mapsto> CStr [], ''Quality_Time'' \<mapsto> CStr [],
               ''Leader_Sign'' \<mapsto> CStr ''Pending'', ''Leader_User'' \<mapsto> CStr [],
               ''Leader_Time'' \<mapsto> CStr []],
              [''ID'' \<mapsto> CStr ''20260114-101500-0000'', ''Quality_Verified'' \<mapsto> CStr ''Yes'',
               ''Quality_User'' \<mapsto> CStr ''lee'', ''Quality_Time'' \<mapsto> CStr ''2026-01-14 10:20:00'',
               ''Leader_Sign'' \<mapsto> CStr ''Yes'', ''Leader_User'' \<mapsto> CStr ''ana'',
               ''Leader_Time'' \<mapsto> CStr ''2026-01-14 11:00:00'']]\<rparr>"

definition ex_month :: world where
  "ex_month = ex_disk [(''data/tool_life_data_2026_01.xlsx'', Workbook ex_pending)]"

definition ex_loaded :: dataframe where
  "ex_loaded = ensure_df_schema (excel_read ex_env (ensure_df_schema (excel_read ex_env ex_pending)))"

definition ex_form :: entry_form where
  "ex_form = \<lparr>mach_cb = ''M1'', tool_cb = ''7'', reason_cb = ''Worn'', down_entry = ''5'',
      shift_cb = ''1'', line_cb = ''U725'', part_cb = ''PN1'', defect_var = False,
      qty_entry = ''0'', sort_var = False, defect_reason = []\<rparr>"

section \<open>Properties of the normalizers\<close>

lemma is_space_simps [simp]:
  "is_space CHR '' ''" "\<not> is_space CHR ''P''" "\<not> is_space CHR ''N''" "\<not> is_space CHR ''1''"
  "\<not> is_space CHR ''2''" "\<not> is_space CHR ''A''" "\<not> is_space CHR ''B''"
  by (simp_all add: is_space_def)

text \<open>
  C9: the parts normalizer maps the legacy list \<open>["PN1", {"part_number": " PN2 ", "lines": "A, B"}]\<close>
  to exactly two objects: the bare string is promoted to an object with empty name and
  lines, the part number is stripped, and the comma-separated lines string is split into
  a list.
\<close>

theorem parts_example:
  "normalize_parts_store
     (JList [JStr ''PN1'',
             JDict [(''part_number'', JStr '' PN2 ''), (''lines'', JStr ''A, B'')]])
   = Inr (JDict [(''parts'', JList
       [JDict [(''part_number'', JStr ''PN1''), (''name'', JStr ''''), (''lines'', JList [])],
        JDict [(''part_number'', JStr ''PN2''), (''name'', JStr ''''),
               (''lines'', JList [JStr ''A'', JStr ''B''])]])])"
  by (simp add: normalize_parts_store_def clean_part_def part_lines_def has_key_def dict_get_def
      or_else_def strip_def lstrip_def rstrip_def)

lemma strip_idem: "strip (strip s) = strip s"
proof -
  let ?a = "lstrip s"
  have a: "?a = [] \<or> \<not> is_space (hd ?a)"
    unfolding lstrip_def by (metis hd_dropWhile)
  have r: "rstrip (rstrip ?a) = rstrip ?a"
    by (simp add: rstrip_def)
  have "lstrip (rstrip ?a) = rstrip ?a"
  proof (cases "rstrip ?a = []")
    case True then show ?thesis by (simp add: lstrip_def)
  next
    case False
    have pre: "\<exists>zs. ?a = rstrip ?a @ zs"
      unfolding rstrip_def
      by (metis rev_append rev_rev_ident takeWhile_dropWhile_id)
    then obtain zs where zs: "?a = rstrip ?a @ zs" by blast
    with False have "hd (rstrip ?a) = hd ?a" by (metis hd_append2)
    moreover from zs False have "?a \<noteq> []" by auto
    ultimately have "\<not> is_space (hd (rstrip ?a))" using a by auto
    with False show ?thesis unfolding lstrip_def by (cases "rstrip (dropWhile is_space s)") (auto simp: lstrip_def)
  qed
  then show ?thesis by (simp add: strip_def r)
qed

lemma strip_method_idem: "strip_method x = Inr p \<Longrightarrow> strip p = p"
  by (cases x) (auto simp: strip_idem)

lemma part_lines_is_list: "\<exists>lns. part_lines x = JList lns"
  by (cases x) (auto simp: part_lines_def or_else_def Let_def split: json.splits)

lemma part_lines_list: "part_lines (JList lns) = JList lns"
  by (simp add: part_lines_def or_else_def)

lemma clean_part_canon: "clean_part item = Inr (Some p) \<Longrightarrow> canon_part p"
proof (cases item)
  case (JStr s)
  assume "clean_part item = Inr (Some p)"
  with JStr show ?thesis
    by (auto simp: clean_part_def canon_part_def strip_idem)
       (simp add: strip_def lstrip_def rstrip_def)
next
  case (JDict d)
  assume h: "clean_part item = Inr (Some p)"
  obtain lns where lns: "part_lines (dict_get d ''lines'') = JList lns"
    using part_lines_is_list by blast
  from h JDict lns show ?thesis
    by (auto simp: clean_part_def canon_part_def split: sum.splits dest: strip_method_idem)
qed (auto simp: clean_part_def)

lemma clean_part_fix:
  assumes "canon_part p" "has_part_number p"
  shows "clean_part p = Inr (Some p)"
proof -
  from assms(1) obtain pn nm lns where p: "p = JDict [(''part_number'', JStr pn), (''name'', JStr nm),
     (''lines'', JList lns)]" and s: "strip pn = pn" "strip nm = nm"
    unfolding canon_part_def by blast
  from assms(2) p have ne: "pn \<noteq> []" by (simp add: dict_get_def)
  show ?thesis
    unfolding p clean_part_def using s ne
    by (cases "nm = []") (simp_all add: dict_get_def or_else_def part_lines_list strip_def lstrip_def rstrip_def)
qed

lemma clean_parts_canon: "clean_parts xs = Inr ys \<Longrightarrow> list_all canon_part ys"
proof (induction xs arbitrary: ys)
  case Nil then show ?case by simp
next
  case (Cons x xs)
  then show ?case
    by (auto split: sum.splits option.splits dest: clean_part_canon)
qed

lemma clean_parts_fix:
  "list_all (\<lambda>p. canon_part p \<and> has_part_number p) ys \<Longrightarrow> clean_parts ys = Inr ys"
  by (induction ys) (auto simp: clean_part_fix)

lemma normalize_parts_store_shape:
  assumes "normalize_parts_store x = Inr y"
  shows "\<exists>ys. y = JDict [(''parts'', JList ys)] \<and> list_all (\<lambda>p. canon_part p \<and> has_part_number p) ys"
proof -
  have f: "\<And>cl. list_all canon_part cl \<Longrightarrow>
      list_all (\<lambda>p. canon_part p \<and> has_part_number p) (filter has_part_number cl)"
    by (simp add: list_all_iff)
  from assms show ?thesis
    unfolding normalize_parts_store_def Let_def
    by (auto split: json.splits sum.splits if_splits dest!: clean_parts_canon f)
qed

lemma normalize_parts_store_idem:
  assumes "normalize_parts_store x = Inr y"
  shows "normalize_parts_store y = Inr y"
proof -
  from normalize_parts_store_shape[OF assms] obtain ys where
    y: "y = JDict [(''parts'', JList ys)]" and c: "list_all (\<lambda>p. canon_part p \<and> has_part_number p) ys"
    by blast
  have "filter has_part_number ys = ys" using c by (simp add: list_all_iff)
  then show ?thesis
    unfolding y normalize_parts_store_def
    by (simp add: has_key_def dict_get_def clean_parts_fix[OF c])
qed

lemma normalize_tool_store_idem: "normalize_tool_store (normalize_tool_store x) = normalize_tool_store x"
  by (cases x) (auto simp: normalize_tool_store_def has_key_def dict_get_def)

lemma normalize_users_idem: "normalize_users (normalize_users x) = normalize_users x"
  by (simp add: normalize_users_def or_else_def)

lemma has_key_update: "has_key (AList.update k v d) k' = (k' = k \<or> has_key d k')"
  by (auto simp: has_key_def dom_update map_of_eq_None_iff[symmetric] update_conv' simp del: map_of_eq_None_iff)

lemma has_key_map_of: "has_key d k = (map_of d k \<noteq> None)"
  by (simp add: has_key_def map_of_eq_None_iff)

lemma has_key_Nil [simp]: "\<not> has_key [] k"
  by (simp add: has_key_def)

lemma dict_get_Nil [simp]: "dict_get [] k = JNull"
  by (simp add: dict_get_def)

lemma dict_get_absent: "\<not> has_key d k \<Longrightarrow> dict_get d k = JNull"
  by (simp add: dict_get_def has_key_map_of)

lemma has_key_setdefault: "has_key (setdefault d k v) k' = (k' = k \<or> has_key d k')"
  by (auto simp: setdefault_def has_key_def)

lemma dict_get_update: "dict_get (AList.update k v d) k' = (if k' = k then v else dict_get d k')"
  by (simp add: dict_get_def update_conv')

lemma dict_get_setdefault:
  "dict_get (setdefault d k v) k' = (if has_key d k' then dict_get d k' else if k' = k then v else JNull)"
  by (simp add: setdefault_def dict_get_def has_key_map_of map_add_def split: option.splits)

lemma normalize_cost_store_shape:
  "\<exists>d. normalize_cost_store x = JDict d \<and> has_key d ''scrap_cost_by_part''
     \<and> is_dict (dict_get d ''scrap_cost_by_part'') \<and> has_key d ''scrap_cost_default''"
  by (simp add: normalize_cost_store_def Let_def has_key_setdefault has_key_update
      dict_get_setdefault dict_get_update)

lemma normalize_cost_store_fix:
  assumes "has_key d ''scrap_cost_by_part''" "is_dict (dict_get d ''scrap_cost_by_part'')"
    "has_key d ''scrap_cost_default''"
  shows "normalize_cost_store (JDict d) = JDict d"
  using assms by (simp add: normalize_cost_store_def Let_def setdefault_def)

lemma normalize_cost_store_idem: "normalize_cost_store (normalize_cost_store x) = normalize_cost_store x"
  using normalize_cost_store_shape[of x] normalize_cost_store_fix by auto

text \<open>
  C4 (as amended): for any input the cost normalizer returns a dictionary in which
  \<open>scrap_cost_by_part\<close> is present and is a dictionary: the input's own value when that
  is a dictionary, the empty dictionary otherwise (a value of another type is discarded).
  \<open>scrap_cost_default\<close> is present too: the input's own value, of whatever type, when the
  input is a dictionary that has the key, and the float 0.0 otherwise.
\<close>

theorem cost_store_fields:
  "\<exists>d. normalize_cost_store store = JDict d
     \<and> has_key d ''scrap_cost_by_part''
     \<and> dict_get d ''scrap_cost_by_part'' =
           (if is_dict (dict_get (dict_items store) ''scrap_cost_by_part'')
            then dict_get (dict_items store) ''scrap_cost_by_part'' else JDict [])
     \<and> is_dict (dict_get d ''scrap_cost_by_part'')
     \<and> has_key d ''scrap_cost_default''
     \<and> dict_get d ''scrap_cost_default'' =
           (if has_key (dict_items store) ''scrap_cost_default''
            then dict_get (dict_items store) ''scrap_cost_default'' else JFloat 0)"
  by (cases store)
     (auto simp: normalize_cost_store_def Let_def has_key_setdefault has_key_update
      dict_get_setdefault dict_get_update dict_get_absent)

text \<open>
  C4 as stated fails: a cost file whose \<open>scrap_cost_default\<close> is the string "12.5" keeps
  that string, which is not a number.
\<close>

theorem cost_default_counterexample:
  "dict_get (dict_items (normalize_cost_store (JDict [(''scrap_cost_default'', JStr ''12.5'')])))
      ''scrap_cost_default'' = JStr ''12.5''
   \<and> \<not> is_number (JStr ''12.5'')"
  by (simp add: normalize_cost_store_def Let_def setdefault_def has_key_def dict_get_def)

text \<open>
  C3: each of the four normalizers (parts, tools, costs, users), applied to a value it
  has returned, returns that value unchanged; applied to \<open>None\<close>, to the empty
  dictionary or to the empty list it returns the empty canonical shape of its store and
  does not raise.
\<close>

theorem normalize_idempotent:
  "(\<forall>y. normalize_parts_store x = Inr y \<longrightarrow> normalize_parts_store y = Inr y)
   \<and> normalize_tool_store (normalize_tool_store x) = normalize_tool_store x
   \<and> normalize_cost_store (normalize_cost_store x) = normalize_cost_store x
   \<and> normalize_users (normalize_users x) = normalize_users x
   \<and> (\<forall>e \<in> {JNull, JDict [], JList []}.
         normalize_parts_store e = Inr (JDict [(''parts'', JList [])])
       \<and> normalize_tool_store e = JDict [(''tools'', JDict [])]
       \<and> normalize_cost_store e = JDict [(''scrap_cost_by_part'', JDict []), (''scrap_cost_default'', JFloat 0)]
       \<and> normalize_users e = JDict [])"
proof (intro conjI allI impI ballI)
  fix e assume e: "e \<in> {JNull, JDict [], JList []}"
  from e show "normalize_parts_store e = Inr (JDict [(''parts'', JList [])])"
    by (auto simp: normalize_parts_store_def has_key_def dict_get_def)
  from e show "normalize_tool_store e = JDict [(''tools'', JDict [])]"
    by (auto simp: normalize_tool_store_def has_key_def dict_get_def)
  from e show "normalize_cost_store e = JDict [(''scrap_cost_by_part'', JDict []), (''scrap_cost_default'', JFloat 0)]"
    by (auto simp: normalize_cost_store_def setdefault_def has_key_def dict_get_def)
  from e show "normalize_users e = JDict []"
    by (auto simp: normalize_users_def or_else_def)
qed (simp_all add: normalize_parts_store_idem normalize_tool_store_idem normalize_cost_store_idem
      normalize_users_idem)

theorem normalize_idempotent_witness:
  "normalize_parts_store (JList [JStr '' PN1 '', JInt 7]) =
       Inr (JDict [(''parts'', JList [JDict [(''part_number'', JStr ''PN1''), (''name'', JStr ''''), (''lines'', JList [])]])])
   \<and> normalize_parts_store (JDict [(''parts'', JList [JDict [(''part_number'', JStr ''PN1''), (''name'', JStr ''''), (''lines'', JList [])]])]) =
       Inr (JDict [(''parts'', JList [JDict [(''part_number'', JStr ''PN1''), (''name'', JStr ''''), (''lines'', JList [])]])])
   \<and> JNull \<in> {JNull, JDict [], JList []}
   \<and> normalize_cost_store JNull = JDict [(''scrap_cost_by_part'', JDict []), (''scrap_cost_default'', JFloat 0)]"
proof -
  have a: "normalize_parts_store (JList [JStr '' PN1 '', JInt 7]) =
       Inr (JDict [(''parts'', JList [JDict [(''part_number'', JStr ''PN1''), (''name'', JStr ''''), (''lines'', JList [])]])])"
    by (simp add: normalize_parts_store_def clean_part_def dict_get_def
      strip_def lstrip_def rstrip_def)
  have b: "JNull \<in> {JNull, JDict [], JList []}" by simp
  from normalize_idempotent[of "JList [JStr '' PN1 '', JInt 7]"] a b show ?thesis
    by blast
qed

section \<open>Properties of the ledger\<close>

lemma map_of_dict_merge:
  "map_of (dict_merge a b) k = (case map_of (rev b) k of Some v \<Rightarrow> Some v | None \<Rightarrow> map_of a k)"
  unfolding dict_merge_def
proof (induction b arbitrary: a)
  case Nil then show ?case by simp
next
  case (Cons x b)
  obtain k' v' where x: "x = (k', v')" by (cases x)
  show ?case
    by (simp add: Cons.IH x update_conv' map_add_def split: option.splits)
qed

lemma map_of_rev_None: "map_of (rev b) k = None \<longleftrightarrow> map_of b k = None"
  by (simp add: map_of_eq_None_iff)

lemma dict_get_merge_absent: "\<not> has_key b k \<Longrightarrow> dict_get (dict_merge a b) k = dict_get a k"
proof -
  assume "\<not> has_key b k"
  then have "map_of (rev b) k = None" by (simp add: map_of_rev_None has_key_map_of)
  then show ?thesis by (simp add: dict_get_def map_of_dict_merge)
qed

lemma map_of_rev_distinct: "distinct (map fst b) \<Longrightarrow> map_of (rev b) = map_of b"
  by (rule map_of_inject_set[THEN iffD2]) (simp_all add: distinct_rev rev_map[symmetric])

lemma dict_get_merge_present:
  "distinct (map fst b) \<Longrightarrow> has_key b k \<Longrightarrow> dict_get (dict_merge a b) k = dict_get b k"
  by (auto simp: dict_get_def map_of_dict_merge map_of_rev_distinct has_key_map_of split: option.splits)

lemma setdefault_present: "has_key d k \<Longrightarrow> setdefault d k v = d"
  by (simp add: setdefault_def)

lemma ensure_actions_shape_props:
  "has_key (ensure_actions_shape s) ''version'' \<and> has_key (ensure_actions_shape s) ''actions''
   \<and> is_list (dict_get (ensure_actions_shape s) ''actions'')"
  by (simp add: ensure_actions_shape_def Let_def has_key_setdefault has_key_update
      dict_get_setdefault dict_get_update)

lemma ensure_actions_shape_fix:
  "has_key d ''version'' \<Longrightarrow> has_key d ''actions'' \<Longrightarrow> is_list (dict_get d ''actions'')
   \<Longrightarrow> ensure_actions_shape (JDict d) = d"
  by (simp add: ensure_actions_shape_def Let_def setdefault_present)

lemma ensure_actions_roundtrip:
  "ensure_actions_shape (JDict (ensure_actions_shape s)) = ensure_actions_shape s"
  using ensure_actions_shape_props[of s] by (simp add: ensure_actions_shape_fix)

lemma ensure_actions_shape_update:
  "dict_get (ensure_actions_shape (JDict (AList.update ''actions'' (JList xs) store))) ''actions'' = JList xs"
  by (simp add: ensure_actions_shape_def Let_def has_key_setdefault has_key_update
      dict_get_setdefault dict_get_update)

lemma stored_actions_save:
  "stored_actions (save_actions_store (AList.update ''actions'' (JList xs) store) w) = xs"
  by (simp add: stored_actions_def save_actions_store_def load_actions_store_def load_json_def
      ensure_actions_roundtrip ensure_actions_shape_update)

lemma upsert_scan_none:
  "list_all is_dict xs \<Longrightarrow> \<forall>x\<in>set xs. \<not> py_eq (dict_get (dict_items x) key) (dict_get new key)
     \<Longrightarrow> upsert_scan key new stamp xs = Inr None"
  by (induction xs) (auto split: json.splits)

lemma upsert_scan_found:
  "list_all is_dict pre \<Longrightarrow> \<forall>x\<in>set pre. \<not> py_eq (dict_get (dict_items x) key) (dict_get new key)
     \<Longrightarrow> py_eq (dict_get d key) (dict_get new key)
     \<Longrightarrow> upsert_scan key new stamp (pre @ JDict d # post) =
           Inr (Some (pre @ JDict (AList.update ''updated_at'' stamp (dict_merge d new)) # post))"
  by (induction pre) (auto split: json.splits)

lemma distinct_setdefault: "distinct (map fst d) \<Longrightarrow> distinct (map fst (setdefault d k v))"
  by (auto simp: setdefault_def has_key_def)

lemma truthy_get_has_key: "truthy (dict_get d k) \<Longrightarrow> has_key d k"
  by (cases "has_key d k") (simp_all add: dict_get_absent)

lemma has_key_setdefault_r: "has_key (setdefault d k v) k' = (has_key d k' \<or> k' = k)"
  by (auto simp: setdefault_def has_key_def)

lemma has_key_update_r: "has_key (AList.update k v d) k' = (has_key d k' \<or> k' = k)"
  using has_key_update[of k v d k'] by blast

lemma action_defaults_keys:
  "has_key (fst (action_defaults E action w)) k
     = (has_key action k \<or> k = ''action_id'' \<or> k \<in> default_keys)"
proof -
  have t: "truthy (dict_get action ''action_id'') \<Longrightarrow> has_key action ''action_id''"
    by (rule truthy_get_has_key)
  show ?thesis
  proof (cases "k = ''action_id''")
    case True
    with t show ?thesis
      by (simp add: action_defaults_def Let_def now_def default_keys_def has_key_setdefault_r
          has_key_update_r split: prod.splits)
  next
    case False
    then show ?thesis
      by (simp add: action_defaults_def Let_def now_def default_keys_def has_key_setdefault_r
          has_key_update_r split: prod.splits)
  qed
qed

lemma action_defaults_values:
  "has_key action k \<Longrightarrow> k \<noteq> ''action_id'' \<Longrightarrow>
     dict_get (fst (action_defaults E action w)) k = dict_get action k"
  by (simp add: action_defaults_def Let_def now_def dict_get_setdefault dict_get_update
      has_key_setdefault has_key_update split: prod.splits)

lemma action_defaults_id:
  "dict_get (fst (action_defaults E action w)) ''action_id'' =
     (if truthy (dict_get action ''action_id'') then dict_get action ''action_id''
      else JStr (new_id ''A'' (clock E (clock_reads w))))"
proof -
  have "truthy (dict_get action ''action_id'') \<Longrightarrow> has_key action ''action_id''"
    by (rule truthy_get_has_key)
  then show ?thesis
    by (simp add: action_defaults_def Let_def now_def dict_get_setdefault dict_get_update
      has_key_setdefault has_key_update split: prod.splits)
qed

lemma action_defaults_distinct:
  "distinct (map fst action) \<Longrightarrow> distinct (map fst (fst (action_defaults E action w)))"
  by (simp add: action_defaults_def Let_def now_def distinct_setdefault distinct_update
      split: prod.splits)

lemma action_defaults_world:
  "actions_file (snd (action_defaults E action w)) = actions_file w
   \<and> ncrs_file (snd (action_defaults E action w)) = ncrs_file w"
  by (simp add: action_defaults_def Let_def now_def split: prod.splits)

lemma stored_actions_cong: "actions_file w' = actions_file w \<Longrightarrow> stored_actions w' = stored_actions w"
  by (simp add: stored_actions_def load_actions_store_def)

lemma upsert_action_found:
  assumes d: "action_defaults E action w = (a, w1)"
    and s: "stored_actions w = pre @ JDict d # post"
    and pre: "list_all is_dict pre"
      "\<forall>x\<in>set pre. \<not> py_eq (action_id_of x) (dict_get a ''action_id'')"
    and m: "py_eq (dict_get d ''action_id'') (dict_get a ''action_id'')"
  shows "\<exists>w'. upsert_action E action w = (Inr a, w')
     \<and> stored_actions w' = pre @ JDict (AList.update ''updated_at''
          (JStr (now_iso (clock E (clock_reads w1)))) (dict_merge d a)) # post"
proof -
  let ?stamp = "JStr (now_iso (clock E (clock_reads w1)))"
  have sc: "upsert_scan ''action_id'' a ?stamp (list_items (dict_get (load_actions_store w) ''actions''))
     = Inr (Some (pre @ JDict (AList.update ''updated_at'' ?stamp (dict_merge d a)) # post))"
    using upsert_scan_found[OF pre(1) _ m] pre(2) s
    by (simp add: stored_actions_def action_id_of_def)
  show ?thesis
    by (simp add: upsert_action_def Let_def d now_def sc stored_actions_save)
qed

lemma upsert_action_appended:
  assumes d: "action_defaults E action w = (a, w1)"
    and wf: "list_all is_dict (stored_actions w)"
    and nm: "\<forall>x\<in>set (stored_actions w). \<not> py_eq (action_id_of x) (dict_get a ''action_id'')"
  shows "\<exists>w'. upsert_action E action w
          = (Inr (AList.update ''updated_at'' (JStr (now_iso (clock E (clock_reads w1)))) a), w')
     \<and> stored_actions w' = stored_actions w
          @ [JDict (AList.update ''updated_at'' (JStr (now_iso (clock E (clock_reads w1)))) a)]"
proof -
  let ?stamp = "JStr (now_iso (clock E (clock_reads w1)))"
  have sc: "upsert_scan ''action_id'' a ?stamp (list_items (dict_get (load_actions_store w) ''actions''))
     = Inr None"
    using upsert_scan_none[of "stored_actions w" "''action_id''" a ?stamp] wf nm
    by (simp add: stored_actions_def action_id_of_def)
  show ?thesis
    by (simp add: upsert_action_def Let_def d now_def sc stored_actions_save)
       (simp add: stored_actions_def)
qed

text \<open>
  C6 (as amended).  Let \<open>a\<close> be the caller's record with its identifier filled in: the
  caller's own when that is truthy, else one generated from the clock.  When the stored
  list is \<open>pre @ [d] @ post\<close>, the entries of \<open>pre\<close> being dictionaries with another
  identifier and \<open>d\<close> a dictionary with the identifier of \<open>a\<close>, the call stores
  \<open>pre @ [m] @ post\<close>: the list keeps its length, \<open>m\<close> has that identifier and
  \<open>updated_at\<close> stamped from the clock, every other field of the caller's record with the
  caller's value, and every field of \<open>d\<close> that the caller's record does not have, the six
  defaulted fields \<open>type\<close>, \<open>severity\<close>, \<open>status\<close>, \<open>created_at\<close>, \<open>notes\<close>, \<open>related\<close>
  apart, with its old value.  When every stored entry is a dictionary and none has the
  identifier of \<open>a\<close> (a caller's new identifier, or a generated one that is not yet in
  the list), the call appends one entry, \<open>a\<close> with its defaults and \<open>updated_at\<close>
  stamped: the list is one longer.
\<close>

theorem upsert_action_effect:
  assumes "action_defaults E action w = (a, w1)"
    and "distinct (map fst action)"
  shows
    "(\<forall>pre d post.
        stored_actions w = pre @ JDict d # post \<and> list_all is_dict pre
        \<and> (\<forall>x\<in>set pre. \<not> py_eq (action_id_of x) (dict_get a ''action_id''))
        \<and> py_eq (dict_get d ''action_id'') (dict_get a ''action_id'')
      \<longrightarrow> (\<exists>w' m. upsert_action E action w = (Inr a, w')
            \<and> stored_actions w' = pre @ JDict m # post
            \<and> length (stored_actions w') = length (stored_actions w)
            \<and> dict_get m ''updated_at'' = JStr (now_iso (clock E (clock_reads w1)))
            \<and> dict_get m ''action_id'' = dict_get a ''action_id''
            \<and> (\<forall>k. has_key action k \<and> k \<noteq> ''action_id'' \<and> k \<noteq> ''updated_at''
                  \<longrightarrow> dict_get m k = dict_get action k)
            \<and> (\<forall>k. \<not> has_key action k \<and> k \<noteq> ''action_id'' \<and> k \<noteq> ''updated_at''
                    \<and> k \<notin> default_keys
                  \<longrightarrow> dict_get m k = dict_get d k)))
   \<and> (list_all is_dict (stored_actions w)
        \<and> (\<forall>x\<in>set (stored_actions w). \<not> py_eq (action_id_of x) (dict_get a ''action_id''))
      \<longrightarrow> (\<exists>w' r. upsert_action E action w = (Inr r, w')
            \<and> r = AList.update ''updated_at'' (JStr (now_iso (clock E (clock_reads w1)))) a
            \<and> stored_actions w' = stored_actions w @ [JDict r]
            \<and> length (stored_actions w') = length (stored_actions w) + 1))
   \<and> (\<forall>k. has_key a k = (has_key action k \<or> k = ''action_id'' \<or> k \<in> default_keys))
   \<and> (\<forall>k. has_key action k \<and> k \<noteq> ''action_id'' \<longrightarrow> dict_get a k = dict_get action k)
   \<and> dict_get a ''action_id'' =
        (if truthy (dict_get action ''action_id'') then dict_get action ''action_id''
         else JStr (new_id ''A'' (clock E (clock_reads w))))"
proof (intro conjI allI impI)
  fix pre d post
  assume h: "stored_actions w = pre @ JDict d # post \<and> list_all is_dict pre
        \<and> (\<forall>x\<in>set pre. \<not> py_eq (action_id_of x) (dict_get a ''action_id''))
        \<and> py_eq (dict_get d ''action_id'') (dict_get a ''action_id'')"
  let ?m = "AList.update ''updated_at'' (JStr (now_iso (clock E (clock_reads w1)))) (dict_merge d a)"
  from h upsert_action_found[OF assms(1), of pre d post] obtain w' where
    w': "upsert_action E action w = (Inr a, w')" "stored_actions w' = pre @ JDict ?m # post"
    by blast
  have da: "distinct (map fst a)"
    using action_defaults_distinct[OF assms(2), of E w] assms(1) by simp
  have keys: "\<And>k. has_key a k = (has_key action k \<or> k = ''action_id'' \<or> k \<in> default_keys)"
    using action_defaults_keys[of E action w] assms(1) by simp
  have vals: "\<And>k. has_key action k \<Longrightarrow> k \<noteq> ''action_id'' \<Longrightarrow> dict_get a k = dict_get action k"
    using action_defaults_values[of action _ E w] assms(1) by simp
  have mrg: "\<And>k. k \<noteq> ''updated_at'' \<Longrightarrow>
      dict_get ?m k = (if has_key a k then dict_get a k else dict_get d k)"
    by (simp add: dict_get_update dict_get_merge_absent dict_get_merge_present[OF da])
  have c1: "dict_get ?m ''updated_at'' = JStr (now_iso (clock E (clock_reads w1)))"
    by (simp add: dict_get_update)
  have c2: "dict_get ?m ''action_id'' = dict_get a ''action_id''"
    using mrg[of "''action_id''"] keys[of "''action_id''"] by simp
  have c3: "\<forall>k. has_key action k \<and> k \<noteq> ''action_id'' \<and> k \<noteq> ''updated_at''
                  \<longrightarrow> dict_get ?m k = dict_get action k"
  proof (intro allI impI)
    fix k assume k: "has_key action k \<and> k \<noteq> ''action_id'' \<and> k \<noteq> ''updated_at''"
    then have "has_key a k" using keys[of k] by simp
    then show "dict_get ?m k = dict_get action k"
      using mrg[of k] vals[of k] k by simp
  qed
  have c4: "\<forall>k. \<not> has_key action k \<and> k \<noteq> ''action_id'' \<and> k \<noteq> ''updated_at''
                    \<and> k \<notin> default_keys
                  \<longrightarrow> dict_get ?m k = dict_get d k"
  proof (intro allI impI)
    fix k assume k: "\<not> has_key action k \<and> k \<noteq> ''action_id'' \<and> k \<noteq> ''updated_at''
                    \<and> k \<notin> default_keys"
    then have "\<not> has_key a k" using keys[of k] by simp
    then show "dict_get ?m k = dict_get d k"
      using mrg[of k] k by simp
  qed
  have c5: "length (stored_actions w') = length (stored_actions w)"
    using h w'(2) by simp
  show "\<exists>w' m. upsert_action E action w = (Inr a, w')
            \<and> stored_actions w' = pre @ JDict m # post
            \<and> length (stored_actions w') = length (stored_actions w)
            \<and> dict_get m ''updated_at'' = JStr (now_iso (clock E (clock_reads w1)))
            \<and> dict_get m ''action_id'' = dict_get a ''action_id''
            \<and> (\<forall>k. has_key action k \<and> k \<noteq> ''action_id'' \<and> k \<noteq> ''updated_at''
                  \<longrightarrow> dict_get m k = dict_get action k)
            \<and> (\<forall>k. \<not> has_key action k \<and> k \<noteq> ''action_id'' \<and> k \<noteq> ''updated_at''
                    \<and> k \<notin> default_keys
                  \<longrightarrow> dict_get m k = dict_get d k)"
    using w' c1 c2 c3 c4 c5 by blast
next
  assume h: "list_all is_dict (stored_actions w)
        \<and> (\<forall>x\<in>set (stored_actions w). \<not> py_eq (action_id_of x) (dict_get a ''action_id''))"
  from h upsert_action_appended[OF assms(1)] obtain w' where
    "upsert_action E action w
          = (Inr (AList.update ''updated_at'' (JStr (now_iso (clock E (clock_reads w1)))) a), w')"
    "stored_actions w' = stored_actions w
          @ [JDict (AList.update ''updated_at'' (JStr (now_iso (clock E (clock_reads w1)))) a)]"
    by blast
  then show "\<exists>w' r. upsert_action E action w = (Inr r, w')
            \<and> r = AList.update ''updated_at'' (JStr (now_iso (clock E (clock_reads w1)))) a
            \<and> stored_actions w' = stored_actions w @ [JDict r]
            \<and> length (stored_actions w') = length (stored_actions w) + 1"
    by simp
next
  fix k show "has_key a k = (has_key action k \<or> k = ''action_id'' \<or> k \<in> default_keys)"
    using action_defaults_keys[of E action w k] assms(1) by simp
next
  fix k assume "has_key action k \<and> k \<noteq> ''action_id''"
  then show "dict_get a k = dict_get action k"
    using action_defaults_values[of action k E w] assms(1) by simp
next
  show "dict_get a ''action_id'' =
        (if truthy (dict_get action ''action_id'') then dict_get action ''action_id''
         else JStr (new_id ''A'' (clock E (clock_reads w))))"
    using action_defaults_id[of E action w] assms(1) by simp
qed

lemma digit_char_simps:
  "digit_char 0 = CHR ''0''" "digit_char 1 = CHR ''1''" "digit_char 2 = CHR ''2''"
  "digit_char 3 = CHR ''3''" "digit_char 4 = CHR ''4''" "digit_char 5 = CHR ''5''"
  "digit_char 6 = CHR ''6''" "digit_char 7 = CHR ''7''" "digit_char 8 = CHR ''8''"
  "digit_char 9 = CHR ''9''" "digit_char (Suc 0) = CHR ''1''"
  by code_simp+

lemma dict_get_Cons [simp]: "dict_get ((k, v) # d) k' = (if k = k' then v else dict_get d k')"
  by (simp add: dict_get_def)

lemma has_key_Cons [simp]: "has_key ((k, v) # d) k' = (k = k' \<or> has_key d k')"
  by (auto simp: has_key_def)

lemma ex_new_id: "new_id ''A'' (clock ex_env 0) = ''A-20260115-083000''"
  by (simp add: new_id_def strftime_id_def four_digits_def two_digits_def ex_env_def digit_char_simps)

lemma stored_actions_ex: "stored_actions (ex_ledger xs) = xs"
  by (simp add: stored_actions_def ex_ledger_def load_actions_store_def load_json_def
      ensure_actions_shape_def Let_def setdefault_def has_key_def dict_get_def)

text \<open>
  C6 as stated fails twice.  An entry stored with status \<open>Closed\<close> does not survive an
  upsert whose record has no \<open>status\<close> field: the stored status becomes \<open>Open\<close>, because
  the defaults are filled into the new record before the merge.  And an upsert without
  identifier, at a second whose generated identifier is already stored, replaces that
  entry: the list keeps its length.
\<close>

theorem upsert_action_counterexample:
  "\<not> has_key [(''action_id'', JStr ''A-1''), (''title'', JStr ''t'')] ''status''
   \<and> stored_actions (ex_ledger [JDict [(''action_id'', JStr ''A-1''), (''status'', JStr ''Closed'')]])
       = [JDict [(''action_id'', JStr ''A-1''), (''status'', JStr ''Closed'')]]
   \<and> (\<exists>m. stored_actions (snd (upsert_action ex_env [(''action_id'', JStr ''A-1''), (''title'', JStr ''t'')]
          (ex_ledger [JDict [(''action_id'', JStr ''A-1''), (''status'', JStr ''Closed'')]]))) = [JDict m]
        \<and> dict_get m ''status'' = JStr ''Open'')
   \<and> \<not> truthy (dict_get [(''title'', JStr ''t'')] ''action_id'')
   \<and> length (stored_actions (snd (upsert_action ex_env [(''title'', JStr ''t'')]
          (ex_ledger [JDict [(''action_id'', JStr ''A-20260115-083000'')]]))))
       = length (stored_actions (ex_ledger [JDict [(''action_id'', JStr ''A-20260115-083000'')]]))"
proof -
  let ?new = "[(''action_id'', JStr ''A-1''), (''title'', JStr ''t'')]"
  let ?old = "[(''action_id'', JStr ''A-1''), (''status'', JStr ''Closed'')]"
  have d1: "action_defaults ex_env ?new (ex_ledger [JDict ?old])
      = (fst (action_defaults ex_env ?new (ex_ledger [JDict ?old])),
         snd (action_defaults ex_env ?new (ex_ledger [JDict ?old])))" by simp
  have id1: "dict_get (fst (action_defaults ex_env ?new (ex_ledger [JDict ?old]))) ''action_id'' = JStr ''A-1''"
    by (simp add: action_defaults_id)
  have "\<exists>w'. upsert_action ex_env ?new (ex_ledger [JDict ?old]) =
           (Inr (fst (action_defaults ex_env ?new (ex_ledger [JDict ?old]))), w')
     \<and> stored_actions w' = [] @ JDict (AList.update ''updated_at''
          (JStr (now_iso (clock ex_env (clock_reads (snd (action_defaults ex_env ?new (ex_ledger [JDict ?old])))))))
          (dict_merge ?old (fst (action_defaults ex_env ?new (ex_ledger [JDict ?old]))))) # []"
    by (rule upsert_action_found[OF d1]) (simp_all add: stored_actions_ex id1)
  then obtain w' where w': "upsert_action ex_env ?new (ex_ledger [JDict ?old]) =
           (Inr (fst (action_defaults ex_env ?new (ex_ledger [JDict ?old]))), w')"
     "stored_actions w' = [JDict (AList.update ''updated_at''
          (JStr (now_iso (clock ex_env (clock_reads (snd (action_defaults ex_env ?new (ex_ledger [JDict ?old])))))))
          (dict_merge ?old (fst (action_defaults ex_env ?new (ex_ledger [JDict ?old])))))]"
    by auto
  have da: "distinct (map fst (fst (action_defaults ex_env ?new (ex_ledger [JDict ?old]))))"
    by (rule action_defaults_distinct) simp
  have hk: "has_key (fst (action_defaults ex_env ?new (ex_ledger [JDict ?old]))) ''status''"
    by (simp add: action_defaults_keys default_keys_def)
  have st: "dict_get (fst (action_defaults ex_env ?new (ex_ledger [JDict ?old]))) ''status'' = JStr ''Open''"
    by (simp add: action_defaults_def Let_def now_def dict_get_setdefault has_key_setdefault
        split: prod.splits)
  have a: "\<exists>m. stored_actions (snd (upsert_action ex_env ?new (ex_ledger [JDict ?old]))) = [JDict m]
        \<and> dict_get m ''status'' = JStr ''Open''"
    by (simp add: w' dict_get_update dict_get_merge_present[OF da hk] st)
  let ?new2 = "[(''title'', JStr ''t'')]"
  let ?old2 = "[(''action_id'', JStr ''A-20260115-083000'')]"
  have d2: "action_defaults ex_env ?new2 (ex_ledger [JDict ?old2])
      = (fst (action_defaults ex_env ?new2 (ex_ledger [JDict ?old2])),
         snd (action_defaults ex_env ?new2 (ex_ledger [JDict ?old2])))" by simp
  have id2: "dict_get (fst (action_defaults ex_env ?new2 (ex_ledger [JDict ?old2]))) ''action_id''
       = JStr ''A-20260115-083000''"
    by (simp add: action_defaults_id ex_ledger_def ex_new_id)
  have "\<exists>w'. upsert_action ex_env ?new2 (ex_ledger [JDict ?old2]) =
           (Inr (fst (action_defaults ex_env ?new2 (ex_ledger [JDict ?old2]))), w')
     \<and> stored_actions w' = [] @ JDict (AList.update ''updated_at''
          (JStr (now_iso (clock ex_env (clock_reads (snd (action_defaults ex_env ?new2 (ex_ledger [JDict ?old2])))))))
          (dict_merge ?old2 (fst (action_defaults ex_env ?new2 (ex_ledger [JDict ?old2]))))) # []"
    by (rule upsert_action_found[OF d2]) (simp_all add: stored_actions_ex id2)
  then have b: "length (stored_actions (snd (upsert_action ex_env ?new2 (ex_ledger [JDict ?old2])))) = 1"
    by auto
  show ?thesis
    using a b by (simp add: stored_actions_ex)
qed

theorem upsert_action_effect_witness:
  "(\<exists>w' m. upsert_action ex_env [(''action_id'', JStr ''A-1''), (''title'', JStr ''t'')]
              (ex_ledger [JDict [(''action_id'', JStr ''A-1''), (''owner'', JStr ''kim'')]])
            = (Inr (fst (action_defaults ex_env [(''action_id'', JStr ''A-1''), (''title'', JStr ''t'')]
                 (ex_ledger [JDict [(''action_id'', JStr ''A-1''), (''owner'', JStr ''kim'')]]))), w')
        \<and> stored_actions w' = [JDict m]
        \<and> dict_get m ''title'' = JStr ''t''
        \<and> dict_get m ''owner'' = JStr ''kim'')
   \<and> (\<exists>w' r. upsert_action ex_env [(''title'', JStr ''t'')] (ex_ledger []) = (Inr r, w')
        \<and> stored_actions w' = [JDict r]
        \<and> dict_get r ''action_id'' = JStr ''A-20260115-083000'')"
proof -
  let ?new = "[(''action_id'', JStr ''A-1''), (''title'', JStr ''t'')]"
  let ?old = "[(''action_id'', JStr ''A-1''), (''owner'', JStr ''kim'')]"
  let ?w = "ex_ledger [JDict ?old]"
  let ?a = "fst (action_defaults ex_env ?new ?w)"
  have d1: "action_defaults ex_env ?new ?w = (?a, snd (action_defaults ex_env ?new ?w))" by simp
  have dist: "distinct (map fst ?new)" by simp
  note F = upsert_action_effect[OF d1 dist]
  have id1: "dict_get ?a ''action_id'' = JStr ''A-1''"
    using F by simp
  have h: "stored_actions ?w = [] @ JDict ?old # [] \<and> list_all is_dict []
        \<and> (\<forall>x\<in>set []. \<not> py_eq (action_id_of x) (dict_get ?a ''action_id''))
        \<and> py_eq (dict_get ?old ''action_id'') (dict_get ?a ''action_id'')"
    by (simp add: stored_actions_ex id1)
  from F[THEN conjunct1, rule_format, OF h] obtain w' m where
    m: "upsert_action ex_env ?new ?w = (Inr ?a, w')" "stored_actions w' = [] @ JDict m # []"
       "\<And>k. has_key ?new k \<and> k \<noteq> ''action_id'' \<and> k \<noteq> ''updated_at''
            \<Longrightarrow> dict_get m k = dict_get ?new k"
       "\<And>k. \<not> has_key ?new k \<and> k \<noteq> ''action_id'' \<and> k \<noteq> ''updated_at'' \<and> k \<notin> default_keys
            \<Longrightarrow> dict_get m k = dict_get ?old k"
    by blast
  have ti: "dict_get m ''title'' = JStr ''t''"
    using m(3)[of "''title''"] by simp
  have ow: "dict_get m ''owner'' = JStr ''kim''"
    using m(4)[of "''owner''"] by (simp add: default_keys_def)
  have one: "\<exists>w' m. upsert_action ex_env ?new ?w = (Inr ?a, w') \<and> stored_actions w' = [JDict m]
        \<and> dict_get m ''title'' = JStr ''t'' \<and> dict_get m ''owner'' = JStr ''kim''"
    using m(1) m(2) ti ow by auto
  let ?new2 = "[(''title'', JStr ''t'')]"
  let ?a2 = "fst (action_defaults ex_env ?new2 (ex_ledger []))"
  have d2: "action_defaults ex_env ?new2 (ex_ledger [])
      = (?a2, snd (action_defaults ex_env ?new2 (ex_ledger [])))" by simp
  have dist2: "distinct (map fst ?new2)" by simp
  note G = upsert_action_effect[OF d2 dist2]
  have id2: "dict_get ?a2 ''action_id'' = JStr ''A-20260115-083000''"
    using G by (simp add: ex_ledger_def ex_new_id)
  have h2: "list_all is_dict (stored_actions (ex_ledger []))
        \<and> (\<forall>x\<in>set (stored_actions (ex_ledger [])). \<not> py_eq (action_id_of x) (dict_get ?a2 ''action_id''))"
    by (simp add: stored_actions_ex)
  from G[THEN conjunct2, THEN conjunct1, rule_format, OF h2] obtain w2 r where
    r: "upsert_action ex_env ?new2 (ex_ledger []) = (Inr r, w2)"
       "r = AList.update ''updated_at'' (JStr (now_iso (clock ex_env
              (clock_reads (snd (action_defaults ex_env ?new2 (ex_ledger []))))))) ?a2"
       "stored_actions w2 = stored_actions (ex_ledger []) @ [JDict r]"
    by blast
  have two: "\<exists>w' r. upsert_action ex_env ?new2 (ex_ledger []) = (Inr r, w')
        \<and> stored_actions w' = [JDict r] \<and> dict_get r ''action_id'' = JStr ''A-20260115-083000''"
    using r id2 by (simp add: stored_actions_ex dict_get_update)
  from one two show ?thesis by blast
qed

lemma upsert_scan_dicts:
  "list_all is_dict xs \<Longrightarrow>
     upsert_scan key new stamp xs = Inr None
     \<or> (\<exists>xs'. upsert_scan key new stamp xs = Inr (Some xs') \<and> list_all is_dict xs'
            \<and> length xs' = length xs)"
proof (induction xs)
  case Nil
  then show ?case by simp
next
  case (Cons x xs)
  then obtain d where x: "x = JDict d" by (cases x) auto
  from Cons have "upsert_scan key new stamp xs = Inr None
     \<or> (\<exists>xs'. upsert_scan key new stamp xs = Inr (Some xs') \<and> list_all is_dict xs'
            \<and> length xs' = length xs)" by simp
  then show ?case
    using Cons.prems by (auto simp: x)
qed

lemma ensure_ncrs_shape_props:
  "has_key (ensure_ncrs_shape s) ''version'' \<and> has_key (ensure_ncrs_shape s) ''ncrs''
   \<and> is_list (dict_get (ensure_ncrs_shape s) ''ncrs'')"
  by (simp add: ensure_ncrs_shape_def Let_def has_key_setdefault has_key_update
      dict_get_setdefault dict_get_update)

lemma ensure_ncrs_shape_fix:
  "has_key d ''version'' \<Longrightarrow> has_key d ''ncrs'' \<Longrightarrow> is_list (dict_get d ''ncrs'')
   \<Longrightarrow> ensure_ncrs_shape (JDict d) = d"
  by (simp add: ensure_ncrs_shape_def Let_def setdefault_present)

lemma ensure_ncrs_roundtrip:
  "ensure_ncrs_shape (JDict (ensure_ncrs_shape s)) = ensure_ncrs_shape s"
  using ensure_ncrs_shape_props[of s] by (simp add: ensure_ncrs_shape_fix)

lemma ensure_ncrs_shape_update:
  "dict_get (ensure_ncrs_shape (JDict (AList.update ''ncrs'' (JList xs) store))) ''ncrs'' = JList xs"
  by (simp add: ensure_ncrs_shape_def Let_def has_key_setdefault has_key_update
      dict_get_setdefault dict_get_update)

lemma stored_ncrs_save:
  "stored_ncrs (save_ncrs_store (AList.update ''ncrs'' (JList xs) store) w) = xs"
  by (simp add: stored_ncrs_def save_ncrs_store_def load_ncrs_store_def load_json_def
      ensure_ncrs_roundtrip ensure_ncrs_shape_update)

lemma stored_ncrs_cong: "ncrs_file w' = ncrs_file w \<Longrightarrow> stored_ncrs w' = stored_ncrs w"
  by (simp add: stored_ncrs_def load_ncrs_store_def)

lemma ncr_defaults_world:
  "actions_file (snd (ncr_defaults E n w)) = actions_file w
   \<and> ncrs_file (snd (ncr_defaults E n w)) = ncrs_file w"
  by (simp add: ncr_defaults_def Let_def now_def split: prod.splits)

lemma ncr_defaults_id:
  "dict_get (fst (ncr_defaults E n w)) ''ncr_id'' =
     (if truthy (dict_get n ''ncr_id'') then dict_get n ''ncr_id''
      else JStr (new_id ''NCR'' (clock E (clock_reads w))))"
proof -
  have "truthy (dict_get n ''ncr_id'') \<Longrightarrow> has_key n ''ncr_id''"
    by (rule truthy_get_has_key)
  then show ?thesis
    by (simp add: ncr_defaults_def Let_def now_def dict_get_setdefault dict_get_update
      has_key_setdefault has_key_update split: prod.splits)
qed

lemma ncr_defaults_status:
  "dict_get (fst (ncr_defaults E n w)) ''status'' =
     (if has_key n ''status'' then dict_get n ''status'' else JStr ''Open'')"
  by (simp add: ncr_defaults_def Let_def now_def dict_get_setdefault dict_get_update
      has_key_setdefault has_key_update split: prod.splits)

lemma ncr_defaults_other:
  "k \<noteq> ''ncr_id'' \<Longrightarrow> k \<noteq> ''status'' \<Longrightarrow> k \<noteq> ''created_at'' \<Longrightarrow>
     dict_get (fst (ncr_defaults E n w)) k = dict_get n k"
  by (simp add: ncr_defaults_def Let_def now_def dict_get_setdefault dict_get_update
      has_key_setdefault has_key_update dict_get_absent split: prod.splits)

lemma upsert_ncr_ok:
  assumes "list_all is_dict (stored_ncrs w)"
  shows "\<exists>r w'. upsert_ncr E n w = (Inr r, w')
     \<and> (\<forall>k. k \<noteq> ''updated_at'' \<longrightarrow> dict_get r k = dict_get (fst (ncr_defaults E n w)) k)
     \<and> list_all is_dict (stored_ncrs w') \<and> actions_file w' = actions_file w"
proof -
  obtain a w1 where d: "ncr_defaults E n w = (a, w1)" by (cases "ncr_defaults E n w")
  let ?stamp = "JStr (now_iso (clock E (clock_reads w1)))"
  have af: "actions_file w1 = actions_file w"
    using ncr_defaults_world[of E n w] d by simp
  from upsert_scan_dicts[OF assms, of "''ncr_id''" a ?stamp]
  show ?thesis
  proof
    assume s: "upsert_scan ''ncr_id'' a ?stamp (stored_ncrs w) = Inr None"
    show ?thesis
      using s assms af
      by (simp add: upsert_ncr_def Let_def d now_def stored_ncrs_def[symmetric] stored_ncrs_save
          dict_get_update)
         (simp add: save_ncrs_store_def)
  next
    assume "\<exists>xs'. upsert_scan ''ncr_id'' a ?stamp (stored_ncrs w) = Inr (Some xs')
        \<and> list_all is_dict xs' \<and> length xs' = length (stored_ncrs w)"
    then obtain xs' where s: "upsert_scan ''ncr_id'' a ?stamp (stored_ncrs w) = Inr (Some xs')"
      and x: "list_all is_dict xs'" by blast
    show ?thesis
      using s x af
      by (simp add: upsert_ncr_def Let_def d now_def stored_ncrs_def[symmetric] stored_ncrs_save)
         (simp add: save_ncrs_store_def)
  qed
qed

lemma upsert_action_ok:
  assumes "list_all is_dict (stored_actions w)"
  shows "\<exists>r w'. upsert_action E n w = (Inr r, w')
     \<and> (\<forall>k. k \<noteq> ''updated_at'' \<longrightarrow> dict_get r k = dict_get (fst (action_defaults E n w)) k)
     \<and> list_all is_dict (stored_actions w') \<and> ncrs_file w' = ncrs_file w"
proof -
  obtain a w1 where d: "action_defaults E n w = (a, w1)" by (cases "action_defaults E n w")
  let ?stamp = "JStr (now_iso (clock E (clock_reads w1)))"
  have af: "ncrs_file w1 = ncrs_file w"
    using action_defaults_world[of E n w] d by simp
  from upsert_scan_dicts[OF assms, of "''action_id''" a ?stamp]
  show ?thesis
  proof
    assume s: "upsert_scan ''action_id'' a ?stamp (stored_actions w) = Inr None"
    show ?thesis
      using s assms af
      by (simp add: upsert_action_def Let_def d now_def stored_actions_def[symmetric] stored_actions_save
          dict_get_update)
         (simp add: save_actions_store_def)
  next
    assume "\<exists>xs'. upsert_scan ''action_id'' a ?stamp (stored_actions w) = Inr (Some xs')
        \<and> list_all is_dict xs' \<and> length xs' = length (stored_actions w)"
    then obtain xs' where s: "upsert_scan ''action_id'' a ?stamp (stored_actions w) = Inr (Some xs')"
      and x: "list_all is_dict xs'" by blast
    show ?thesis
      using s x af
      by (simp add: upsert_action_def Let_def d now_def stored_actions_def[symmetric] stored_actions_save)
         (simp add: save_actions_store_def)
  qed
qed

lemma new_id_nonempty [simp]: "new_id p t \<noteq> []"
  by (simp add: new_id_def)

lemma create_linked_core:
  assumes n: "list_all is_dict (stored_ncrs w)" and a: "list_all is_dict (stored_actions w)"
  shows "\<exists>ncr action w'. create_ncr_and_action E q w = (Inr (ncr, action), w')
      \<and> dict_get ncr ''status'' = JStr ''Open''
      \<and> dict_get action ''status'' = JStr ''Open''
      \<and> dict_get action ''severity'' = JStr (severity q)
      \<and> dict_get ncr ''ncr_id'' = JStr (new_id ''NCR'' (clock E (clock_reads w)))
      \<and> dict_get (dict_items (dict_get action ''related'')) ''ncr_id'' = dict_get ncr ''ncr_id''
      \<and> (\<exists>t. dict_get action ''action_id'' = JStr (new_id ''A'' t))
      \<and> dict_get ncr ''action_id'' = dict_get action ''action_id''"
proof -
  let ?n0 = "[(''status'', JStr ''Open''), (''part_number'', JStr (part_number q)),
              (''line'', JStr (line q)), (''owner'', JStr (owner q)),
              (''description'', JStr (description q)), (''created_by'', JStr (created_by q)),
              (''related_entry_id'', JStr (related_entry_id q))]"
  from upsert_ncr_ok[OF n, of E ?n0] obtain ncr1 w1 where
    u1: "upsert_ncr E ?n0 w = (Inr ncr1, w1)"
    and g1: "\<And>k. k \<noteq> ''updated_at'' \<Longrightarrow> dict_get ncr1 k = dict_get (fst (ncr_defaults E ?n0 w)) k"
    and n1: "list_all is_dict (stored_ncrs w1)" and f1: "actions_file w1 = actions_file w"
    by blast
  have id1: "dict_get ncr1 ''ncr_id'' = JStr (new_id ''NCR'' (clock E (clock_reads w)))"
    by (simp add: g1 ncr_defaults_id)
  have st1: "dict_get ncr1 ''status'' = JStr ''Open''"
    by (simp add: g1 ncr_defaults_status)
  have a1: "list_all is_dict (stored_actions w1)"
    using a stored_actions_cong[OF f1] by simp
  let ?a0 = "[(''type'', JStr ''NCR''),
                   (''title'', or_else (JStr (title q)) (JStr (''NCR '' @ str_of (dict_get ncr1 ''ncr_id'')))),
                   (''severity'', JStr (severity q)), (''status'', JStr ''Open''),
                   (''owner'', JStr (owner q)), (''created_by'', JStr (created_by q)),
                   (''due_date'', JStr (due_date q)), (''line'', JStr (line q)),
                   (''part_number'', JStr (part_number q)),
                   (''related'', JDict [(''ncr_id'', dict_get ncr1 ''ncr_id''),
                                       (''entry_id'', JStr (related_entry_id q))]),
                   (''notes'', JStr (description q))]"
  from upsert_action_ok[OF a1, of E ?a0] obtain act w2 where
    u2: "upsert_action E ?a0 w1 = (Inr act, w2)"
    and g2: "\<And>k. k \<noteq> ''updated_at'' \<Longrightarrow> dict_get act k = dict_get (fst (action_defaults E ?a0 w1)) k"
    and f2: "ncrs_file w2 = ncrs_file w1"
    by blast
  have n2: "list_all is_dict (stored_ncrs w2)"
    using n1 stored_ncrs_cong[OF f2] by simp
  have st2: "dict_get act ''status'' = JStr ''Open''"
    by (simp add: g2 action_defaults_values)
  have sv2: "dict_get act ''severity'' = JStr (severity q)"
    by (simp add: g2 action_defaults_values)
  have rl2: "dict_get act ''related'' = JDict [(''ncr_id'', dict_get ncr1 ''ncr_id''),
                                       (''entry_id'', JStr (related_entry_id q))]"
    by (simp add: g2 action_defaults_values)
  have id2: "dict_get act ''action_id'' = JStr (new_id ''A'' (clock E (clock_reads w1)))"
    by (simp add: g2 action_defaults_id)
  let ?n2 = "AList.update ''action_id'' (dict_get act ''action_id'') ncr1"
  from upsert_ncr_ok[OF n2, of E ?n2] obtain ncr3 w3 where
    u3: "upsert_ncr E ?n2 w2 = (Inr ncr3, w3)"
    and g3: "\<And>k. k \<noteq> ''updated_at'' \<Longrightarrow> dict_get ncr3 k = dict_get (fst (ncr_defaults E ?n2 w2)) k"
    by blast
  have id3: "dict_get ncr3 ''ncr_id'' = JStr (new_id ''NCR'' (clock E (clock_reads w)))"
    by (simp add: g3 ncr_defaults_id dict_get_update id1)
  have st3: "dict_get ncr3 ''status'' = JStr ''Open''"
    by (simp add: g3 ncr_defaults_status dict_get_update st1)
  have ai3: "dict_get ncr3 ''action_id'' = dict_get act ''action_id''"
    by (simp add: g3 ncr_defaults_other dict_get_update)
  have "create_ncr_and_action E q w = (Inr (ncr3, act), w3)"
    using u2 u3 by (simp add: create_ncr_and_action_def u1)
  then show ?thesis
    using st3 st2 sv2 id3 rl2 id1 id2 ai3 by auto
qed

text \<open>
  C5 (as amended): on a ledger whose stored entries are all dictionaries,
  \<open>create_ncr_and_action\<close> returns, for any title, description, severity and owner, an NCR
  with status \<open>Open\<close> and a generated identifier, and an Action with status \<open>Open\<close> whose
  severity is the severity argument as it was passed; the Action's \<open>related.ncr_id\<close> is
  the NCR's identifier, and the NCR's \<open>action_id\<close> is the Action's generated identifier.
\<close>

theorem create_ncr_and_action_linked:
  assumes "list_all is_dict (stored_ncrs w)" and "list_all is_dict (stored_actions w)"
  shows "\<exists>ncr action w'. create_ncr_and_action E q w = (Inr (ncr, action), w')
      \<and> dict_get ncr ''status'' = JStr ''Open''
      \<and> dict_get action ''status'' = JStr ''Open''
      \<and> dict_get action ''severity'' = JStr (severity q)
      \<and> dict_get ncr ''ncr_id'' = JStr (new_id ''NCR'' (clock E (clock_reads w)))
      \<and> dict_get (dict_items (dict_get action ''related'')) ''ncr_id'' = dict_get ncr ''ncr_id''
      \<and> (\<exists>t. dict_get action ''action_id'' = JStr (new_id ''A'' t))
      \<and> dict_get ncr ''action_id'' = dict_get action ''action_id''"
  using assms by (rule create_linked_core)

lemma stored_ncrs_ex: "stored_ncrs (ex_ledger xs) = []"
  by (simp add: stored_ncrs_def ex_ledger_def load_ncrs_store_def load_json_def
      ensure_ncrs_shape_def Let_def setdefault_def)

theorem create_ncr_and_action_linked_witness:
  "list_all is_dict (stored_ncrs (ex_ledger [])) \<and> list_all is_dict (stored_actions (ex_ledger []))
   \<and> (\<exists>ncr action w'. create_ncr_and_action ex_env (ex_request ''High'') (ex_ledger [])
          = (Inr (ncr, action), w')
      \<and> dict_get ncr ''status'' = JStr ''Open''
      \<and> dict_get action ''status'' = JStr ''Open''
      \<and> dict_get action ''severity'' = JStr ''High''
      \<and> dict_get ncr ''ncr_id'' = JStr ''NCR-20260115-083000''
      \<and> dict_get (dict_items (dict_get action ''related'')) ''ncr_id'' = dict_get ncr ''ncr_id''
      \<and> dict_get ncr ''action_id'' = dict_get action ''action_id'')"
proof -
  have n: "list_all is_dict (stored_ncrs (ex_ledger []))" by (simp add: stored_ncrs_ex)
  have a: "list_all is_dict (stored_actions (ex_ledger []))" by (simp add: stored_actions_ex)
  have i: "new_id ''NCR'' (clock ex_env (clock_reads (ex_ledger []))) = ''NCR-20260115-083000''"
    by (simp add: new_id_def strftime_id_def four_digits_def two_digits_def ex_env_def
        ex_ledger_def digit_char_simps)
  have s: "severity (ex_request ''High'') = ''High''" by (simp add: ex_request_def)
  from create_ncr_and_action_linked[OF n a, of ex_env "ex_request ''High''"] n a show ?thesis
    unfolding i s by blast
qed

text \<open>
  C5 as stated fails: \<open>severity\<close> is a required argument that is passed on as it is, so
  a call that leaves it empty gets an Action whose severity is the empty string, not
  \<open>Medium\<close>.
\<close>

theorem create_linked_severity_counterexample:
  "\<exists>ncr action w'. create_ncr_and_action ex_env (ex_request []) (ex_ledger [])
          = (Inr (ncr, action), w')
      \<and> dict_get action ''severity'' = JStr []
      \<and> dict_get action ''severity'' \<noteq> JStr ''Medium''"
proof -
  have n: "list_all is_dict (stored_ncrs (ex_ledger []))" by (simp add: stored_ncrs_ex)
  have a: "list_all is_dict (stored_actions (ex_ledger []))" by (simp add: stored_actions_ex)
  have s: "severity (ex_request []) = []" by (simp add: ex_request_def)
  from create_linked_core[OF n a, of ex_env "ex_request []"] show ?thesis
    unfolding s by auto
qed

section \<open>Properties of the monthly tables\<close>

lemma add_missing_Nil [simp]: "add_missing [] df = df"
  by (simp add: add_missing_def)

lemma add_missing_Cons:
  "add_missing (c # cs) df =
     add_missing cs (if c \<notin> set (columns df) then add_column c (CStr []) df else df)"
  by (simp add: add_missing_def)

lemma add_missing_set: "set (columns (add_missing cs df)) = set (columns df) \<union> set cs"
  by (induction cs arbitrary: df) (auto simp: add_missing_Cons add_column_def)

lemma add_missing_extras:
  "set cs \<subseteq> K \<Longrightarrow> filter (\<lambda>c. c \<notin> K) (columns (add_missing cs df)) = filter (\<lambda>c. c \<notin> K) (columns df)"
  by (induction cs arbitrary: df) (auto simp: add_missing_Cons add_column_def)

lemma add_missing_length: "length (rows (add_missing cs df)) = length (rows df)"
  by (induction cs arbitrary: df) (auto simp: add_missing_Cons add_column_def)

lemma add_missing_cell:
  "i < length (rows df) \<Longrightarrow>
     (rows (add_missing cs df) ! i) c =
       (if c \<in> set cs \<and> c \<notin> set (columns df) then Some (CStr []) else (rows df ! i) c)"
proof (induction cs arbitrary: df)
  case Nil
  then show ?case by simp
next
  case (Cons a cs)
  show ?case
  proof (cases "a \<in> set (columns df)")
    case True
    with Cons show ?thesis by (auto simp: add_missing_Cons)
  next
    case False
    have l: "i < length (rows (add_column a (CStr []) df))"
      using Cons.prems by (simp add: add_column_def)
    show ?thesis
      using False Cons.prems Cons.IH[OF l]
      by (auto simp: add_missing_Cons add_column_def)
  qed
qed

lemma add_missing_id: "set cs \<subseteq> set (columns df) \<Longrightarrow> add_missing cs df = df"
  by (induction cs arbitrary: df) (auto simp: add_missing_Cons)

lemma ensure_df_schema_alt:
  "ensure_df_schema df =
     select_columns (COLUMNS @ filter (\<lambda>c. c \<notin> set COLUMNS) (columns df)) (add_missing COLUMNS df)"
  by (simp add: ensure_df_schema_def Let_def add_missing_def[symmetric] add_missing_extras)

lemma ensure_columns:
  "columns (ensure_df_schema df) = COLUMNS @ filter (\<lambda>c. c \<notin> set COLUMNS) (columns df)"
  by (simp add: ensure_df_schema_alt select_columns_def)

lemma ensure_length: "length (rows (ensure_df_schema df)) = length (rows df)"
  by (simp add: ensure_df_schema_alt select_columns_def add_missing_length)

lemma ensure_cell:
  "i < length (rows df) \<Longrightarrow>
     (rows (ensure_df_schema df) ! i) c =
       (if c \<in> set COLUMNS \<and> c \<notin> set (columns df) then Some (CStr [])
        else if c \<in> set (columns df) then (rows df ! i) c else None)"
  by (auto simp: ensure_df_schema_alt select_columns_def add_missing_length add_missing_cell
      restrict_map_def)

lemma restrict_dom_id:
  assumes "dom r \<subseteq> S"
  shows "r |` S = r"
proof (rule ext)
  fix x
  show "(r |` S) x = r x"
    using assms by (cases "r x") (auto simp: restrict_map_def)
qed

lemma ensure_fix:
  assumes "canonical_frame df"
  shows "ensure_df_schema df = df"
proof -
  from assms have c: "columns df = COLUMNS @ filter (\<lambda>c. c \<notin> set COLUMNS) (columns df)"
    and s: "set COLUMNS \<subseteq> set (columns df)"
    and r: "list_all (\<lambda>r. dom r \<subseteq> set (columns df)) (rows df)"
    by (simp_all add: canonical_frame_def)
  have "map (\<lambda>r. r |` set (columns df)) (rows df) = rows df"
    using r by (intro map_idI) (simp add: list_all_iff restrict_dom_id)
  then have "map (\<lambda>r. r |` set (COLUMNS @ filter (\<lambda>c. c \<notin> set COLUMNS) (columns df))) (rows df) = rows df"
    using c by simp
  then show ?thesis
    using c by (simp add: ensure_df_schema_alt add_missing_id[OF s] select_columns_def)
qed

lemma ensure_canonical: "canonical_frame (ensure_df_schema df)"
proof -
  have "filter (\<lambda>c. c \<notin> set COLUMNS) (COLUMNS @ filter (\<lambda>c. c \<notin> set COLUMNS) (columns df))
      = filter (\<lambda>c. c \<notin> set COLUMNS) (columns df)"
    by simp
  then show ?thesis
    by (auto simp: canonical_frame_def ensure_columns list_all_iff ensure_df_schema_alt select_columns_def)
qed

lemma ensure_idem: "ensure_df_schema (ensure_df_schema df) = ensure_df_schema df"
  by (rule ensure_fix[OF ensure_canonical])

lemma resolve_workbooks: "workbooks (snd (resolve_month_path E filename w)) = workbooks w"
  by (simp add: resolve_month_path_def now_def split: option.splits prod.splits)

lemma ensure_empty: "ensure_df_schema (empty_frame cs) = empty_frame (COLUMNS @ filter (\<lambda>c. c \<notin> set COLUMNS) cs)"
proof -
  have "length (rows (add_missing COLUMNS (empty_frame cs))) = 0"
    by (simp add: add_missing_length empty_frame_def)
  then have "rows (add_missing COLUMNS (empty_frame cs)) = []" by simp
  then show ?thesis
    by (simp add: ensure_df_schema_alt select_columns_def empty_frame_def)
qed

lemma excel_read_columns [simp]: "columns (excel_read E d) = columns d"
  by (simp add: excel_read_def)

lemma excel_read_length [simp]: "length (rows (excel_read E d)) = length (rows d)"
  by (simp add: excel_read_def)

lemma excel_read_cell:
  "i < length (rows d) \<Longrightarrow>
     (rows (excel_read E d) ! i) c =
       (if c \<in> set (columns d)
        then Some (if i < length (excel_column E (column_cells c d))
                   then excel_column E (column_cells c d) ! i else CNaN)
        else None)"
  by (simp add: excel_read_def Let_def)

lemma excel_read_empty [simp]: "excel_read E (empty_frame cs) = empty_frame cs"
  by (simp add: excel_read_def empty_frame_def)

lemma column_cells_length [simp]: "length (column_cells c d) = length (rows d)"
  by (simp add: column_cells_def)

lemma column_cells_nth: "i < length (rows d) \<Longrightarrow> column_cells c d ! i = cell_at (rows d ! i) c"
  by (simp add: column_cells_def)

lemma reader_length: "reader_ok E \<Longrightarrow> length (excel_column E xs) = length xs"
  by (simp add: reader_ok_def)

lemma reader_idem: "reader_ok E \<Longrightarrow> excel_column E (excel_column E xs) = excel_column E xs"
  by (simp add: reader_ok_def)

lemma reader_blank: "reader_ok E \<Longrightarrow> excel_column E (replicate n (CStr [])) = replicate n CNaN"
  by (simp add: reader_ok_def)

lemma column_cells_read:
  assumes "reader_ok E" and "c \<in> set (columns d)"
  shows "column_cells c (excel_read E d) = excel_column E (column_cells c d)"
proof (rule nth_equalityI)
  show "length (column_cells c (excel_read E d)) = length (excel_column E (column_cells c d))"
    by (simp add: reader_length[OF assms(1)])
next
  fix i assume "i < length (column_cells c (excel_read E d))"
  then have i: "i < length (rows d)" by simp
  then show "column_cells c (excel_read E d) ! i = excel_column E (column_cells c d) ! i"
    using assms(2)
    by (simp add: column_cells_nth excel_read_cell cell_at_def reader_length[OF assms(1)])
qed

lemma column_cells_ensure_old:
  assumes "c \<in> set (columns d)"
  shows "column_cells c (ensure_df_schema d) = column_cells c d"
proof (rule nth_equalityI)
  show "length (column_cells c (ensure_df_schema d)) = length (column_cells c d)"
    by (simp add: ensure_length)
next
  fix i assume "i < length (column_cells c (ensure_df_schema d))"
  then have i: "i < length (rows d)" by (simp add: ensure_length)
  then show "column_cells c (ensure_df_schema d) ! i = column_cells c d ! i"
    using assms by (simp add: column_cells_nth ensure_length cell_at_def ensure_cell)
qed

lemma column_cells_ensure_new:
  assumes "c \<in> set COLUMNS" and "c \<notin> set (columns d)"
  shows "column_cells c (ensure_df_schema d) = replicate (length (rows d)) (CStr [])"
proof (rule nth_equalityI)
  show "length (column_cells c (ensure_df_schema d)) = length (replicate (length (rows d)) (CStr []))"
    by (simp add: ensure_length)
next
  fix i assume "i < length (column_cells c (ensure_df_schema d))"
  then have i: "i < length (rows d)" by (simp add: ensure_length)
  then show "column_cells c (ensure_df_schema d) ! i = replicate (length (rows d)) (CStr []) ! i"
    using assms by (simp add: column_cells_nth ensure_length cell_at_def ensure_cell)
qed

lemma table_on_disk_stable:
  assumes "reader_ok E" and "c \<in> set (columns (table_on_disk E w path))"
  shows "excel_column E (column_cells c (table_on_disk E w path)) = column_cells c (table_on_disk E w path)"
    and "i < length (rows (table_on_disk E w path)) \<Longrightarrow>
           (rows (table_on_disk E w path) ! i) c = Some (cell_at (rows (table_on_disk E w path) ! i) c)"
proof -
  show "excel_column E (column_cells c (table_on_disk E w path)) = column_cells c (table_on_disk E w path)"
  proof (cases "workbooks w path")
    case None
    with assms(2) show ?thesis by (simp add: table_on_disk_def empty_frame_def)
  next
    case (Some f)
    show ?thesis
    proof (cases f)
      case (Workbook d)
      with Some assms(2) have c: "c \<in> set (columns d)" by (simp add: table_on_disk_def)
      show ?thesis
        using Some Workbook
        by (simp add: table_on_disk_def column_cells_read[OF assms(1) c] reader_idem[OF assms(1)])
    next
      case (Unreadable b)
      with Some assms(2) show ?thesis by (simp add: table_on_disk_def empty_frame_def)
    qed
  qed
next
  assume i: "i < length (rows (table_on_disk E w path))"
  show "(rows (table_on_disk E w path) ! i) c = Some (cell_at (rows (table_on_disk E w path) ! i) c)"
  proof (cases "workbooks w path")
    case None
    with assms(2) show ?thesis by (simp add: table_on_disk_def empty_frame_def)
  next
    case (Some f)
    show ?thesis
    proof (cases f)
      case (Workbook d)
      with Some assms(2) have c: "c \<in> set (columns d)" by (simp add: table_on_disk_def)
      from i Some Workbook have i': "i < length (rows d)" by (simp add: table_on_disk_def)
      show ?thesis
        using Some Workbook c i'
        by (simp add: table_on_disk_def excel_read_cell cell_at_def)
    next
      case (Unreadable b)
      with Some assms(2) show ?thesis by (simp add: table_on_disk_def empty_frame_def)
    qed
  qed
qed

lemma get_df_readable:
  assumes p: "resolve_month_path E filename w = (path, w1)"
    and r: "\<forall>b. workbooks w path \<noteq> Some (Unreadable b)"
  shows "get_df E filename w =
     (Inr (ensure_df_schema (excel_read E (ensure_df_schema (table_on_disk E w path))), basename path),
      to_excel path (ensure_df_schema (table_on_disk E w path)) w1)"
proof -
  have wb: "workbooks w1 = workbooks w" using resolve_workbooks[of E filename w] p by simp
  show ?thesis
  proof (cases "workbooks w path")
    case None
    then show ?thesis
      by (simp add: get_df_def p ensure_excel_file_def wb read_excel_def to_excel_def
          table_on_disk_def ensure_empty)
  next
    case (Some f)
    with r obtain d where d: "f = Workbook d" by (cases f) auto
    show ?thesis
      by (simp add: get_df_def p ensure_excel_file_def wb read_excel_def to_excel_def
          table_on_disk_def Some d)
  qed
qed

lemma get_df_loaded:
  assumes ok: "reader_ok E"
    and p: "resolve_month_path E filename w = (path, w1)"
    and r: "\<forall>b. workbooks w path \<noteq> Some (Unreadable b)"
  shows "\<exists>df. get_df E filename w
          = (Inr (df, basename path), to_excel path (ensure_df_schema (table_on_disk E w path)) w1)
     \<and> columns df = COLUMNS @ filter (\<lambda>c. c \<notin> set COLUMNS) (columns (table_on_disk E w path))
     \<and> length (rows df) = length (rows (table_on_disk E w path))
     \<and> (\<forall>i<length (rows (table_on_disk E w path)). \<forall>c\<in>set (columns (table_on_disk E w path)).
           (rows df ! i) c = (rows (table_on_disk E w path) ! i) c)
     \<and> (\<forall>i<length (rows (table_on_disk E w path)). \<forall>c\<in>set COLUMNS.
           c \<notin> set (columns (table_on_disk E w path)) \<longrightarrow> (rows df ! i) c = Some CNaN)"
proof -
  let ?d = "table_on_disk E w path"
  let ?d2 = "excel_read E (ensure_df_schema ?d)"
  let ?df = "ensure_df_schema ?d2"
  have c2: "columns ?d2 = COLUMNS @ filter (\<lambda>c. c \<notin> set COLUMNS) (columns ?d)"
    by (simp add: ensure_columns)
  have cols: "columns ?df = COLUMNS @ filter (\<lambda>c. c \<notin> set COLUMNS) (columns ?d)"
    by (simp add: ensure_columns)
  have len: "length (rows ?df) = length (rows ?d)"
    by (simp add: ensure_length)
  have old: "\<forall>i<length (rows ?d). \<forall>c\<in>set (columns ?d). (rows ?df ! i) c = (rows ?d ! i) c"
  proof (intro allI impI ballI)
    fix i c assume i: "i < length (rows ?d)" and c: "c \<in> set (columns ?d)"
    have cc: "c \<in> set (columns (ensure_df_schema ?d))" using c by (auto simp: ensure_columns)
    have i2: "i < length (rows ?d2)" using i by (simp add: ensure_length)
    have i1: "i < length (rows (ensure_df_schema ?d))" using i by (simp add: ensure_length)
    have ys: "excel_column E (column_cells c (ensure_df_schema ?d)) = column_cells c ?d"
      by (simp add: column_cells_ensure_old[OF c] table_on_disk_stable(1)[OF ok c])
    have "(rows ?df ! i) c = (rows ?d2 ! i) c"
      using cc by (simp add: ensure_cell[OF i2])
    also have "\<dots> = Some (column_cells c ?d ! i)"
      using cc i by (simp add: excel_read_cell[OF i1] ys)
    also have "\<dots> = (rows ?d ! i) c"
      using table_on_disk_stable(2)[OF ok c i] by (simp add: column_cells_nth[OF i])
    finally show "(rows ?df ! i) c = (rows ?d ! i) c" .
  qed
  have new: "\<forall>i<length (rows ?d). \<forall>c\<in>set COLUMNS. c \<notin> set (columns ?d) \<longrightarrow> (rows ?df ! i) c = Some CNaN"
  proof (intro allI impI ballI)
    fix i c assume i: "i < length (rows ?d)" and c: "c \<in> set COLUMNS" and n: "c \<notin> set (columns ?d)"
    have cc: "c \<in> set (columns (ensure_df_schema ?d))" using c by (auto simp: ensure_columns)
    have i2: "i < length (rows ?d2)" using i by (simp add: ensure_length)
    have i1: "i < length (rows (ensure_df_schema ?d))" using i by (simp add: ensure_length)
    have ys: "excel_column E (column_cells c (ensure_df_schema ?d)) = replicate (length (rows ?d)) CNaN"
      by (simp add: column_cells_ensure_new[OF c n] reader_blank[OF ok])
    have "(rows ?df ! i) c = (rows ?d2 ! i) c"
      using cc by (simp add: ensure_cell[OF i2])
    also have "\<dots> = Some CNaN"
      using cc i by (simp add: excel_read_cell[OF i1] ys)
    finally show "(rows ?df ! i) c = Some CNaN" .
  qed
  show ?thesis
    unfolding get_df_readable[OF p r]
    using cols len old new by blast
qed

lemma splitext_append: "fst (splitext p) @ snd (splitext p) = p"
  by (simp add: splitext_def Let_def)

lemma rescue_differs:
  "fst (splitext p) @ ''_RESCUE_'' @ ts @ snd (splitext p) \<noteq> p"
proof
  assume "fst (splitext p) @ ''_RESCUE_'' @ ts @ snd (splitext p) = p"
  then have "length (fst (splitext p) @ ''_RESCUE_'' @ ts @ snd (splitext p)) = length p" by simp
  moreover have "length p = length (fst (splitext p)) + length (snd (splitext p))"
    using splitext_append[of p] by (metis length_append)
  ultimately show False by simp
qed

lemma get_df_unreadable:
  assumes p: "resolve_month_path E filename w = (path, w1)"
    and u: "workbooks w path = Some (Unreadable b)"
  shows "\<exists>w' rescue. get_df E filename w = (Inl ParseError, w')
     \<and> rescue = fst (splitext path) @ ''_RESCUE_'' @ strftime_rescue (clock E (clock_reads w1))
                  @ snd (splitext path)
     \<and> rescue \<noteq> path
     \<and> workbooks w' = (workbooks w)(rescue \<mapsto> Workbook (empty_frame COLUMNS))
     \<and> workbooks w' path = Some (Unreadable b)"
proof -
  have wb: "workbooks w1 = workbooks w" using resolve_workbooks[of E filename w] p by simp
  obtain base ext where se: "splitext path = (base, ext)" by (cases "splitext path")
  let ?rescue = "base @ ''_RESCUE_'' @ strftime_rescue (clock E (clock_reads w1)) @ ext"
  have ne: "?rescue \<noteq> path"
    using rescue_differs[of path "strftime_rescue (clock E (clock_reads w1))"] se by simp
  have e: "ensure_excel_file E path w1 =
      to_excel ?rescue (empty_frame COLUMNS) (w1\<lparr>clock_reads := Suc (clock_reads w1)\<rparr>)"
    using u by (simp add: ensure_excel_file_def wb read_excel_def se now_def)
  have g: "get_df E filename w = (Inl ParseError, ensure_excel_file E path w1)"
    using u ne by (simp add: get_df_def p e read_excel_def to_excel_def wb)
  show ?thesis
    using u ne by (simp add: g e to_excel_def wb se)
qed

text \<open>
  C2 (as amended).  \<open>ensure_df_schema\<close> itself puts the empty string into every row of a
  canonical column that a table lacks.  Let the reader of workbooks keep the length of a
  column, give back unchanged a column it has itself read, and read a column of blanks
  as NaN.  Then a load of a month file that is missing or parses returns a table whose
  columns are the canonical schema, in its order, followed by the other columns of the
  file in theirs; the set of its columns is the canonical ones united with the file's.
  The rows are the rows of the file as read: every cell of a column the file had is kept,
  and a canonical column the file lacked holds NaN in every row, because the load reads
  back the file \<open>ensure_excel_file\<close> has just rewritten.
\<close>

theorem get_df_schema:
  assumes "reader_ok E"
    and "\<forall>b. workbooks w (fst (resolve_month_path E filename w)) \<noteq> Some (Unreadable b)"
  shows "(\<forall>d0. \<forall>i<length (rows d0). \<forall>c\<in>set COLUMNS. c \<notin> set (columns d0) \<longrightarrow>
            (rows (ensure_df_schema d0) ! i) c = Some (CStr []))
     \<and> (\<exists>df name w'. get_df E filename w = (Inr (df, name), w')
         \<and> (let d = table_on_disk E w (fst (resolve_month_path E filename w))
            in columns df = COLUMNS @ filter (\<lambda>c. c \<notin> set COLUMNS) (columns d)
             \<and> set (columns df) = set COLUMNS \<union> set (columns d)
             \<and> length (rows df) = length (rows d)
             \<and> (\<forall>i<length (rows d). \<forall>c\<in>set (columns d). (rows df ! i) c = (rows d ! i) c)
             \<and> (\<forall>i<length (rows d). \<forall>c\<in>set COLUMNS. c \<notin> set (columns d) \<longrightarrow>
                   (rows df ! i) c = Some CNaN)))"
proof
  show "\<forall>d0. \<forall>i<length (rows d0). \<forall>c\<in>set COLUMNS. c \<notin> set (columns d0) \<longrightarrow>
            (rows (ensure_df_schema d0) ! i) c = Some (CStr [])"
    by (simp add: ensure_cell)
next
  obtain path w1 where p: "resolve_month_path E filename w = (path, w1)"
    by (cases "resolve_month_path E filename w")
  from assms(2) p have r: "\<forall>b. workbooks w path \<noteq> Some (Unreadable b)" by simp
  from get_df_loaded[OF assms(1) p r] obtain df where
    g: "get_df E filename w
          = (Inr (df, basename path), to_excel path (ensure_df_schema (table_on_disk E w path)) w1)"
    and c: "columns df = COLUMNS @ filter (\<lambda>c. c \<notin> set COLUMNS) (columns (table_on_disk E w path))"
    and l: "length (rows df) = length (rows (table_on_disk E w path))"
    and k: "\<forall>i<length (rows (table_on_disk E w path)). \<forall>c\<in>set (columns (table_on_disk E w path)).
           (rows df ! i) c = (rows (table_on_disk E w path) ! i) c"
    and m: "\<forall>i<length (rows (table_on_disk E w path)). \<forall>c\<in>set COLUMNS.
           c \<notin> set (columns (table_on_disk E w path)) \<longrightarrow> (rows df ! i) c = Some CNaN"
    by blast
  have s: "set (columns df) = set COLUMNS \<union> set (columns (table_on_disk E w path))"
    unfolding c by auto
  show "\<exists>df name w'. get_df E filename w = (Inr (df, name), w')
         \<and> (let d = table_on_disk E w (fst (resolve_month_path E filename w))
            in columns df = COLUMNS @ filter (\<lambda>c. c \<notin> set COLUMNS) (columns d)
             \<and> set (columns df) = set COLUMNS \<union> set (columns d)
             \<and> length (rows df) = length (rows d)
             \<and> (\<forall>i<length (rows d). \<forall>c\<in>set (columns d). (rows df ! i) c = (rows d ! i) c)
             \<and> (\<forall>i<length (rows d). \<forall>c\<in>set COLUMNS. c \<notin> set (columns d) \<longrightarrow>
                   (rows df ! i) c = Some CNaN))"
    unfolding p Let_def fst_conv
    using g c s l k m by blast
qed

lemma ex_resolve:
  "resolve_month_path ex_env (Some ''tool_life_data_2026_01.xlsx'') w
     = (''data/tool_life_data_2026_01.xlsx'', w)"
  by (simp add: resolve_month_path_def path_join_def ex_env_def)

lemma ex_splitext:
  "splitext ''data/tool_life_data_2026_01.xlsx'' = (''data/tool_life_data_2026_01'', ''.xlsx'')"
  by (simp add: splitext_def basename_def Let_def)

lemma ex_rescue_stamp: "strftime_rescue (clock ex_env 0) = ''20260115_083000''"
  by (simp add: strftime_rescue_def four_digits_def two_digits_def ex_env_def digit_char_simps)

text \<open>
  C1: for a month file that exists and does not parse, the load should hand back a table
  with the canonical columns, beside a new rescue file and the untouched original.
  \<open>ensure_excel_file\<close> does write the rescue file and leaves the original alone, but
  \<open>get_df\<close> then reads the original path again, so the exception it has just caught is
  raised a second time and reaches the caller: no table is returned.  Here on the file
  \<open>data/tool_life_data_2026_01.xlsx\<close>.
\<close>

theorem get_df_unreadable_raises:
  "fst (get_df ex_env (Some ''tool_life_data_2026_01.xlsx'')
         (ex_disk [(''data/tool_life_data_2026_01.xlsx'', Unreadable ''not a workbook'')]))
     = Inl ParseError
   \<and> workbooks (snd (get_df ex_env (Some ''tool_life_data_2026_01.xlsx'')
         (ex_disk [(''data/tool_life_data_2026_01.xlsx'', Unreadable ''not a workbook'')])))
       ''data/tool_life_data_2026_01.xlsx'' = Some (Unreadable ''not a workbook'')
   \<and> workbooks (snd (get_df ex_env (Some ''tool_life_data_2026_01.xlsx'')
         (ex_disk [(''data/tool_life_data_2026_01.xlsx'', Unreadable ''not a workbook'')])))
       ''data/tool_life_data_2026_01_RESCUE_20260115_083000.xlsx'' = Some (Workbook (empty_frame COLUMNS))"
proof -
  let ?w = "ex_disk [(''data/tool_life_data_2026_01.xlsx'', Unreadable ''not a workbook'')]"
  have u: "workbooks ?w ''data/tool_life_data_2026_01.xlsx'' = Some (Unreadable ''not a workbook'')"
    by (simp add: ex_disk_def)
  have c: "clock_reads ?w = 0" by (simp add: ex_disk_def)
  from get_df_unreadable[OF ex_resolve u, of ] show ?thesis
    by (auto simp: ex_splitext ex_rescue_stamp c)
qed

lemma COLUMNS_mem:
  "''ID'' \<in> set COLUMNS" "''Quality_Verified'' \<in> set COLUMNS" "''Quality_User'' \<in> set COLUMNS"
  "''Quality_Time'' \<in> set COLUMNS" "''Leader_Sign'' \<in> set COLUMNS" "''Leader_User'' \<in> set COLUMNS"
  "''Leader_Time'' \<in> set COLUMNS" "''Note'' \<notin> set COLUMNS"
  by (simp_all add: COLUMNS_def)

lemma ex_reader_ok: "reader_ok ex_env"
proof -
  have "\<And>xs. map (\<lambda>c. if c = CStr [] then CNaN else c) (map (\<lambda>c. if c = CStr [] then CNaN else c) xs)
      = map (\<lambda>c. if c = CStr [] then CNaN else c) xs"
    by (induct_tac xs) simp_all
  then show ?thesis
    by (simp add: reader_ok_def ex_env_def)
qed

lemma ex_read_cell:
  "i < length (rows d) \<Longrightarrow> c \<in> set (columns d) \<Longrightarrow>
     (rows (excel_read ex_env d) ! i) c
       = Some (if cell_at (rows d ! i) c = CStr [] then CNaN else cell_at (rows d ! i) c)"
  using reader_length[OF ex_reader_ok, of "column_cells c d"]
  by (simp add: excel_read_cell) (simp add: ex_env_def column_cells_def)

lemma ex_legacy_loaded:
  "\<exists>df. get_df ex_env (Some ''tool_life_data_2026_01.xlsx'')
          (ex_disk [(''data/tool_life_data_2026_01.xlsx'', Workbook ex_legacy)])
        = (Inr (df, basename ''data/tool_life_data_2026_01.xlsx''),
           to_excel ''data/tool_life_data_2026_01.xlsx''
             (ensure_df_schema (excel_read ex_env ex_legacy))
             (ex_disk [(''data/tool_life_data_2026_01.xlsx'', Workbook ex_legacy)]))
     \<and> (rows df ! 0) ''Quality_Verified'' = Some CNaN"
proof -
  let ?w = "ex_disk [(''data/tool_life_data_2026_01.xlsx'', Workbook ex_legacy)]"
  have r: "\<forall>b. workbooks ?w ''data/tool_life_data_2026_01.xlsx'' \<noteq> Some (Unreadable b)"
    by (simp add: ex_disk_def)
  have t: "table_on_disk ex_env ?w ''data/tool_life_data_2026_01.xlsx'' = excel_read ex_env ex_legacy"
    by (simp add: ex_disk_def table_on_disk_def)
  from get_df_loaded[OF ex_reader_ok ex_resolve r] obtain df where
    g: "get_df ex_env (Some ''tool_life_data_2026_01.xlsx'') ?w
        = (Inr (df, basename ''data/tool_life_data_2026_01.xlsx''),
           to_excel ''data/tool_life_data_2026_01.xlsx''
             (ensure_df_schema (excel_read ex_env ex_legacy)) ?w)"
    and m: "\<forall>i<length (rows (excel_read ex_env ex_legacy)). \<forall>c\<in>set COLUMNS.
           c \<notin> set (columns (excel_read ex_env ex_legacy)) \<longrightarrow> (rows df ! i) c = Some CNaN"
    unfolding t by blast
  have "(rows df ! 0) ''Quality_Verified'' = Some CNaN"
    using m COLUMNS_mem(2) by (simp add: ex_legacy_def)
  with g show ?thesis by blast
qed

text \<open>
  C2 as stated fails in its last clause.  The month file holds a table with the columns
  \<open>Note\<close> and \<open>ID\<close> and one row; the reader gives NaN for a blank cell.  The table the
  load returns has NaN, not the empty string, in the canonical column \<open>Quality_Verified\<close>
  that the file lacked.
\<close>

theorem get_df_blank_counterexample:
  "''Quality_Verified'' \<in> set COLUMNS
   \<and> ''Quality_Verified'' \<notin> set (columns ex_legacy)
   \<and> excel_column ex_env [CStr []] = [CNaN]
   \<and> (\<exists>df name w'. get_df ex_env (Some ''tool_life_data_2026_01.xlsx'')
          (ex_disk [(''data/tool_life_data_2026_01.xlsx'', Workbook ex_legacy)]) = (Inr (df, name), w')
        \<and> (rows df ! 0) ''Quality_Verified'' = Some CNaN
        \<and> (rows df ! 0) ''Quality_Verified'' \<noteq> Some (CStr []))"
proof -
  have a: "''Quality_Verified'' \<notin> set (columns ex_legacy)" by (simp add: ex_legacy_def)
  have b: "excel_column ex_env [CStr []] = [CNaN]" by (simp add: ex_env_def)
  from ex_legacy_loaded obtain df name w' where
    "get_df ex_env (Some ''tool_life_data_2026_01.xlsx'')
          (ex_disk [(''data/tool_life_data_2026_01.xlsx'', Workbook ex_legacy)]) = (Inr (df, name), w')"
    "(rows df ! 0) ''Quality_Verified'' = Some CNaN"
    by blast
  then have "\<exists>df name w'. get_df ex_env (Some ''tool_life_data_2026_01.xlsx'')
          (ex_disk [(''data/tool_life_data_2026_01.xlsx'', Workbook ex_legacy)]) = (Inr (df, name), w')
        \<and> (rows df ! 0) ''Quality_Verified'' = Some CNaN
        \<and> (rows df ! 0) ''Quality_Verified'' \<noteq> Some (CStr [])"
    by auto
  with a b COLUMNS_mem(2) show ?thesis by blast
qed

theorem get_df_schema_witness:
  "reader_ok ex_env
   \<and> (\<forall>b. workbooks (ex_disk [(''data/tool_life_data_2026_01.xlsx'', Workbook ex_legacy)])
          (fst (resolve_month_path ex_env (Some ''tool_life_data_2026_01.xlsx'')
             (ex_disk [(''data/tool_life_data_2026_01.xlsx'', Workbook ex_legacy)])))
        \<noteq> Some (Unreadable b))
   \<and> (rows (ensure_df_schema ex_legacy) ! 0) ''Quality_Verified'' = Some (CStr [])
   \<and> (\<exists>df name w'. get_df ex_env (Some ''tool_life_data_2026_01.xlsx'')
          (ex_disk [(''data/tool_life_data_2026_01.xlsx'', Workbook ex_legacy)]) = (Inr (df, name), w')
        \<and> columns df = COLUMNS @ [''Note'']
        \<and> length (rows df) = 1
        \<and> (rows df ! 0) ''Note'' = Some (CStr ''first'')
        \<and> (rows df ! 0) ''ID'' = Some (CStr ''20260115-083000-0000'')
        \<and> (rows df ! 0) ''Quality_Verified'' = Some CNaN)"
proof -
  let ?w = "ex_disk [(''data/tool_life_data_2026_01.xlsx'', Workbook ex_legacy)]"
  let ?d = "excel_read ex_env ex_legacy"
  have h: "\<forall>b. workbooks ?w (fst (resolve_month_path ex_env (Some ''tool_life_data_2026_01.xlsx'') ?w))
        \<noteq> Some (Unreadable b)"
    by (simp add: ex_resolve ex_disk_def)
  have t: "table_on_disk ex_env ?w (fst (resolve_month_path ex_env (Some ''tool_life_data_2026_01.xlsx'') ?w))
       = ?d"
    by (simp add: ex_resolve ex_disk_def table_on_disk_def)
  note F = get_df_schema[OF ex_reader_ok h]
  have e: "(rows (ensure_df_schema ex_legacy) ! 0) ''Quality_Verified'' = Some (CStr [])"
    using F[THEN conjunct1, rule_format, of 0 ex_legacy "''Quality_Verified''"] COLUMNS_mem(2)
    by (simp add: ex_legacy_def)
  from F[THEN conjunct2] obtain df name w' where
    g: "get_df ex_env (Some ''tool_life_data_2026_01.xlsx'') ?w = (Inr (df, name), w')"
    and c: "columns df = COLUMNS @ filter (\<lambda>c. c \<notin> set COLUMNS) (columns ?d)"
    and l: "length (rows df) = length (rows ?d)"
    and k: "\<forall>i<length (rows ?d). \<forall>c\<in>set (columns ?d). (rows df ! i) c = (rows ?d ! i) c"
    and m: "\<forall>i<length (rows ?d). \<forall>c\<in>set COLUMNS. c \<notin> set (columns ?d) \<longrightarrow>
               (rows df ! i) c = Some CNaN"
    unfolding t Let_def by blast
  have c': "columns df = COLUMNS @ [''Note'']"
    using c by (simp add: ex_legacy_def COLUMNS_mem)
  have l': "length (rows df) = 1" using l by (simp add: ex_legacy_def)
  have r1: "(rows ?d ! 0) ''Note'' = Some (CStr ''first'')"
    by (simp add: ex_read_cell ex_legacy_def cell_at_def)
  have r2: "(rows ?d ! 0) ''ID'' = Some (CStr ''20260115-083000-0000'')"
    by (simp add: ex_read_cell ex_legacy_def cell_at_def)
  have k1: "(rows df ! 0) ''Note'' = Some (CStr ''first'')"
    using k r1 by (simp add: ex_legacy_def)
  have k2: "(rows df ! 0) ''ID'' = Some (CStr ''20260115-083000-0000'')"
    using k r2 by (simp add: ex_legacy_def)
  have k3: "(rows df ! 0) ''Quality_Verified'' = Some CNaN"
    using m COLUMNS_mem(2) by (simp add: ex_legacy_def)
  from ex_reader_ok h e g c' l' k1 k2 k3 show ?thesis by blast
qed

section \<open>Properties of the workflows\<close>

lemma digit_value_digit_char: "d < 10 \<Longrightarrow> digit_value (digit_char d) = Some d"
  by (simp add: digit_value_def digit_char_def Let_def)

lemma two_digit_sum: "n < 100 \<Longrightarrow> 10 * (n div 10 mod 10) + n mod 10 = (n::nat)"
proof -
  assume n: "n < 100"
  have "n mod (10 * 10) = 10 * (n div 10 mod 10) + n mod 10" by (rule mod_mult2_eq)
  with n show ?thesis by simp
qed

lemma four_digit_sum: "n < 10000 \<Longrightarrow>
   10 * (10 * (10 * (n div 1000 mod 10) + n div 100 mod 10) + n div 10 mod 10) + n mod 10 = (n::nat)"
proof -
  assume n: "n < 10000"
  have a: "n mod (10 * 1000) = 10 * (n div 10 mod 1000) + n mod 10" by (rule mod_mult2_eq)
  have b: "(n div 10) mod (10 * 100) = 10 * (n div 10 div 10 mod 100) + n div 10 mod 10" by (rule mod_mult2_eq)
  have c: "(n div 10 div 10) mod (10 * 10) = 10 * (n div 10 div 10 div 10 mod 10) + n div 10 div 10 mod 10"
    by (rule mod_mult2_eq)
  have d: "n div 10 div 10 = n div 100" "n div 100 div 10 = n div 1000"
    by (simp_all add: div_mult2_eq[symmetric])
  from a b c n show ?thesis by (simp add: d)
qed

lemma parse_two_digits: "n < 100 \<Longrightarrow> parse_digits 0 (two_digits n) = Some n"
proof -
  assume n: "n < 100"
  have a: "digit_value (digit_char (n div 10 mod 10)) = Some (n div 10 mod 10)"
    "digit_value (digit_char (n mod 10)) = Some (n mod 10)"
    by (rule digit_value_digit_char, simp)+
  have e: "10 * (n div 10 mod 10) + n mod 10 = n" using n by (rule two_digit_sum)
  have "parse_digits 0 (two_digits n) = Some (10 * (10 * 0 + n div 10 mod 10) + n mod 10)"
    unfolding two_digits_def by (simp only: parse_digits.simps a option.case)
  also have "\<dots> = Some (10 * (n div 10 mod 10) + n mod 10)" by (simp only: mult_0_right add_0)
  finally show ?thesis by (simp only: e)
qed

lemma parse_four_digits: "n < 10000 \<Longrightarrow> parse_digits 0 (four_digits n) = Some n"
proof -
  assume n: "n < 10000"
  have a: "digit_value (digit_char (n div 1000 mod 10)) = Some (n div 1000 mod 10)"
    "digit_value (digit_char (n div 100 mod 10)) = Some (n div 100 mod 10)"
    "digit_value (digit_char (n div 10 mod 10)) = Some (n div 10 mod 10)"
    "digit_value (digit_char (n mod 10)) = Some (n mod 10)"
    by (rule digit_value_digit_char, simp)+
  have e: "10 * (10 * (10 * (n div 1000 mod 10) + n div 100 mod 10) + n div 10 mod 10) + n mod 10 = n"
    using n by (rule four_digit_sum)
  have "parse_digits 0 (four_digits n) =
      Some (10 * (10 * (10 * (10 * 0 + n div 1000 mod 10) + n div 100 mod 10) + n div 10 mod 10) + n mod 10)"
    unfolding four_digits_def by (simp only: parse_digits.simps a option.case)
  also have "\<dots> = Some (10 * (10 * (10 * (n div 1000 mod 10) + n div 100 mod 10) + n div 10 mod 10) + n mod 10)"
    by (simp only: mult_0_right add_0)
  finally show ?thesis by (simp only: e)
qed

lemma days_in_month_le: "days_in_month y m \<le> 31"
  by (simp add: days_in_month_def)

lemma parse_strftime_iso:
  assumes "valid_datetime t"
  shows "parse_timestamp (strftime_iso t) = Some t"
proof -
  from assms have b: "year t < 10000" "month t < 100" "day t < 100" "hour t < 100"
    "minute t < 100" "second t < 100"
    using days_in_month_le[of "year t" "month t"] by (simp_all add: valid_datetime_def)
  have s: "strftime_iso t = four_digits (year t) @ CHR ''-'' # two_digits (month t) @ CHR ''-'' #
      two_digits (day t) @ CHR '' '' # two_digits (hour t) @ CHR '':'' # two_digits (minute t)
      @ CHR '':'' # two_digits (second t)"
    by (simp add: strftime_iso_def strftime_date_def strftime_time_def)
  have l4: "length (four_digits (year t)) = 4" by (simp add: four_digits_def)
  have l2: "\<And>n. length (two_digits n) = 2" by (simp add: two_digits_def)
  have f: "\<And>n. \<exists>a b c d. four_digits n = [a, b, c, d]" by (simp add: four_digits_def)
  have g: "\<And>n. \<exists>a b. two_digits n = [a, b]" by (simp add: two_digits_def)
  obtain y1 y2 y3 y4 where y: "four_digits (year t) = [y1, y2, y3, y4]" using f by blast
  obtain m1 m2 where m: "two_digits (month t) = [m1, m2]" using g by blast
  obtain d1 d2 where d: "two_digits (day t) = [d1, d2]" using g by blast
  obtain h1 h2 where h: "two_digits (hour t) = [h1, h2]" using g by blast
  obtain i1 i2 where i: "two_digits (minute t) = [i1, i2]" using g by blast
  obtain s1 s2 where se: "two_digits (second t) = [s1, s2]" using g by blast
  have p: "parse_digits 0 [y1, y2, y3, y4] = Some (year t)" "parse_digits 0 [m1, m2] = Some (month t)"
    "parse_digits 0 [d1, d2] = Some (day t)" "parse_digits 0 [h1, h2] = Some (hour t)"
    "parse_digits 0 [i1, i2] = Some (minute t)" "parse_digits 0 [s1, s2] = Some (second t)"
    using parse_four_digits[OF b(1)] parse_two_digits[OF b(2)] parse_two_digits[OF b(3)]
      parse_two_digits[OF b(4)] parse_two_digits[OF b(5)] parse_two_digits[OF b(6)]
    unfolding y m d h i se by simp_all
  show ?thesis
    unfolding s y m d h i se parse_timestamp_def
    using assms by (cases t) (simp add: p del: parse_digits.simps)
qed

lemma get_df_canonical:
  "get_df E filename w = (Inr (df, name), w') \<Longrightarrow> canonical_frame df"
  by (auto simp: get_df_def Let_def ensure_canonical split: prod.splits sum.splits)

lemma set_cells_columns [simp]: "columns (set_cells idx c v df) = columns df"
  by (simp add: set_cells_def)

lemma set_cells_length [simp]: "length (rows (set_cells idx c v df)) = length (rows df)"
  by (simp add: set_cells_def)

lemma set_cells_nth:
  "i < length (rows df) \<Longrightarrow>
     rows (set_cells idx c v df) ! i = (if i \<in> set idx then (rows df ! i)(c \<mapsto> v) else rows df ! i)"
  by (simp add: set_cells_def)

lemma set_cells_canonical:
  assumes "canonical_frame df" "c \<in> set (columns df)"
  shows "canonical_frame (set_cells idx c v df)"
proof -
  from assms(1) have r: "\<And>i. i < length (rows df) \<Longrightarrow> dom (rows df ! i) \<subseteq> set (columns df)"
    by (simp add: canonical_frame_def list_all_length)
  have "list_all (\<lambda>r. dom r \<subseteq> set (columns df)) (rows (set_cells idx c v df))"
    unfolding list_all_length
  proof (intro allI impI)
    fix i assume "i < length (rows (set_cells idx c v df))"
    then have i: "i < length (rows df)" by simp
    show "dom (rows (set_cells idx c v df) ! i) \<subseteq> set (columns df)"
      using r[OF i] assms(2) by (auto simp: set_cells_nth[OF i])
  qed
  with assms(1) show ?thesis
    by (simp add: canonical_frame_def)
qed

lemma loc_assign_accepted:
  "accepts_text E df c \<Longrightarrow> loc_assign E idx c v df = Inr (set_cells idx c v df)"
  by (simp add: loc_assign_def set_cells_def accepts_text_def)

lemma loc_assign_refused:
  "strict_setitem E \<Longrightarrow> numeric_column df c \<Longrightarrow> idx \<noteq> [] \<Longrightarrow>
     loc_assign E idx c (CStr s) df = Inl TypeError"
  by (simp add: loc_assign_def)

lemma numeric_set_cells_other:
  assumes "c' \<noteq> c"
  shows "numeric_column (set_cells idx c v df) c' = numeric_column df c'"
proof -
  have "\<And>i. i < length (rows df) \<Longrightarrow>
      cell_at (rows (set_cells idx c v df) ! i) c' = cell_at (rows df ! i) c'"
    using assms by (simp add: set_cells_nth cell_at_def)
  then show ?thesis
    by (simp add: numeric_column_def list_all_length)
qed

lemma accepts_set_cells_other:
  "c' \<noteq> c \<Longrightarrow> accepts_text E (set_cells idx c v df) c' = accepts_text E df c'"
  by (simp add: accepts_text_def numeric_set_cells_other)

lemma text_cell_accepts:
  "i < length (rows df) \<Longrightarrow> (rows df ! i) c = Some (CStr s) \<Longrightarrow> accepts_text E df c"
  by (auto simp: accepts_text_def numeric_column_def list_all_length cell_at_def)

lemma canonical_has_columns: "canonical_frame df \<Longrightarrow> c \<in> set COLUMNS \<Longrightarrow> c \<in> set (columns df)"
  by (auto simp: canonical_frame_def)

lemma resolve_some:
  "name \<noteq> [] \<Longrightarrow> resolve_month_path E (Some name) w = (path_join (DATA_DIR E) name, w)"
  by (simp add: resolve_month_path_def)

lemma save_df_canonical:
  "canonical_frame df \<Longrightarrow> name \<noteq> [] \<Longrightarrow>
     save_df E df name w = to_excel (path_join (DATA_DIR E) name) df w"
  by (simp add: save_df_def resolve_some ensure_fix)

lemma load_pending_after_save:
  assumes "name \<noteq> []"
  shows "load_pending E (Some name) (to_excel (path_join (DATA_DIR E) name) df w)
     = (Completed, to_excel (path_join (DATA_DIR E) name) (ensure_df_schema (excel_read E df)) w)"
proof -
  let ?p = "path_join (DATA_DIR E) name"
  let ?w = "to_excel ?p df w"
  have r: "resolve_month_path E (Some name) ?w = (?p, ?w)" by (rule resolve_some[OF assms])
  have u: "\<forall>b. workbooks ?w ?p \<noteq> Some (Unreadable b)" by (simp add: to_excel_def)
  have t: "table_on_disk E ?w ?p = excel_read E df" by (simp add: table_on_disk_def to_excel_def)
  have "to_excel ?p (ensure_df_schema (excel_read E df)) ?w
      = to_excel ?p (ensure_df_schema (excel_read E df)) w"
    by (simp add: to_excel_def)
  then show ?thesis
    by (simp add: load_pending_def get_df_readable[OF r u] t)
qed

lemma stamp_selected_effect:
  assumes g: "get_df E filename w = (Inr (df, name), w1)"
    and sel: "cell_truthy sel"
    and m: "matching_rows E df sel \<noteq> []"
    and nm: "name \<noteq> []"
    and cols: "fc \<in> set COLUMNS" "uc \<in> set COLUMNS" "tc \<in> set COLUMNS"
    and ne: "uc \<noteq> fc" "tc \<noteq> fc" "tc \<noteq> uc"
    and acc: "accepts_text E df fc" "accepts_text E df uc" "accepts_text E df tc"
  shows "\<exists>w' ws df'. stamp_selected fc uc tc E user (Some sel) filename w = (Completed, w')
     \<and> ws = save_df E df' name (snd (now E w1))
     \<and> load_pending E (Some name) ws = (Completed, w')
     \<and> workbooks ws (path_join (DATA_DIR E) name) = Some (Workbook df')
     \<and> columns df' = columns df
     \<and> length (rows df') = length (rows df)
     \<and> (\<forall>i<length (rows df). rows df' ! i =
           (if i \<in> set (matching_rows E df sel)
            then (rows df ! i)(fc \<mapsto> CStr ''Yes'', uc \<mapsto> CStr user,
                               tc \<mapsto> CStr (strftime_iso (clock E (clock_reads w1))))
            else rows df ! i))"
proof -
  let ?idx = "matching_rows E df sel"
  let ?t = "clock E (clock_reads w1)"
  let ?df1 = "set_cells ?idx fc (CStr ''Yes'') df"
  let ?df2 = "set_cells ?idx uc (CStr user) ?df1"
  let ?df3 = "set_cells ?idx tc (CStr (strftime_iso ?t)) ?df2"
  let ?w2 = "w1\<lparr>clock_reads := Suc (clock_reads w1)\<rparr>"
  let ?p = "path_join (DATA_DIR E) name"
  have c0: "canonical_frame df" using g by (rule get_df_canonical)
  have c1: "canonical_frame ?df1"
    by (rule set_cells_canonical[OF c0 canonical_has_columns[OF c0 cols(1)]])
  have c2: "canonical_frame ?df2"
    by (rule set_cells_canonical[OF c1]) (simp add: canonical_has_columns[OF c0 cols(2)])
  have c3: "canonical_frame ?df3"
    by (rule set_cells_canonical[OF c2]) (simp add: canonical_has_columns[OF c0 cols(3)])
  have l1: "loc_assign E ?idx fc (CStr ''Yes'') df = Inr ?df1"
    by (rule loc_assign_accepted[OF acc(1)])
  have l2: "loc_assign E ?idx uc (CStr user) ?df1 = Inr ?df2"
    by (rule loc_assign_accepted) (simp add: accepts_set_cells_other[OF ne(1)] acc(2))
  have l3: "loc_assign E ?idx tc (CStr (strftime_iso ?t)) ?df2 = Inr ?df3"
    by (rule loc_assign_accepted)
       (simp add: accepts_set_cells_other[OF ne(3)] accepts_set_cells_other[OF ne(2)] acc(3))
  have sv: "save_df E ?df3 name ?w2 = to_excel ?p ?df3 ?w2"
    by (rule save_df_canonical[OF c3 nm])
  have run: "stamp_selected fc uc tc E user (Some sel) filename w
      = load_pending E (Some name) (save_df E ?df3 name ?w2)"
    using sel m by (simp add: stamp_selected_def g Let_def now_def l1 l2 l3)
  have lp: "load_pending E (Some name) (save_df E ?df3 name ?w2)
      = (Completed, to_excel ?p (ensure_df_schema (excel_read E ?df3)) ?w2)"
    unfolding sv by (rule load_pending_after_save[OF nm])
  have nw: "snd (now E w1) = ?w2" by (simp add: now_def)
  have wb: "workbooks (save_df E ?df3 name ?w2) ?p = Some (Workbook ?df3)"
    unfolding sv by (simp add: to_excel_def)
  have rows: "\<forall>i<length (rows df). rows ?df3 ! i =
           (if i \<in> set ?idx
            then (rows df ! i)(fc \<mapsto> CStr ''Yes'', uc \<mapsto> CStr user, tc \<mapsto> CStr (strftime_iso ?t))
            else rows df ! i)"
    by (simp add: set_cells_nth)
  have cl: "columns ?df3 = columns df" "length (rows ?df3) = length (rows df)" by simp_all
  show ?thesis
    using run lp nw wb rows cl by (metis (no_types, lifting))
qed

text \<open>
  Where the assignment is strict and the user column of the loaded table holds no text,
  as it does while every row is still pending, the handler raises at the second
  assignment at the latest, and nothing is saved after the load.
\<close>

lemma stamp_selected_refused:
  assumes g: "get_df E filename w = (Inr (df, name), w1)"
    and sel: "cell_truthy sel"
    and m: "matching_rows E df sel \<noteq> []"
    and ne: "uc \<noteq> fc"
    and strict: "strict_setitem E"
    and num: "numeric_column df uc"
  shows "\<exists>w'. stamp_selected fc uc tc E user (Some sel) filename w = (Raised TypeError, w')
     \<and> workbooks w' = workbooks w1"
proof (cases "numeric_column df fc")
  case True
  have "loc_assign E (matching_rows E df sel) fc (CStr ''Yes'') df = Inl TypeError"
    by (rule loc_assign_refused[OF strict True m])
  then show ?thesis
    using sel m by (simp add: stamp_selected_def g Let_def now_def)
next
  case False
  let ?idx = "matching_rows E df sel"
  let ?df1 = "set_cells ?idx fc (CStr ''Yes'') df"
  have l1: "loc_assign E ?idx fc (CStr ''Yes'') df = Inr ?df1"
    by (rule loc_assign_accepted) (simp add: accepts_text_def False)
  have "numeric_column ?df1 uc" by (simp add: numeric_set_cells_other[OF ne] num)
  then have l2: "loc_assign E ?idx uc (CStr user) ?df1 = Inl TypeError"
    by (rule loc_assign_refused[OF strict _ m])
  show ?thesis
    using sel m by (simp add: stamp_selected_def g Let_def now_def l1 l2)
qed

lemma matching_rows_mem:
  "i \<in> set (matching_rows E df sel) \<longleftrightarrow>
     i < length (rows df) \<and> cell_str E (cell_at (rows df ! i) ''ID'') = cell_str E sel"
  by (auto simp: matching_rows_def)

text \<open>
  C8 (as amended).  Let the load return a named table in which the selected identifier is
  found, let the clock give a valid date and time, and let the three columns of the
  quality sub-record accept a text: the assignment is not strict, or the column already
  holds a text.  Then quality verification completes, and in the table it saves every
  matching row has \<open>Quality_Verified\<close> set to \<open>Yes\<close>, in \<open>Quality_User\<close> the session's
  user as it is, empty or not, in \<open>Quality_Time\<close> a timestamp that parses back to the
  reading of the clock, while \<open>Leader_Sign\<close>, \<open>Leader_User\<close> and \<open>Leader_Time\<close> are what
  they were.  Leader sign-off does the same with the two sub-records exchanged.
\<close>

theorem approval_stamp_frame:
  assumes "get_df E filename w = (Inr (df, name), w1)"
    and "cell_truthy sel" and "matching_rows E df sel \<noteq> []" and "name \<noteq> []"
    and "valid_datetime (clock E (clock_reads w1))"
  shows
   "(accepts_text E df ''Quality_Verified'' \<and> accepts_text E df ''Quality_User''
       \<and> accepts_text E df ''Quality_Time''
     \<longrightarrow> (\<exists>w' ws df'. verify_selected E user (Some sel) filename w = (Completed, w')
        \<and> ws = save_df E df' name (snd (now E w1))
        \<and> load_pending E (Some name) ws = (Completed, w')
        \<and> workbooks ws (path_join (DATA_DIR E) name) = Some (Workbook df')
        \<and> length (rows df') = length (rows df)
        \<and> (\<forall>i\<in>set (matching_rows E df sel).
              (rows df' ! i) ''Quality_Verified'' = Some (CStr ''Yes'')
            \<and> (rows df' ! i) ''Quality_User'' = Some (CStr user)
            \<and> (\<exists>ts. (rows df' ! i) ''Quality_Time'' = Some (CStr ts)
                    \<and> parse_timestamp ts = Some (clock E (clock_reads w1)))
            \<and> (rows df' ! i) ''Leader_Sign'' = (rows df ! i) ''Leader_Sign''
            \<and> (rows df' ! i) ''Leader_User'' = (rows df ! i) ''Leader_User''
            \<and> (rows df' ! i) ''Leader_Time'' = (rows df ! i) ''Leader_Time'')))
    \<and> (accepts_text E df ''Leader_Sign'' \<and> accepts_text E df ''Leader_User''
       \<and> accepts_text E df ''Leader_Time''
     \<longrightarrow> (\<exists>w' ws df'. sign_selected E user (Some sel) filename w = (Completed, w')
        \<and> ws = save_df E df' name (snd (now E w1))
        \<and> load_pending E (Some name) ws = (Completed, w')
        \<and> workbooks ws (path_join (DATA_DIR E) name) = Some (Workbook df')
        \<and> length (rows df') = length (rows df)
        \<and> (\<forall>i\<in>set (matching_rows E df sel).
              (rows df' ! i) ''Leader_Sign'' = Some (CStr ''Yes'')
            \<and> (rows df' ! i) ''Leader_User'' = Some (CStr user)
            \<and> (\<exists>ts. (rows df' ! i) ''Leader_Time'' = Some (CStr ts)
                    \<and> parse_timestamp ts = Some (clock E (clock_reads w1)))
            \<and> (rows df' ! i) ''Quality_Verified'' = (rows df ! i) ''Quality_Verified''
            \<and> (rows df' ! i) ''Quality_User'' = (rows df ! i) ''Quality_User''
            \<and> (rows df' ! i) ''Quality_Time'' = (rows df ! i) ''Quality_Time'')))"
proof (intro conjI impI)
  assume a: "accepts_text E df ''Quality_Verified'' \<and> accepts_text E df ''Quality_User''
       \<and> accepts_text E df ''Quality_Time''"
  note p = parse_strftime_iso[OF assms(5)]
  have ne: "''Quality_User'' \<noteq> ''Quality_Verified''" "''Quality_Time'' \<noteq> ''Quality_Verified''"
    "''Quality_Time'' \<noteq> ''Quality_User''" by simp_all
  from stamp_selected_effect[OF assms(1-4) COLUMNS_mem(2) COLUMNS_mem(3) COLUMNS_mem(4) ne, of user] a
  obtain w' ws df' where
    r: "verify_selected E user (Some sel) filename w = (Completed, w')"
       "ws = save_df E df' name (snd (now E w1))"
       "load_pending E (Some name) ws = (Completed, w')"
       "workbooks ws (path_join (DATA_DIR E) name) = Some (Workbook df')"
       "length (rows df') = length (rows df)"
    and c: "\<And>i. i < length (rows df) \<Longrightarrow> rows df' ! i =
           (if i \<in> set (matching_rows E df sel)
            then (rows df ! i)(''Quality_Verified'' \<mapsto> CStr ''Yes'', ''Quality_User'' \<mapsto> CStr user,
                  ''Quality_Time'' \<mapsto> CStr (strftime_iso (clock E (clock_reads w1))))
            else rows df ! i)"
    unfolding verify_selected_def by blast
  have "\<forall>i\<in>set (matching_rows E df sel).
              (rows df' ! i) ''Quality_Verified'' = Some (CStr ''Yes'')
            \<and> (rows df' ! i) ''Quality_User'' = Some (CStr user)
            \<and> (\<exists>ts. (rows df' ! i) ''Quality_Time'' = Some (CStr ts)
                    \<and> parse_timestamp ts = Some (clock E (clock_reads w1)))
            \<and> (rows df' ! i) ''Leader_Sign'' = (rows df ! i) ''Leader_Sign''
            \<and> (rows df' ! i) ''Leader_User'' = (rows df ! i) ''Leader_User''
            \<and> (rows df' ! i) ''Leader_Time'' = (rows df ! i) ''Leader_Time''"
  proof
    fix i assume i: "i \<in> set (matching_rows E df sel)"
    then have "i < length (rows df)" by (simp add: matching_rows_mem)
    from c[OF this] i p
    show "(rows df' ! i) ''Quality_Verified'' = Some (CStr ''Yes'')
            \<and> (rows df' ! i) ''Quality_User'' = Some (CStr user)
            \<and> (\<exists>ts. (rows df' ! i) ''Quality_Time'' = Some (CStr ts)
                    \<and> parse_timestamp ts = Some (clock E (clock_reads w1)))
            \<and> (rows df' ! i) ''Leader_Sign'' = (rows df ! i) ''Leader_Sign''
            \<and> (rows df' ! i) ''Leader_User'' = (rows df ! i) ''Leader_User''
            \<and> (rows df' ! i) ''Leader_Time'' = (rows df ! i) ''Leader_Time''"
      by simp
  qed
  with r show "\<exists>w' ws df'. verify_selected E user (Some sel) filename w = (Completed, w')
        \<and> ws = save_df E df' name (snd (now E w1))
        \<and> load_pending E (Some name) ws = (Completed, w')
        \<and> workbooks ws (path_join (DATA_DIR E) name) = Some (Workbook df')
        \<and> length (rows df') = length (rows df)
        \<and> (\<forall>i\<in>set (matching_rows E df sel).
              (rows df' ! i) ''Quality_Verified'' = Some (CStr ''Yes'')
            \<and> (rows df' ! i) ''Quality_User'' = Some (CStr user)
            \<and> (\<exists>ts. (rows df' ! i) ''Quality_Time'' = Some (CStr ts)
                    \<and> parse_timestamp ts = Some (clock E (clock_reads w1)))
            \<and> (rows df' ! i) ''Leader_Sign'' = (rows df ! i) ''Leader_Sign''
            \<and> (rows df' ! i) ''Leader_User'' = (rows df ! i) ''Leader_User''
            \<and> (rows df' ! i) ''Leader_Time'' = (rows df ! i) ''Leader_Time'')"
    by blast
next
  assume a: "accepts_text E df ''Leader_Sign'' \<and> accepts_text E df ''Leader_User''
       \<and> accepts_text E df ''Leader_Time''"
  note p = parse_strftime_iso[OF assms(5)]
  have ne: "''Leader_User'' \<noteq> ''Leader_Sign''" "''Leader_Time'' \<noteq> ''Leader_Sign''"
    "''Leader_Time'' \<noteq> ''Leader_User''" by simp_all
  from stamp_selected_effect[OF assms(1-4) COLUMNS_mem(5) COLUMNS_mem(6) COLUMNS_mem(7) ne, of user] a
  obtain w' ws df' where
    r: "sign_selected E user (Some sel) filename w = (Completed, w')"
       "ws = save_df E df' name (snd (now E w1))"
       "load_pending E (Some name) ws = (Completed, w')"
       "workbooks ws (path_join (DATA_DIR E) name) = Some (Workbook df')"
       "length (rows df') = length (rows df)"
    and c: "\<And>i. i < length (rows df) \<Longrightarrow> rows df' ! i =
           (if i \<in> set (matching_rows E df sel)
            then (rows df ! i)(''Leader_Sign'' \<mapsto> CStr ''Yes'', ''Leader_User'' \<mapsto> CStr user,
                  ''Leader_Time'' \<mapsto> CStr (strftime_iso (clock E (clock_reads w1))))
            else rows df ! i)"
    unfolding sign_selected_def by blast
  have "\<forall>i\<in>set (matching_rows E df sel).
              (rows df' ! i) ''Leader_Sign'' = Some (CStr ''Yes'')
            \<and> (rows df' ! i) ''Leader_User'' = Some (CStr user)
            \<and> (\<exists>ts. (rows df' ! i) ''Leader_Time'' = Some (CStr ts)
                    \<and> parse_timestamp ts = Some (clock E (clock_reads w1)))
            \<and> (rows df' ! i) ''Quality_Verified'' = (rows df ! i) ''Quality_Verified''
            \<and> (rows df' ! i) ''Quality_User'' = (rows df ! i) ''Quality_User''
            \<and> (rows df' ! i) ''Quality_Time'' = (rows df ! i) ''Quality_Time''"
  proof
    fix i assume i: "i \<in> set (matching_rows E df sel)"
    then have "i < length (rows df)" by (simp add: matching_rows_mem)
    from c[OF this] i p
    show "(rows df' ! i) ''Leader_Sign'' = Some (CStr ''Yes'')
            \<and> (rows df' ! i) ''Leader_User'' = Some (CStr user)
            \<and> (\<exists>ts. (rows df' ! i) ''Leader_Time'' = Some (CStr ts)
                    \<and> parse_timestamp ts = Some (clock E (clock_reads w1)))
            \<and> (rows df' ! i) ''Quality_Verified'' = (rows df ! i) ''Quality_Verified''
            \<and> (rows df' ! i) ''Quality_User'' = (rows df ! i) ''Quality_User''
            \<and> (rows df' ! i) ''Quality_Time'' = (rows df ! i) ''Quality_Time''"
      by simp
  qed
  with r show "\<exists>w' ws df'. sign_selected E user (Some sel) filename w = (Completed, w')
        \<and> ws = save_df E df' name (snd (now E w1))
        \<and> load_pending E (Some name) ws = (Completed, w')
        \<and> workbooks ws (path_join (DATA_DIR E) name) = Some (Workbook df')
        \<and> length (rows df') = length (rows df)
        \<and> (\<forall>i\<in>set (matching_rows E df sel).
              (rows df' ! i) ''Leader_Sign'' = Some (CStr ''Yes'')
            \<and> (rows df' ! i) ''Leader_User'' = Some (CStr user)
            \<and> (\<exists>ts. (rows df' ! i) ''Leader_Time'' = Some (CStr ts)
                    \<and> parse_timestamp ts = Some (clock E (clock_reads w1)))
            \<and> (rows df' ! i) ''Quality_Verified'' = (rows df ! i) ''Quality_Verified''
            \<and> (rows df' ! i) ''Quality_User'' = (rows df ! i) ''Quality_User''
            \<and> (rows df' ! i) ''Quality_Time'' = (rows df ! i) ''Quality_Time'')"
    by blast
qed

lemma ex_basename: "basename ''data/tool_life_data_2026_01.xlsx'' = ''tool_life_data_2026_01.xlsx''"
  by (simp add: basename_def)

lemma ex_month_loaded:
  "get_df ex_env (Some ''tool_life_data_2026_01.xlsx'') ex_month
     = (Inr (ex_loaded, ''tool_life_data_2026_01.xlsx''),
        to_excel ''data/tool_life_data_2026_01.xlsx''
          (ensure_df_schema (excel_read ex_env ex_pending)) ex_month)"
proof -
  have u: "\<forall>b. workbooks ex_month ''data/tool_life_data_2026_01.xlsx'' \<noteq> Some (Unreadable b)"
    by (simp add: ex_month_def ex_disk_def)
  have t: "table_on_disk ex_env ex_month ''data/tool_life_data_2026_01.xlsx'' = excel_read ex_env ex_pending"
    by (simp add: ex_month_def ex_disk_def table_on_disk_def)
  show ?thesis
    using get_df_readable[OF ex_resolve u] by (simp add: t ex_basename ex_loaded_def)
qed

lemma ex_loaded_length: "length (rows ex_loaded) = 3"
  by (simp add: ex_loaded_def ensure_length ex_pending_def)

lemma ex_loaded_cell:
  assumes "i < 3" and "c \<in> set (columns ex_pending)"
  shows "(rows ex_loaded ! i) c
     = Some (if cell_at (rows ex_pending ! i) c = CStr [] then CNaN else cell_at (rows ex_pending ! i) c)"
proof -
  have u: "\<forall>b. workbooks ex_month ''data/tool_life_data_2026_01.xlsx'' \<noteq> Some (Unreadable b)"
    by (simp add: ex_month_def ex_disk_def)
  have t: "table_on_disk ex_env ex_month ''data/tool_life_data_2026_01.xlsx'' = excel_read ex_env ex_pending"
    by (simp add: ex_month_def ex_disk_def table_on_disk_def)
  have l: "length (rows ex_pending) = 3" by (simp add: ex_pending_def)
  from get_df_loaded[OF ex_reader_ok ex_resolve u] obtain df where
    g: "get_df ex_env (Some ''tool_life_data_2026_01.xlsx'') ex_month
          = (Inr (df, basename ''data/tool_life_data_2026_01.xlsx''),
             to_excel ''data/tool_life_data_2026_01.xlsx''
               (ensure_df_schema (excel_read ex_env ex_pending)) ex_month)"
    and k: "\<forall>i<length (rows (excel_read ex_env ex_pending)). \<forall>c\<in>set (columns (excel_read ex_env ex_pending)).
           (rows df ! i) c = (rows (excel_read ex_env ex_pending) ! i) c"
    unfolding t by blast
  from g have d: "df = ex_loaded" by (simp add: ex_month_loaded)
  have "(rows ex_loaded ! i) c = (rows (excel_read ex_env ex_pending) ! i) c"
    using k assms l unfolding d by simp
  then show ?thesis
    using assms l by (simp add: ex_read_cell)
qed

lemma ex_loaded_cells:
  "(rows ex_loaded ! 0) ''ID'' = Some (CStr ''20260115-083000-0000'')"
  "(rows ex_loaded ! Suc 0) ''ID'' = Some (CStr ''20260115-083000-0000'')"
  "(rows ex_loaded ! Suc (Suc 0)) ''ID'' = Some (CStr ''20260114-101500-0000'')"
  "(rows ex_loaded ! 0) ''Quality_Verified'' = Some (CStr ''Pending'')"
  "(rows ex_loaded ! 0) ''Leader_Sign'' = Some (CStr ''Pending'')"
  "(rows ex_loaded ! 0) ''Quality_User'' = Some CNaN"
  "(rows ex_loaded ! 0) ''Leader_User'' = Some CNaN"
  by (simp_all add: ex_loaded_cell ex_pending_def cell_at_def)

lemma ex_loaded_texts:
  "(rows ex_loaded ! Suc (Suc 0)) ''Quality_Verified'' = Some (CStr ''Yes'')"
  "(rows ex_loaded ! Suc (Suc 0)) ''Quality_User'' = Some (CStr ''lee'')"
  "(rows ex_loaded ! Suc (Suc 0)) ''Quality_Time'' = Some (CStr ''2026-01-14 10:20:00'')"
  "(rows ex_loaded ! Suc (Suc 0)) ''Leader_Sign'' = Some (CStr ''Yes'')"
  "(rows ex_loaded ! Suc (Suc 0)) ''Leader_User'' = Some (CStr ''ana'')"
  "(rows ex_loaded ! Suc (Suc 0)) ''Leader_Time'' = Some (CStr ''2026-01-14 11:00:00'')"
  by (simp_all add: ex_loaded_cell ex_pending_def cell_at_def)

lemma ex_accepts:
  "accepts_text ex_env ex_loaded ''Quality_Verified''"
  "accepts_text ex_env ex_loaded ''Quality_User''"
  "accepts_text ex_env ex_loaded ''Quality_Time''"
  "accepts_text ex_env ex_loaded ''Leader_Sign''"
  "accepts_text ex_env ex_loaded ''Leader_User''"
  "accepts_text ex_env ex_loaded ''Leader_Time''"
  using text_cell_accepts[of "Suc (Suc 0)" ex_loaded _ _ ex_env] ex_loaded_texts
  by (simp_all add: ex_loaded_length)

lemma ex_matching:
  "matching_rows ex_env ex_loaded (CStr ''20260115-083000-0000'') = [0, Suc 0]"
proof -
  have u: "[0..<3] = [0, Suc 0, Suc (Suc 0)]" by (simp add: numeral_3_eq_3)
  show ?thesis
    by (simp add: matching_rows_def ex_loaded_length u cell_at_def ex_loaded_cells cell_str_def)
qed

lemma ex_clock_valid: "valid_datetime (clock ex_env 0)"
  by (simp add: valid_datetime_def days_in_month_def ex_env_def)

lemma ex_path: "path_join (DATA_DIR ex_env) ''tool_life_data_2026_01.xlsx'' = ''data/tool_life_data_2026_01.xlsx''"
  by (simp add: path_join_def ex_env_def)

text \<open>
  C8 as stated fails in the actor: neither handler looks at the session's user before it
  is written.  With the empty string as user, quality verification of the identifier
  \<open>20260115-083000-0000\<close> completes, and the row it saves has \<open>Quality_Verified\<close> turned
  from \<open>Pending\<close> to \<open>Yes\<close> and the empty string in \<open>Quality_User\<close>.
\<close>

theorem approval_empty_actor_counterexample:
  "(rows ex_loaded ! 0) ''Quality_Verified'' = Some (CStr ''Pending'')
   \<and> (\<exists>w' ws df'. get_df ex_env (Some ''tool_life_data_2026_01.xlsx'') ex_month
                     = (Inr (ex_loaded, ''tool_life_data_2026_01.xlsx''), w')
        \<and> fst (verify_selected ex_env [] (Some (CStr ''20260115-083000-0000''))
                 (Some ''tool_life_data_2026_01.xlsx'') ex_month) = Completed
        \<and> ws = save_df ex_env df' ''tool_life_data_2026_01.xlsx'' (snd (now ex_env w'))
        \<and> workbooks ws ''data/tool_life_data_2026_01.xlsx'' = Some (Workbook df')
        \<and> (rows df' ! 0) ''Quality_Verified'' = Some (CStr ''Yes'')
        \<and> (rows df' ! 0) ''Quality_User'' = Some (CStr []))"
proof -
  have s: "cell_truthy (CStr ''20260115-083000-0000'')" by simp
  have m: "matching_rows ex_env ex_loaded (CStr ''20260115-083000-0000'') \<noteq> []"
    by (simp add: ex_matching)
  have n: "''tool_life_data_2026_01.xlsx'' \<noteq> []" by simp
  have ne: "''Quality_User'' \<noteq> ''Quality_Verified''" "''Quality_Time'' \<noteq> ''Quality_Verified''"
    "''Quality_Time'' \<noteq> ''Quality_User''" by simp_all
  from stamp_selected_effect[OF ex_month_loaded s m n COLUMNS_mem(2) COLUMNS_mem(3) COLUMNS_mem(4) ne
      ex_accepts(1) ex_accepts(2) ex_accepts(3), of "[]"]
  obtain w' ws df' where
    r: "verify_selected ex_env [] (Some (CStr ''20260115-083000-0000''))
          (Some ''tool_life_data_2026_01.xlsx'') ex_month = (Completed, w')"
       "ws = save_df ex_env df' ''tool_life_data_2026_01.xlsx''
               (snd (now ex_env (to_excel ''data/tool_life_data_2026_01.xlsx''
                  (ensure_df_schema (excel_read ex_env ex_pending)) ex_month)))"
       "workbooks ws ''data/tool_life_data_2026_01.xlsx'' = Some (Workbook df')"
    and c: "\<And>i. i < length (rows ex_loaded) \<Longrightarrow> rows df' ! i =
           (if i \<in> set (matching_rows ex_env ex_loaded (CStr ''20260115-083000-0000''))
            then (rows ex_loaded ! i)(''Quality_Verified'' \<mapsto> CStr ''Yes'', ''Quality_User'' \<mapsto> CStr [],
                  ''Quality_Time'' \<mapsto> CStr (strftime_iso (clock ex_env (clock_reads
                     (to_excel ''data/tool_life_data_2026_01.xlsx''
                        (ensure_df_schema (excel_read ex_env ex_pending)) ex_month)))))
            else rows ex_loaded ! i)"
    unfolding verify_selected_def ex_path by blast
  have c0: "(rows df' ! 0) ''Quality_Verified'' = Some (CStr ''Yes'')"
    "(rows df' ! 0) ''Quality_User'' = Some (CStr [])"
    using c[of 0] by (simp_all add: ex_loaded_length ex_matching)
  from r c0 ex_month_loaded ex_loaded_cells(4) show ?thesis
    by auto
qed

theorem approval_stamp_frame_witness:
  "strict_setitem ex_env
   \<and> (\<exists>w' ws df'. verify_selected ex_env ''kim'' (Some (CStr ''20260115-083000-0000''))
                 (Some ''tool_life_data_2026_01.xlsx'') ex_month = (Completed, w')
        \<and> load_pending ex_env (Some ''tool_life_data_2026_01.xlsx'') ws = (Completed, w')
        \<and> workbooks ws ''data/tool_life_data_2026_01.xlsx'' = Some (Workbook df')
        \<and> (rows df' ! 0) ''Quality_Verified'' = Some (CStr ''Yes'')
        \<and> (rows df' ! 0) ''Quality_User'' = Some (CStr ''kim'')
        \<and> (\<exists>ts. (rows df' ! 0) ''Quality_Time'' = Some (CStr ts)
              \<and> parse_timestamp ts = Some (clock ex_env 0))
        \<and> (rows df' ! 0) ''Leader_Sign'' = Some (CStr ''Pending'')
        \<and> (rows df' ! 0) ''Leader_User'' = Some CNaN)
   \<and> (\<exists>w' ws df'. sign_selected ex_env ''kim'' (Some (CStr ''20260115-083000-0000''))
                 (Some ''tool_life_data_2026_01.xlsx'') ex_month = (Completed, w')
        \<and> load_pending ex_env (Some ''tool_life_data_2026_01.xlsx'') ws = (Completed, w')
        \<and> workbooks ws ''data/tool_life_data_2026_01.xlsx'' = Some (Workbook df')
        \<and> (rows df' ! 0) ''Leader_Sign'' = Some (CStr ''Yes'')
        \<and> (rows df' ! 0) ''Leader_User'' = Some (CStr ''kim'')
        \<and> (rows df' ! 0) ''Quality_Verified'' = Some (CStr ''Pending'')
        \<and> (rows df' ! 0) ''Quality_User'' = Some CNaN)"
proof -
  have s: "cell_truthy (CStr ''20260115-083000-0000'')" by simp
  have m: "matching_rows ex_env ex_loaded (CStr ''20260115-083000-0000'') \<noteq> []"
    by (simp add: ex_matching)
  have n: "''tool_life_data_2026_01.xlsx'' \<noteq> []" by simp
  have cr: "clock_reads (to_excel ''data/tool_life_data_2026_01.xlsx''
      (ensure_df_schema (excel_read ex_env ex_pending)) ex_month) = 0"
    by (simp add: to_excel_def ex_month_def ex_disk_def)
  have v: "valid_datetime (clock ex_env (clock_reads
      (to_excel ''data/tool_life_data_2026_01.xlsx''
         (ensure_df_schema (excel_read ex_env ex_pending)) ex_month)))"
    using ex_clock_valid by (simp add: cr)
  have st: "strict_setitem ex_env" by (simp add: ex_env_def)
  note F = approval_stamp_frame[OF ex_month_loaded s m n v, of "''kim''"]
  have q: "accepts_text ex_env ex_loaded ''Quality_Verified'' \<and> accepts_text ex_env ex_loaded ''Quality_User''
       \<and> accepts_text ex_env ex_loaded ''Quality_Time''"
    by (simp add: ex_accepts)
  have l: "accepts_text ex_env ex_loaded ''Leader_Sign'' \<and> accepts_text ex_env ex_loaded ''Leader_User''
       \<and> accepts_text ex_env ex_loaded ''Leader_Time''"
    by (simp add: ex_accepts)
  have one: "\<exists>w' ws df'. verify_selected ex_env ''kim'' (Some (CStr ''20260115-083000-0000''))
                 (Some ''tool_life_data_2026_01.xlsx'') ex_month = (Completed, w')
        \<and> load_pending ex_env (Some ''tool_life_data_2026_01.xlsx'') ws = (Completed, w')
        \<and> workbooks ws ''data/tool_life_data_2026_01.xlsx'' = Some (Workbook df')
        \<and> (rows df' ! 0) ''Quality_Verified'' = Some (CStr ''Yes'')
        \<and> (rows df' ! 0) ''Quality_User'' = Some (CStr ''kim'')
        \<and> (\<exists>ts. (rows df' ! 0) ''Quality_Time'' = Some (CStr ts)
              \<and> parse_timestamp ts = Some (clock ex_env 0))
        \<and> (rows df' ! 0) ''Leader_Sign'' = Some (CStr ''Pending'')
        \<and> (rows df' ! 0) ''Leader_User'' = Some CNaN"
    using F[THEN conjunct1, rule_format, OF q]
    unfolding ex_path ex_matching cr by (auto simp: ex_loaded_cells)
  have two: "\<exists>w' ws df'. sign_selected ex_env ''kim'' (Some (CStr ''20260115-083000-0000''))
                 (Some ''tool_life_data_2026_01.xlsx'') ex_month = (Completed, w')
        \<and> load_pending ex_env (Some ''tool_life_data_2026_01.xlsx'') ws = (Completed, w')
        \<and> workbooks ws ''data/tool_life_data_2026_01.xlsx'' = Some (Workbook df')
        \<and> (rows df' ! 0) ''Leader_Sign'' = Some (CStr ''Yes'')
        \<and> (rows df' ! 0) ''Leader_User'' = Some (CStr ''kim'')
        \<and> (rows df' ! 0) ''Quality_Verified'' = Some (CStr ''Pending'')
        \<and> (rows df' ! 0) ''Quality_User'' = Some CNaN"
    using F[THEN conjunct2, rule_format, OF l]
    unfolding ex_path ex_matching cr by (auto simp: ex_loaded_cells)
  from st one two show ?thesis by blast
qed

text \<open>
  C10: let two or more rows of the loaded month table have an identifier that prints like
  the selected one, and let the three columns of the sub-record accept a text (the
  assignment is not strict, or the column already holds a text).  Then quality
  verification and leader sign-off complete, and the table they save has the flag, the
  actor and the timestamp stamped on every such row, not on one of them.
\<close>

theorem duplicate_ids_all_stamped:
  assumes "get_df E filename w = (Inr (df, name), w1)"
    and "cell_truthy sel" and "name \<noteq> []"
    and "2 \<le> length (matching_rows E df sel)"
  shows
   "(accepts_text E df ''Quality_Verified'' \<and> accepts_text E df ''Quality_User''
       \<and> accepts_text E df ''Quality_Time''
     \<longrightarrow> (\<exists>w' ws df'. verify_selected E user (Some sel) filename w = (Completed, w')
        \<and> ws = save_df E df' name (snd (now E w1))
        \<and> load_pending E (Some name) ws = (Completed, w')
        \<and> workbooks ws (path_join (DATA_DIR E) name) = Some (Workbook df')
        \<and> (\<forall>i<length (rows df).
              cell_str E (cell_at (rows df ! i) ''ID'') = cell_str E sel \<longrightarrow>
                (rows df' ! i) ''Quality_Verified'' = Some (CStr ''Yes'')
              \<and> (rows df' ! i) ''Quality_User'' = Some (CStr user)
              \<and> (rows df' ! i) ''Quality_Time'' = Some (CStr (strftime_iso (clock E (clock_reads w1)))))))
    \<and> (accepts_text E df ''Leader_Sign'' \<and> accepts_text E df ''Leader_User''
       \<and> accepts_text E df ''Leader_Time''
     \<longrightarrow> (\<exists>w' ws df'. sign_selected E user (Some sel) filename w = (Completed, w')
        \<and> ws = save_df E df' name (snd (now E w1))
        \<and> load_pending E (Some name) ws = (Completed, w')
        \<and> workbooks ws (path_join (DATA_DIR E) name) = Some (Workbook df')
        \<and> (\<forall>i<length (rows df).
              cell_str E (cell_at (rows df ! i) ''ID'') = cell_str E sel \<longrightarrow>
                (rows df' ! i) ''Leader_Sign'' = Some (CStr ''Yes'')
              \<and> (rows df' ! i) ''Leader_User'' = Some (CStr user)
              \<and> (rows df' ! i) ''Leader_Time'' = Some (CStr (strftime_iso (clock E (clock_reads w1)))))))"
proof (intro conjI impI)
  assume a: "accepts_text E df ''Quality_Verified'' \<and> accepts_text E df ''Quality_User''
       \<and> accepts_text E df ''Quality_Time''"
  from assms(4) have m: "matching_rows E df sel \<noteq> []" by auto
  have ne: "''Quality_User'' \<noteq> ''Quality_Verified''" "''Quality_Time'' \<noteq> ''Quality_Verified''"
    "''Quality_Time'' \<noteq> ''Quality_User''" by simp_all
  from stamp_selected_effect[OF assms(1,2) m assms(3) COLUMNS_mem(2) COLUMNS_mem(3) COLUMNS_mem(4) ne,
      of user] a
  obtain w' ws df' where
    r: "verify_selected E user (Some sel) filename w = (Completed, w')"
       "ws = save_df E df' name (snd (now E w1))"
       "load_pending E (Some name) ws = (Completed, w')"
       "workbooks ws (path_join (DATA_DIR E) name) = Some (Workbook df')"
    and c: "\<And>i. i < length (rows df) \<Longrightarrow> rows df' ! i =
           (if i \<in> set (matching_rows E df sel)
            then (rows df ! i)(''Quality_Verified'' \<mapsto> CStr ''Yes'', ''Quality_User'' \<mapsto> CStr user,
                  ''Quality_Time'' \<mapsto> CStr (strftime_iso (clock E (clock_reads w1))))
            else rows df ! i)"
    unfolding verify_selected_def by blast
  have "\<forall>i<length (rows df).
              cell_str E (cell_at (rows df ! i) ''ID'') = cell_str E sel \<longrightarrow>
                (rows df' ! i) ''Quality_Verified'' = Some (CStr ''Yes'')
              \<and> (rows df' ! i) ''Quality_User'' = Some (CStr user)
              \<and> (rows df' ! i) ''Quality_Time'' = Some (CStr (strftime_iso (clock E (clock_reads w1))))"
    by (simp add: c matching_rows_mem)
  with r show "\<exists>w' ws df'. verify_selected E user (Some sel) filename w = (Completed, w')
        \<and> ws = save_df E df' name (snd (now E w1))
        \<and> load_pending E (Some name) ws = (Completed, w')
        \<and> workbooks ws (path_join (DATA_DIR E) name) = Some (Workbook df')
        \<and> (\<forall>i<length (rows df).
              cell_str E (cell_at (rows df ! i) ''ID'') = cell_str E sel \<longrightarrow>
                (rows df' ! i) ''Quality_Verified'' = Some (CStr ''Yes'')
              \<and> (rows df' ! i) ''Quality_User'' = Some (CStr user)
              \<and> (rows df' ! i) ''Quality_Time'' = Some (CStr (strftime_iso (clock E (clock_reads w1)))))"
    by blast
next
  assume a: "accepts_text E df ''Leader_Sign'' \<and> accepts_text E df ''Leader_User''
       \<and> accepts_text E df ''Leader_Time''"
  from assms(4) have m: "matching_rows E df sel \<noteq> []" by auto
  have ne: "''Leader_User'' \<noteq> ''Leader_Sign''" "''Leader_Time'' \<noteq> ''Leader_Sign''"
    "''Leader_Time'' \<noteq> ''Leader_User''" by simp_all
  from stamp_selected_effect[OF assms(1,2) m assms(3) COLUMNS_mem(5) COLUMNS_mem(6) COLUMNS_mem(7) ne,
      of user] a
  obtain w' ws df' where
    r: "sign_selected E user (Some sel) filename w = (Completed, w')"
       "ws = save_df E df' name (snd (now E w1))"
       "load_pending E (Some name) ws = (Completed, w')"
       "workbooks ws (path_join (DATA_DIR E) name) = Some (Workbook df')"
    and c: "\<And>i. i < length (rows df) \<Longrightarrow> rows df' ! i =
           (if i \<in> set (matching_rows E df sel)
            then (rows df ! i)(''Leader_Sign'' \<mapsto> CStr ''Yes'', ''Leader_User'' \<mapsto> CStr user,
                  ''Leader_Time'' \<mapsto> CStr (strftime_iso (clock E (clock_reads w1))))
            else rows df ! i)"
    unfolding sign_selected_def by blast
  have "\<forall>i<length (rows df).
              cell_str E (cell_at (rows df ! i) ''ID'') = cell_str E sel \<longrightarrow>
                (rows df' ! i) ''Leader_Sign'' = Some (CStr ''Yes'')
              \<and> (rows df' ! i) ''Leader_User'' = Some (CStr user)
              \<and> (rows df' ! i) ''Leader_Time'' = Some (CStr (strftime_iso (clock E (clock_reads w1))))"
    by (simp add: c matching_rows_mem)
  with r show "\<exists>w' ws df'. sign_selected E user (Some sel) filename w = (Completed, w')
        \<and> ws = save_df E df' name (snd (now E w1))
        \<and> load_pending E (Some name) ws = (Completed, w')
        \<and> workbooks ws (path_join (DATA_DIR E) name) = Some (Workbook df')
        \<and> (\<forall>i<length (rows df).
              cell_str E (cell_at (rows df ! i) ''ID'') = cell_str E sel \<longrightarrow>
                (rows df' ! i) ''Leader_Sign'' = Some (CStr ''Yes'')
              \<and> (rows df' ! i) ''Leader_User'' = Some (CStr user)
              \<and> (rows df' ! i) ''Leader_Time'' = Some (CStr (strftime_iso (clock E (clock_reads w1)))))"
    by blast
qed

theorem duplicate_ids_all_stamped_witness:
  "strict_setitem ex_env
   \<and> 2 \<le> length (matching_rows ex_env ex_loaded (CStr ''20260115-083000-0000''))
   \<and> accepts_text ex_env ex_loaded ''Quality_User''
   \<and> accepts_text ex_env ex_loaded ''Leader_User''
   \<and> (\<exists>w' ws df'. verify_selected ex_env ''kim'' (Some (CStr ''20260115-083000-0000''))
                 (Some ''tool_life_data_2026_01.xlsx'') ex_month = (Completed, w')
        \<and> load_pending ex_env (Some ''tool_life_data_2026_01.xlsx'') ws = (Completed, w')
        \<and> workbooks ws ''data/tool_life_data_2026_01.xlsx'' = Some (Workbook df')
        \<and> (rows df' ! 0) ''Quality_Verified'' = Some (CStr ''Yes'')
        \<and> (rows df' ! 1) ''Quality_Verified'' = Some (CStr ''Yes'')
        \<and> (rows df' ! 0) ''Quality_User'' = Some (CStr ''kim'')
        \<and> (rows df' ! 1) ''Quality_User'' = Some (CStr ''kim'')
        \<and> (rows df' ! 0) ''Quality_Time'' = Some (CStr ''2026-01-15 08:30:00'')
        \<and> (rows df' ! 1) ''Quality_Time'' = Some (CStr ''2026-01-15 08:30:00''))
   \<and> (\<exists>w' ws df'. sign_selected ex_env ''kim'' (Some (CStr ''20260115-083000-0000''))
                 (Some ''tool_life_data_2026_01.xlsx'') ex_month = (Completed, w')
        \<and> load_pending ex_env (Some ''tool_life_data_2026_01.xlsx'') ws = (Completed, w')
        \<and> workbooks ws ''data/tool_life_data_2026_01.xlsx'' = Some (Workbook df')
        \<and> (rows df' ! 0) ''Leader_Sign'' = Some (CStr ''Yes'')
        \<and> (rows df' ! 1) ''Leader_Sign'' = Some (CStr ''Yes'')
        \<and> (rows df' ! 0) ''Leader_User'' = Some (CStr ''kim'')
        \<and> (rows df' ! 1) ''Leader_User'' = Some (CStr ''kim''))"
proof -
  have s: "cell_truthy (CStr ''20260115-083000-0000'')" by simp
  have m: "2 \<le> length (matching_rows ex_env ex_loaded (CStr ''20260115-083000-0000''))"
    by (simp add: ex_matching)
  have n: "''tool_life_data_2026_01.xlsx'' \<noteq> []" by simp
  have st: "strict_setitem ex_env" by (simp add: ex_env_def)
  have cr: "clock_reads (to_excel ''data/tool_life_data_2026_01.xlsx''
      (ensure_df_schema (excel_read ex_env ex_pending)) ex_month) = 0"
    by (simp add: to_excel_def ex_month_def ex_disk_def)
  have ts: "strftime_iso (clock ex_env 0) = ''2026-01-15 08:30:00''"
    by (simp add: strftime_iso_def strftime_date_def strftime_time_def four_digits_def
        two_digits_def ex_env_def digit_char_simps)
  have c: "cell_str ex_env (cell_at (rows ex_loaded ! 0) ''ID'')
             = cell_str ex_env (CStr ''20260115-083000-0000'')"
    "cell_str ex_env (cell_at (rows ex_loaded ! 1) ''ID'')
             = cell_str ex_env (CStr ''20260115-083000-0000'')"
    by (simp_all add: cell_at_def ex_loaded_cells)
  note F = duplicate_ids_all_stamped[OF ex_month_loaded s n m, of "''kim''"]
  have q: "accepts_text ex_env ex_loaded ''Quality_Verified'' \<and> accepts_text ex_env ex_loaded ''Quality_User''
       \<and> accepts_text ex_env ex_loaded ''Quality_Time''"
    by (simp add: ex_accepts)
  have l: "accepts_text ex_env ex_loaded ''Leader_Sign'' \<and> accepts_text ex_env ex_loaded ''Leader_User''
       \<and> accepts_text ex_env ex_loaded ''Leader_Time''"
    by (simp add: ex_accepts)
  have one: "\<exists>w' ws df'. verify_selected ex_env ''kim'' (Some (CStr ''20260115-083000-0000''))
                 (Some ''tool_life_data_2026_01.xlsx'') ex_month = (Completed, w')
        \<and> load_pending ex_env (Some ''tool_life_data_2026_01.xlsx'') ws = (Completed, w')
        \<and> workbooks ws ''data/tool_life_data_2026_01.xlsx'' = Some (Workbook df')
        \<and> (rows df' ! 0) ''Quality_Verified'' = Some (CStr ''Yes'')
        \<and> (rows df' ! 1) ''Quality_Verified'' = Some (CStr ''Yes'')
        \<and> (rows df' ! 0) ''Quality_User'' = Some (CStr ''kim'')
        \<and> (rows df' ! 1) ''Quality_User'' = Some (CStr ''kim'')
        \<and> (rows df' ! 0) ''Quality_Time'' = Some (CStr ''2026-01-15 08:30:00'')
        \<and> (rows df' ! 1) ''Quality_Time'' = Some (CStr ''2026-01-15 08:30:00'')"
  proof -
    from F[THEN conjunct1, rule_format, OF q] obtain w' ws df' where
      r: "verify_selected ex_env ''kim'' (Some (CStr ''20260115-083000-0000''))
            (Some ''tool_life_data_2026_01.xlsx'') ex_month = (Completed, w')"
         "load_pending ex_env (Some ''tool_life_data_2026_01.xlsx'') ws = (Completed, w')"
         "workbooks ws ''data/tool_life_data_2026_01.xlsx'' = Some (Workbook df')"
      and a: "\<And>i. i < 3 \<Longrightarrow>
              cell_str ex_env (cell_at (rows ex_loaded ! i) ''ID'')
                = cell_str ex_env (CStr ''20260115-083000-0000'') \<Longrightarrow>
                (rows df' ! i) ''Quality_Verified'' = Some (CStr ''Yes'')
              \<and> (rows df' ! i) ''Quality_User'' = Some (CStr ''kim'')
              \<and> (rows df' ! i) ''Quality_Time'' = Some (CStr ''2026-01-15 08:30:00'')"
      unfolding ex_path ex_loaded_length cr ts by blast
    from a[of 0, OF _ c(1)] a[of 1, OF _ c(2)] r show ?thesis by auto
  qed
  have two: "\<exists>w' ws df'. sign_selected ex_env ''kim'' (Some (CStr ''20260115-083000-0000''))
                 (Some ''tool_life_data_2026_01.xlsx'') ex_month = (Completed, w')
        \<and> load_pending ex_env (Some ''tool_life_data_2026_01.xlsx'') ws = (Completed, w')
        \<and> workbooks ws ''data/tool_life_data_2026_01.xlsx'' = Some (Workbook df')
        \<and> (rows df' ! 0) ''Leader_Sign'' = Some (CStr ''Yes'')
        \<and> (rows df' ! 1) ''Leader_Sign'' = Some (CStr ''Yes'')
        \<and> (rows df' ! 0) ''Leader_User'' = Some (CStr ''kim'')
        \<and> (rows df' ! 1) ''Leader_User'' = Some (CStr ''kim'')"
  proof -
    from F[THEN conjunct2, rule_format, OF l] obtain w' ws df' where
      r: "sign_selected ex_env ''kim'' (Some (CStr ''20260115-083000-0000''))
            (Some ''tool_life_data_2026_01.xlsx'') ex_month = (Completed, w')"
         "load_pending ex_env (Some ''tool_life_data_2026_01.xlsx'') ws = (Completed, w')"
         "workbooks ws ''data/tool_life_data_2026_01.xlsx'' = Some (Workbook df')"
      and a: "\<And>i. i < 3 \<Longrightarrow>
              cell_str ex_env (cell_at (rows ex_loaded ! i) ''ID'')
                = cell_str ex_env (CStr ''20260115-083000-0000'') \<Longrightarrow>
                (rows df' ! i) ''Leader_Sign'' = Some (CStr ''Yes'')
              \<and> (rows df' ! i) ''Leader_User'' = Some (CStr ''kim'')
              \<and> (rows df' ! i) ''Leader_Time'' = Some (CStr ''2026-01-15 08:30:00'')"
      unfolding ex_path ex_loaded_length cr ts by blast
    from a[of 0, OF _ c(1)] a[of 1, OF _ c(2)] r show ?thesis by auto
  qed
  from st m ex_accepts(2) ex_accepts(5) one two show ?thesis by blast
qed

lemma new_row_keys: "map fst (new_row E user f cost t t_id df) = COLUMNS"
  by (simp add: new_row_def COLUMNS_def)

lemma new_row_approval:
  "map_of (new_row E user f cost t t_id df) ''Quality_Verified'' = Some (CStr ''Pending'')"
  "map_of (new_row E user f cost t t_id df) ''Quality_User'' = Some (CStr [])"
  "map_of (new_row E user f cost t t_id df) ''Quality_Time'' = Some (CStr [])"
  "map_of (new_row E user f cost t t_id df) ''Leader_Sign'' = Some (CStr ''Pending'')"
  "map_of (new_row E user f cost t t_id df) ''Leader_User'' = Some (CStr [])"
  "map_of (new_row E user f cost t t_id df) ''Leader_Time'' = Some (CStr [])"
  by (simp_all add: new_row_def)

lemma concat_row_columns:
  assumes "canonical_frame df" "map fst r = COLUMNS"
  shows "columns (concat_row df r) = columns df"
proof -
  from assms(1) have "set COLUMNS \<subseteq> set (columns df)" by (simp add: canonical_frame_def)
  then have "filter (\<lambda>c. c \<notin> set (columns df)) COLUMNS = []"
    by (auto simp: filter_empty_conv)
  then show ?thesis by (simp add: concat_row_def Let_def assms(2))
qed

lemma concat_row_rows:
  assumes "canonical_frame df" "map fst r = COLUMNS"
  shows "rows (concat_row df r) = map (reindex (columns df)) (rows df) @ [reindex (columns df) (map_of r)]"
  using concat_row_columns[OF assms] by (simp add: concat_row_def Let_def)

lemma dom_reindex: "dom (reindex cols r) = set cols"
  by (auto simp: reindex_def dom_def)

lemma concat_row_canonical:
  assumes "canonical_frame df" "map fst r = COLUMNS"
  shows "canonical_frame (concat_row df r)"
  using assms(1)
  by (simp add: canonical_frame_def concat_row_columns[OF assms] concat_row_rows[OF assms]
      list_all_iff dom_reindex)

lemma cell_at_reindex:
  "dom r \<subseteq> set cols \<Longrightarrow> cell_at (reindex cols r) c = cell_at r c"
  by (cases "r c") (auto simp: cell_at_def reindex_def)

lemma take_from_stock_not_completed:
  "take_from_stock E key ask w \<noteq> Inl Completed"
  by (auto simp: take_from_stock_def Let_def split: json.splits)

lemma submit_saved:
  assumes "submit E user f ask w = (Completed, w')"
  shows "\<exists>cost w1 df0 name w2 t t_id path.
      take_from_stock E (''Tool '' @ tool_cb f) ask w = Inr (cost, w1)
    \<and> get_df E None w1 = (Inr (df0, name), w2)
    \<and> workbooks w' path = Some (Workbook (concat_row df0 (new_row E user f cost t t_id df0)))"
proof -
  from assms have nz: "\<not> (mach_cb f = [] \<or> tool_cb f = [] \<or> reason_cb f = [])"
    by (auto simp: submit_def)
  from assms nz obtain cost w1 where s: "take_from_stock E (''Tool '' @ tool_cb f) ask w = Inr (cost, w1)"
    using take_from_stock_not_completed[of E "''Tool '' @ tool_cb f" ask w]
    by (cases "take_from_stock E (''Tool '' @ tool_cb f) ask w") (auto simp: submit_def)
  from assms nz s obtain df0 name w2 where g: "get_df E None w1 = (Inr (df0, name), w2)"
    by (cases "get_df E None w1") (auto simp: submit_def split: sum.splits)
  have c0: "canonical_frame df0" using g by (rule get_df_canonical)
  let ?t = "clock E (clock_reads w2)"
  let ?tid = "clock E (Suc (clock_reads w2))"
  let ?df = "concat_row df0 (new_row E user f cost ?t ?tid df0)"
  have c: "canonical_frame ?df"
    by (rule concat_row_canonical[OF c0 new_row_keys])
  have "w' = save_df E ?df name (w2\<lparr>clock_reads := Suc (Suc (clock_reads w2))\<rparr>)"
    using assms nz s g by (simp add: submit_def now_def Let_def)
  then have "workbooks w' (fst (resolve_month_path E (Some name)
      (w2\<lparr>clock_reads := Suc (Suc (clock_reads w2))\<rparr>))) = Some (Workbook ?df)"
    by (simp add: save_df_def ensure_fix[OF c] to_excel_def split: prod.splits)
  with s g show ?thesis by blast
qed

text \<open>
  C7: whenever \<open>submit\<close> completes, the table it saves is the loaded table with one more
  row at the end, and that row has \<open>Quality_Verified\<close> and \<open>Leader_Sign\<close> equal to
  \<open>Pending\<close> and \<open>Quality_User\<close>, \<open>Quality_Time\<close>, \<open>Leader_User\<close> and \<open>Leader_Time\<close>
  equal to the empty string.
\<close>

theorem submit_initial_approval:
  assumes "submit E user f ask w = (Completed, w')"
  shows "\<exists>cost w1 df0 name w2 path df.
      take_from_stock E (''Tool '' @ tool_cb f) ask w = Inr (cost, w1)
    \<and> get_df E None w1 = (Inr (df0, name), w2)
    \<and> workbooks w' path = Some (Workbook df)
    \<and> columns df = columns df0
    \<and> length (rows df) = Suc (length (rows df0))
    \<and> (\<forall>i<length (rows df0). \<forall>c. cell_at (rows df ! i) c = cell_at (rows df0 ! i) c)
    \<and> last (rows df) ''Quality_Verified'' = Some (CStr ''Pending'')
    \<and> last (rows df) ''Leader_Sign'' = Some (CStr ''Pending'')
    \<and> last (rows df) ''Quality_User'' = Some (CStr [])
    \<and> last (rows df) ''Quality_Time'' = Some (CStr [])
    \<and> last (rows df) ''Leader_User'' = Some (CStr [])
    \<and> last (rows df) ''Leader_Time'' = Some (CStr [])"
proof -
  from submit_saved[OF assms] obtain cost w1 df0 name w2 t t_id path where
    s: "take_from_stock E (''Tool '' @ tool_cb f) ask w = Inr (cost, w1)"
    and g: "get_df E None w1 = (Inr (df0, name), w2)"
    and w: "workbooks w' path = Some (Workbook (concat_row df0 (new_row E user f cost t t_id df0)))"
    by blast
  let ?r = "new_row E user f cost t t_id df0"
  let ?df = "concat_row df0 ?r"
  have c0: "canonical_frame df0" using g by (rule get_df_canonical)
  note cc = concat_row_columns[OF c0 new_row_keys, of E user f cost t t_id df0]
  note rr = concat_row_rows[OF c0 new_row_keys, of E user f cost t t_id df0]
  have mem: "\<And>c. c \<in> set COLUMNS \<Longrightarrow> c \<in> set (columns df0)"
    using c0 by (rule canonical_has_columns)
  have old: "\<forall>i<length (rows df0). \<forall>c. cell_at (rows ?df ! i) c = cell_at (rows df0 ! i) c"
  proof (intro allI impI)
    fix i c assume i: "i < length (rows df0)"
    from c0 i have "dom (rows df0 ! i) \<subseteq> set (columns df0)"
      by (simp add: canonical_frame_def list_all_length)
    then show "cell_at (rows ?df ! i) c = cell_at (rows df0 ! i) c"
      using i by (simp add: rr nth_append cell_at_reindex)
  qed
  have la: "last (rows ?df) = reindex (columns df0) (map_of ?r)" by (simp add: rr)
  have f: "last (rows ?df) ''Quality_Verified'' = Some (CStr ''Pending'')"
    "last (rows ?df) ''Leader_Sign'' = Some (CStr ''Pending'')"
    "last (rows ?df) ''Quality_User'' = Some (CStr [])"
    "last (rows ?df) ''Quality_Time'' = Some (CStr [])"
    "last (rows ?df) ''Leader_User'' = Some (CStr [])"
    "last (rows ?df) ''Leader_Time'' = Some (CStr [])"
    by (simp_all add: la reindex_def mem COLUMNS_mem cell_at_def new_row_approval)
  have len: "length (rows ?df) = Suc (length (rows df0))" by (simp add: rr)
  from s g w cc len old f show ?thesis by blast
qed

lemma ex_stock:
  "take_from_stock ex_env (''Tool '' @ tool_cb ex_form) True (ex_disk []) = Inr (0, ex_disk [])"
  by (simp add: take_from_stock_def load_json_def ex_disk_def)

lemma ex_first_load:
  "get_df ex_env None (ex_disk []) =
     (Inr (empty_frame COLUMNS, ''tool_life_data_2026_01.xlsx''),
      to_excel ''data/tool_life_data_2026_01.xlsx'' (empty_frame COLUMNS)
        (ex_disk []\<lparr>clock_reads := Suc 0\<rparr>))"
proof -
  have r: "resolve_month_path ex_env None (ex_disk [])
      = (''data/tool_life_data_2026_01.xlsx'', ex_disk []\<lparr>clock_reads := Suc 0\<rparr>)"
    by (simp add: resolve_month_path_def now_def ex_env_def ex_disk_def)
  have u: "\<forall>b. workbooks (ex_disk []) ''data/tool_life_data_2026_01.xlsx'' \<noteq> Some (Unreadable b)"
    by (simp add: ex_disk_def)
  have t: "table_on_disk ex_env (ex_disk []) ''data/tool_life_data_2026_01.xlsx'' = empty_frame []"
    by (simp add: table_on_disk_def ex_disk_def)
  show ?thesis
    using get_df_readable[OF r u] by (simp add: t ensure_empty ex_basename)
qed

lemma ex_submit_completes: "fst (submit ex_env ''kim'' ex_form True (ex_disk [])) = Completed"
  using ex_stock ex_first_load
  by (simp add: submit_def Let_def now_def ex_form_def split: prod.splits)

theorem submit_initial_approval_witness:
  "submit ex_env ''kim'' ex_form True (ex_disk [])
     = (Completed, snd (submit ex_env ''kim'' ex_form True (ex_disk [])))
   \<and> (\<exists>path df. workbooks (snd (submit ex_env ''kim'' ex_form True (ex_disk []))) path = Some (Workbook df)
        \<and> length (rows df) = 1
        \<and> last (rows df) ''Quality_Verified'' = Some (CStr ''Pending'')
        \<and> last (rows df) ''Leader_Sign'' = Some (CStr ''Pending'')
        \<and> last (rows df) ''Quality_User'' = Some (CStr [])
        \<and> last (rows df) ''Quality_Time'' = Some (CStr [])
        \<and> last (rows df) ''Leader_User'' = Some (CStr [])
        \<and> last (rows df) ''Leader_Time'' = Some (CStr []))"
proof -
  have h: "submit ex_env ''kim'' ex_form True (ex_disk [])
     = (Completed, snd (submit ex_env ''kim'' ex_form True (ex_disk [])))"
    using ex_submit_completes by (metis prod.collapse)
  from submit_initial_approval[OF h] obtain cost w1 df0 name w2 path df where
    s: "take_from_stock ex_env (''Tool '' @ tool_cb ex_form) True (ex_disk []) = Inr (cost, w1)"
    and g: "get_df ex_env None w1 = (Inr (df0, name), w2)"
    and r: "workbooks (snd (submit ex_env ''kim'' ex_form True (ex_disk []))) path = Some (Workbook df)"
      "length (rows df) = Suc (length (rows df0))"
      "last (rows df) ''Quality_Verified'' = Some (CStr ''Pending'')"
      "last (rows df) ''Leader_Sign'' = Some (CStr ''Pending'')"
      "last (rows df) ''Quality_User'' = Some (CStr [])"
      "last (rows df) ''Quality_Time'' = Some (CStr [])"
      "last (rows df) ''Leader_User'' = Some (CStr [])"
      "last (rows df) ''Leader_Time'' = Some (CStr [])"
    by blast
  from s have "w1 = ex_disk []" unfolding ex_stock by simp
  with g have "df0 = empty_frame COLUMNS" by (simp add: ex_first_load)
  then have "length (rows df) = 1" using r(2) by (simp add: empty_frame_def)
  with h r show ?thesis by blast
qed

end
